theory Spec2Isabelle
  imports Main "HOL-Library.Word"
begin

unbundle bit_operations_syntax

section \<open>Values shared by the process handle and the IO layer\<close>

type_synonym bytes = "8 word list"

text \<open>
  A JavaScript \<^verbatim>\<open>Error\<close> object: its \<^verbatim>\<open>name\<close>, its \<^verbatim>\<open>message\<close> and the
  \<^verbatim>\<open>code\<close> property some errors carry (the empty string when there is none).
\<close>

datatype jserror = JSError (ename: string) (emessage: string) (ecode: string)

definition newError :: "string \<Rightarrow> jserror" where
  "newError msg = JSError ''Error'' msg []"

definition NOT_STARTED_ERROR :: string where
  "NOT_STARTED_ERROR = ''process not started''"

text \<open>The JavaScript expression \<^verbatim>\<open>s || d\<close> on strings: the empty string is falsy.\<close>

definition str_or :: "string \<Rightarrow> string \<Rightarrow> string" where
  "str_or s d = (if s = [] then d else s)"

text \<open>The decimal text of a number, as JavaScript prints it.\<close>

definition digit_char :: "nat \<Rightarrow> char" where
  "digit_char d = char_of (48 + d)"

fun show_nat :: "nat \<Rightarrow> string" where
  "show_nat n = (if n < 10 then [digit_char n] else show_nat (n div 10) @ [digit_char (n mod 10)])"

subsection \<open>Promises\<close>

text \<open>
  A promise is a cell of a store, addressed by its index. Settling a promise that is
  already settled has no effect, as in JavaScript.
\<close>

datatype 'a pstate = Pending | Fulfilled 'a | Rejected jserror

type_synonym pstore = "int pstate list"

definition settle :: "nat \<Rightarrow> int pstate \<Rightarrow> pstore \<Rightarrow> pstore" where
  "settle i v ps = (if i < length ps \<and> ps ! i = Pending then ps[i := v] else ps)"

definition pget :: "pstore \<Rightarrow> nat \<Rightarrow> int pstate" where
  "pget ps i = (if i < length ps then ps ! i else Pending)"

section \<open>utils.ts\<close>

definition libuvErrors :: "(string \<times> string) list" where
  "libuvErrors = [
    (''E2BIG'', ''argument list too long''),
    (''EACCES'', ''permission denied''),
    (''EADDRINUSE'', ''address already in use''),
    (''EADDRNOTAVAIL'', ''address not available''),
    (''EAFNOSUPPORT'', ''address family not supported''),
    (''EAGAIN'', ''resource temporarily unavailable''),
    (''EAI_ADDRFAMILY'', ''address family not supported''),
    (''EAI_AGAIN'', ''temporary failure''),
    (''EAI_BADFLAGS'', ''bad ai_flags value''),
    (''EAI_BADHINTS'', ''invalid value for hints''),
    (''EAI_CANCELED'', ''request canceled''),
    (''EAI_FAIL'', ''permanent failure''),
    (''EAI_FAMILY'', ''ai_family not supported''),
    (''EAI_MEMORY'', ''out of memory''),
    (''EAI_NODATA'', ''no address''),
    (''EAI_NONAME'', ''unknown node or service''),
    (''EAI_OVERFLOW'', ''argument buffer overflow''),
    (''EAI_PROTOCOL'', ''resolved protocol is unknown''),
    (''EAI_SERVICE'', ''service not available for socket type''),
    (''EAI_SOCKTYPE'', ''socket type not supported''),
    (''EALREADY'', ''connection already in progress''),
    (''EBADF'', ''bad file descriptor''),
    (''EBUSY'', ''resource busy or locked''),
    (''ECANCELED'', ''operation canceled''),
    (''ECHARSET'', ''invalid Unicode character''),
    (''ECONNABORTED'', ''software caused connection abort''),
    (''ECONNREFUSED'', ''connection refused''),
    (''ECONNRESET'', ''connection reset by peer''),
    (''EDESTADDRREQ'', ''destination address required''),
    (''EEXIST'', ''file already exists''),
    (''EFAULT'', ''bad address in system call argument''),
    (''EFBIG'', ''file too large''),
    (''EHOSTUNREACH'', ''host is unreachable''),
    (''EINTR'', ''interrupted system call''),
    (''EINVAL'', ''invalid argument''),
    (''EIO'', ''i/o error''),
    (''EISCONN'', ''socket is already connected''),
    (''EISDIR'', ''illegal operation on a directory''),
    (''ELOOP'', ''too many symbolic links encountered''),
    (''EMFILE'', ''too many open files''),
    (''EMSGSIZE'', ''message too long''),
    (''ENAMETOOLONG'', ''name too long''),
    (''ENETDOWN'', ''network is down''),
    (''ENETUNREACH'', ''network is unreachable''),
    (''ENFILE'', ''file table overflow''),
    (''ENOBUFS'', ''no buffer space available''),
    (''ENODEV'', ''no such device''),
    (''ENOENT'', ''no such file or directory''),
    (''ENOMEM'', ''not enough memory''),
    (''ENONET'', ''machine is not on the network''),
    (''ENOPROTOOPT'', ''protocol not available''),
    (''ENOSPC'', ''no space left on device''),
    (''ENOSYS'', ''function not implemented''),
    (''ENOTCONN'', ''socket is not connected''),
    (''ENOTDIR'', ''not a directory''),
    (''ENOTEMPTY'', ''directory not empty''),
    (''ENOTSOCK'', ''socket operation on non-socket''),
    (''ENOTSUP'', ''operation not supported on socket''),
    (''EPERM'', ''operation not permitted''),
    (''EPIPE'', ''broken pipe''),
    (''EPROTO'', ''protocol error''),
    (''EPROTONOSUPPORT'', ''protocol not supported''),
    (''EPROTOTYPE'', ''protocol wrong type for socket''),
    (''ERANGE'', ''result too large''),
    (''EROFS'', ''read-only file system''),
    (''ESHUTDOWN'', ''cannot send after transport endpoint shutdown''),
    (''ESPIPE'', ''invalid seek''),
    (''ESRCH'', ''no such process''),
    (''ETIMEDOUT'', ''connection timed out''),
    (''ETXTBSY'', ''text file is busy''),
    (''EXDEV'', ''cross-device link not permitted''),
    (''UNKNOWN'', ''unknown error''),
    (''EOF'', ''end of file''),
    (''ENXIO'', ''no such device or address''),
    (''EMLINK'', ''too many links''),
    (''ENOTTY'', ''inappropriate ioctl for device''),
    (''EFTYPE'', ''inappropriate file type or format''),
    (''EILSEQ'', ''illegal byte sequence'')]"

text \<open>
  \<^verbatim>\<open>libuvErrors[errorCode] || ''\<close>. The table is an object literal, so a name that is
  not one of its keys is looked up among the members that every object inherits
  (\<^verbatim>\<open>constructor\<close>, \<^verbatim>\<open>toString\<close>, ...): the first argument gives the text of that member,
  as it appears once the caller puts it into the message of the error, and \<open>None\<close> for a
  name that is not inherited, which gives the empty string.
\<close>

definition errorCodeMsg :: "(string \<Rightarrow> string option) \<Rightarrow> string \<Rightarrow> string" where
  "errorCodeMsg inherited errorCode =
     (case map_of libuvErrors errorCode of
        Some m \<Rightarrow> m
      | None \<Rightarrow> (case inherited errorCode of None \<Rightarrow> [] | Some m \<Rightarrow> m))"

text \<open>
  \<^verbatim>\<open>expandTildePath\<close>; the home directory and the path separator come from the
  platform.
\<close>

definition expandTildePath :: "string \<Rightarrow> string \<Rightarrow> string \<Rightarrow> string" where
  "expandTildePath home sep path =
     (if path = ''~'' then home
      else if take (length (''~'' @ sep)) path = ''~'' @ sep then home @ drop 1 path
      else path)"

section \<open>The configuration and the state of a command (class Cmd)\<close>

text \<open>
  Streams are objects of the platform; the model names each one by a number.
  A \<^verbatim>\<open>Reader\<close> given as stdin is known by its stream and by the outcome of the test
  \<^verbatim>\<open>typeof stream.fd == 'string'\<close> that \<^verbatim>\<open>start\<close> makes on it.
\<close>

record reader_cfg =
  r_stream :: nat
  r_fd_is_string :: bool

datatype stdin_cfg =
    InNull
  | InInherit
  | InPipe
  | InBuffer bytes
  | InReader reader_cfg
  | InReadable nat

datatype wstream = ProcessStdout | ProcessStderr | Writable nat

datatype out_cfg = OutNull | OutInherit | OutPipe | OutStream wstream

datatype extra_cfg = ExtraNull | ExtraPipe | ExtraReadable nat

text \<open>\<^verbatim>\<open>shell: boolean | string\<close>.\<close>

datatype shell_cfg = ShellBool bool | ShellProgram string

text \<open>One entry of the \<^verbatim>\<open>stdio\<close> array handed to \<^verbatim>\<open>spawn\<close>.\<close>

datatype stdio_opt =
  Ignore | Inherit | Pipe | Fd nat | ReadableStream nat | WritableStream wstream | NullEntry

record spawn_options =
  so_stdio :: "stdio_opt list"
  so_cwd :: "string option"
  so_shell :: shell_cfg
  so_detached :: bool

text \<open>
  A stream of the child process as the platform hands it out: \<^verbatim>\<open>isReadableStream\<close>
  and \<^verbatim>\<open>isWritableStream\<close> look for a \<^verbatim>\<open>read\<close> and a \<^verbatim>\<open>write\<close> member.
\<close>

record pstream =
  ps_id :: nat
  has_read :: bool
  has_write :: bool

text \<open>
  The \<^verbatim>\<open>ChildProcess\<close> that \<^verbatim>\<open>spawn\<close> returns. \<^verbatim>\<open>cp_pid = None\<close> is an undefined
  \<^verbatim>\<open>pid\<close>. \<^verbatim>\<open>cp_exitCode\<close> is the platform's own \<^verbatim>\<open>exitCode\<close> property
  (\<^verbatim>\<open>null\<close> as \<open>None\<close>). The last three fields record what \<^verbatim>\<open>start\<close> attaches to it:
  the promise that the \<^verbatim>\<open>'error'\<close> listener rejects, whether \<^verbatim>\<open>_onexit\<close> listens to
  \<^verbatim>\<open>'exit'\<close>, and the source that is pumped into its stdin.
\<close>

datatype pump = PumpBuffer bytes | PumpStream nat

record child =
  cp_pid :: "int option"
  cp_exitCode :: "int option"
  cp_stdin :: "pstream option"
  cp_stdout :: "pstream option"
  cp_stderr :: "pstream option"
  cp_stdio :: "pstream option list"
  cp_on_error :: "nat option"
  cp_on_exit :: bool
  cp_pump :: "pump option"

text \<open>
  The fields of \<^verbatim>\<open>Cmd\<close>. \<^verbatim>\<open>promise\<close> is the index of the current promise in the
  store \<^verbatim>\<open>promises\<close>; \<^verbatim>\<open>resolve_fn\<close> and \<^verbatim>\<open>reject_fn\<close> are the promise that
  \<^verbatim>\<open>_resolve\<close> and \<^verbatim>\<open>_reject\<close> settle (\<open>None\<close> for the initial functions, which settle
  nothing).
\<close>

record cmd =
  command :: string
  args :: "string list"
  dir :: string
  shell :: shell_cfg
  stdin :: stdin_cfg
  stdout :: out_cfg
  stderr :: out_cfg
  extraFiles :: "extra_cfg list"
  process :: "child option"
  promise :: nat
  running :: bool
  pid :: int
  exitCode :: int
  resolve_fn :: "nat option"
  reject_fn :: "nat option"
  promises :: pstore

text \<open>
  The constructor: the promise is created rejected with \<^verbatim>\<open>NOT_STARTED_ERROR\<close>.
  It is the first cell of a new store.
\<close>

definition new_Cmd :: "string \<Rightarrow> string list \<Rightarrow> cmd" where
  "new_Cmd c as =
     \<lparr> command = c, args = as, dir = [], shell = ShellBool False,
       stdin = InNull, stdout = OutNull, stderr = OutNull, extraFiles = [],
       process = None, promise = 0, running = False, pid = 0, exitCode = - 1,
       resolve_fn = None, reject_fn = None,
       promises = [Rejected (newError NOT_STARTED_ERROR)] \<rparr>"

text \<open>\<^verbatim>\<open>this._resolve(v)\<close> and \<^verbatim>\<open>this._reject(e)\<close>.\<close>

definition call_resolve :: "int \<Rightarrow> cmd \<Rightarrow> jserror + cmd" where
  "call_resolve v c =
     (case resolve_fn c of
        None \<Rightarrow> Inl (newError ''not implemented promise resolve'')
      | Some i \<Rightarrow> Inr (c\<lparr>promises := settle i (Fulfilled v) (promises c)\<rparr>))"

definition call_reject :: "jserror \<Rightarrow> cmd \<Rightarrow> cmd" where
  "call_reject e c =
     (case reject_fn c of
        None \<Rightarrow> c
      | Some i \<Rightarrow> c\<lparr>promises := settle i (Rejected e) (promises c)\<rparr>)"

section \<open>The platform\<close>

text \<open>
  What the code asks of Node.js is a parameter of the model:
  \<^item> \<^verbatim>\<open>fs.accessSync(path, R_OK | X_OK)\<close>: \<open>None\<close> when it returns, \<open>Some code\<close> when it
    throws an error whose \<^verbatim>\<open>code\<close> property is \<open>code\<close> (empty when it has none);
  \<^item> \<^verbatim>\<open>fs.statSync(path)\<close>: \<open>Inr mode\<close> when it returns, \<open>Inl code\<close> when it throws;
  \<^item> \<^verbatim>\<open>os.constants.signals\<close>, a table from signal names to numbers;
  \<^item> \<^verbatim>\<open>spawn\<close>: \<open>Inr p\<close> when it returns the \<^verbatim>\<open>ChildProcess\<close> \<open>p\<close>, \<open>Inl e\<close> when it throws
    \<open>e\<close>. Node.js throws every error of the system call but \<^verbatim>\<open>EACCES\<close>, \<^verbatim>\<open>EAGAIN\<close>,
    \<^verbatim>\<open>EMFILE\<close>, \<^verbatim>\<open>ENFILE\<close> and \<^verbatim>\<open>ENOENT\<close>; for these five it returns a child whose
    \<^verbatim>\<open>pid\<close> is undefined and emits \<^verbatim>\<open>'error'\<close> later;
  \<^item> the members that every object inherits, by name (see \<^verbatim>\<open>errorCodeMsg\<close>);
  \<^item> whether a shell program name compares equal to \<^verbatim>\<open>false\<close> under \<^verbatim>\<open>==\<close>;
  \<^item> \<^verbatim>\<open>os.homedir()\<close>, \<^verbatim>\<open>path.sep\<close> and \<^verbatim>\<open>isWindows\<close>.
\<close>

record platform =
  accessSync :: "string \<Rightarrow> string option"
  statSync :: "string \<Rightarrow> string + nat"
  os_signals :: "string \<Rightarrow> int option"
  spawn :: "string \<Rightarrow> string list \<Rightarrow> spawn_options \<Rightarrow> jserror + child"
  object_member :: "string \<Rightarrow> string option"
  string_eq_false :: "string \<Rightarrow> bool"
  homedir :: string
  path_sep :: string
  isWindows :: bool

definition S_IFREG :: nat where
  "S_IFREG = 32768"

text \<open>\<^verbatim>\<open>cmd.shell == false\<close>.\<close>

definition shell_eq_false :: "platform \<Rightarrow> shell_cfg \<Rightarrow> bool" where
  "shell_eq_false pf sh =
     (case sh of ShellBool b \<Rightarrow> \<not> b | ShellProgram s \<Rightarrow> string_eq_false pf s)"

section \<open>guessSpawnError\<close>

text \<open>The first \<^verbatim>\<open>try\<close> block: the directory, then the command file.\<close>

definition probe_command :: "platform \<Rightarrow> cmd \<Rightarrow> string" where
  "probe_command pf c =
     (case accessSync pf (dir c) of
        Some ec \<Rightarrow> str_or ec ''ENOENT''
      | None \<Rightarrow>
          (case statSync pf (command c) of
             Inl ec \<Rightarrow> str_or ec ''ENOENT''
           | Inr mode \<Rightarrow> if mode AND S_IFREG = 0 then ''EACCES'' else ''EIO''))"

text \<open>The second \<^verbatim>\<open>try\<close> block: the directory alone.\<close>

definition probe_dir :: "platform \<Rightarrow> cmd \<Rightarrow> string" where
  "probe_dir pf c =
     (case accessSync pf (dir c) of
        Some ec \<Rightarrow> str_or ec ''ENOENT''
      | None \<Rightarrow> ''EIO'')"

text \<open>The pair \<open>(code, msg)\<close> that the function builds, step by step as the source does.\<close>

definition guess_code_msg :: "platform \<Rightarrow> cmd \<Rightarrow> string \<times> string" where
  "guess_code_msg pf c =
     (let code0 = [];
          msg0 = ''unspecified error'';
          (code1, msg1) =
            (if shell_eq_false pf (shell c)
             then (let k = probe_command pf c
                   in (k, str_or (errorCodeMsg (object_member pf) k) msg0))
             else (code0, msg0));
          (code2, msg2) =
            (if code1 = []
             then (let k = probe_dir pf c;
                       m = str_or (errorCodeMsg (object_member pf) k) msg1
                   in (k, if k \<noteq> [] then m @ ''; cmd.dir='' @ dir c else m))
             else (code1, msg1));
          code3 = (if code2 = [] then ''UNKNOWN'' else code2)
      in (code3, msg2))"

definition guessSpawnError :: "platform \<Rightarrow> cmd \<Rightarrow> jserror" where
  "guessSpawnError pf c =
     (let (code, msg) = guess_code_msg pf c
      in JSError ''Error''
           (''failed to spawn process '' @ command c @ '' ('' @ code @ '' '' @ msg @ '')'')
           code)"

section \<open>Cmd.start\<close>

text \<open>
  The local variables \<^verbatim>\<open>stdin\<close> and \<^verbatim>\<open>stdinStreamNeedsPiping\<close>: the entry of the
  \<^verbatim>\<open>stdio\<close> array for descriptor 0 (\<^verbatim>\<open>stdin || 'ignore'\<close>) and the stream that the
  library has to pump itself.
\<close>

definition norm_stdin :: "stdin_cfg \<Rightarrow> stdio_opt \<times> nat option" where
  "norm_stdin s =
     (case s of
        InBuffer b \<Rightarrow> (Pipe, None)
      | InReader r \<Rightarrow>
          (if r_fd_is_string r then (ReadableStream (r_stream r), None)
           else (Pipe, Some (r_stream r)))
      | InNull \<Rightarrow> (Ignore, None)
      | InInherit \<Rightarrow> (Inherit, None)
      | InPipe \<Rightarrow> (Pipe, None)
      | InReadable n \<Rightarrow> (ReadableStream n, None))"

text \<open>\<^verbatim>\<open>this.stdout === process.stdout ? 1 : this.stdout || 'ignore'\<close>, and the same for stderr.\<close>

definition stdout_opt :: "out_cfg \<Rightarrow> stdio_opt" where
  "stdout_opt s =
     (case s of
        OutStream ProcessStdout \<Rightarrow> Fd 1
      | OutStream w \<Rightarrow> WritableStream w
      | OutNull \<Rightarrow> Ignore
      | OutInherit \<Rightarrow> Inherit
      | OutPipe \<Rightarrow> Pipe)"

definition stderr_opt :: "out_cfg \<Rightarrow> stdio_opt" where
  "stderr_opt s =
     (case s of
        OutStream ProcessStderr \<Rightarrow> Fd 2
      | OutStream w \<Rightarrow> WritableStream w
      | OutNull \<Rightarrow> Ignore
      | OutInherit \<Rightarrow> Inherit
      | OutPipe \<Rightarrow> Pipe)"

definition extra_opt :: "extra_cfg \<Rightarrow> stdio_opt" where
  "extra_opt e =
     (case e of ExtraNull \<Rightarrow> NullEntry | ExtraPipe \<Rightarrow> Pipe | ExtraReadable n \<Rightarrow> ReadableStream n)"

definition spawnOptions :: "platform \<Rightarrow> cmd \<Rightarrow> spawn_options" where
  "spawnOptions pf c =
     \<lparr> so_stdio = fst (norm_stdin (stdin c)) # stdout_opt (stdout c) # stderr_opt (stderr c)
                    # map extra_opt (extraFiles c),
       so_cwd = (if dir c \<noteq> [] then Some (expandTildePath (homedir pf) (path_sep pf) (dir c))
                 else None),
       so_shell = shell c,
       so_detached = (\<not> isWindows pf) \<rparr>"

text \<open>The caller's ends of the pipes (interface \<^verbatim>\<open>Pipes\<close>), each named by its stream.\<close>

datatype io_handle = Reader nat | Writer nat

record pipes =
  pipe_stdin :: "io_handle option"
  pipe_stdout :: "io_handle option"
  pipe_stderr :: "io_handle option"
  pipe_extraFiles :: "io_handle option list"

definition extra_handle :: "pstream option \<Rightarrow> io_handle option" where
  "extra_handle s =
     (case s of
        None \<Rightarrow> None
      | Some st \<Rightarrow>
          if has_read st then Some (Reader (ps_id st))
          else if has_write st then Some (Writer (ps_id st))
          else None)"

text \<open>
  The block \<^verbatim>\<open>if (p.stdin) { ... }\<close>: a buffer or a stream that needs piping is
  connected to the child's stdin, and \<^verbatim>\<open>p.stdin\<close> is set to \<^verbatim>\<open>null\<close>.
\<close>

definition pump_stdin :: "stdin_cfg \<Rightarrow> nat option \<Rightarrow> child \<Rightarrow> child" where
  "pump_stdin cfg needsPiping p =
     (case cp_stdin p of
        None \<Rightarrow> p
      | Some w \<Rightarrow>
          (case cfg of
             InBuffer b \<Rightarrow> p\<lparr>cp_pump := Some (PumpBuffer b), cp_stdin := None\<rparr>
           | _ \<Rightarrow>
               (case needsPiping of
                  Some s \<Rightarrow> p\<lparr>cp_pump := Some (PumpStream s), cp_stdin := None\<rparr>
                | None \<Rightarrow> p)))"

definition make_pipes :: "child \<Rightarrow> pipes option" where
  "make_pipes p =
     (if cp_stdin p = None \<and> cp_stdout p = None \<and> cp_stderr p = None \<and> length (cp_stdio p) < 4
      then None
      else Some \<lparr> pipe_stdin = map_option (\<lambda>s. Writer (ps_id s)) (cp_stdin p),
                  pipe_stdout = map_option (\<lambda>s. Reader (ps_id s)) (cp_stdout p),
                  pipe_stderr = map_option (\<lambda>s. Reader (ps_id s)) (cp_stderr p),
                  pipe_extraFiles = map extra_handle (drop 3 (cp_stdio p)) \<rparr>)"

text \<open>
  \<^verbatim>\<open>start\<close> returns the thrown error (\<open>Inl\<close>) or the pipes (\<open>Inr\<close>), and the state of the
  command afterwards. When \<^verbatim>\<open>spawn\<close> itself throws, the exception leaves \<^verbatim>\<open>start\<close> at that
  line: the exit code is reset and the new promise is in place, and nothing else has
  changed.
\<close>

definition start :: "platform \<Rightarrow> cmd \<Rightarrow> (jserror + pipes option) \<times> cmd" where
  "start pf c =
     (if running c then (Inl (newError ''start() called while command is running''), c)
      else
        let c1 = c\<lparr>exitCode := - 1\<rparr>;
            i = length (promises c1);
            c2 = c1\<lparr>promises := promises c1 @ [Pending], promise := i,
                    resolve_fn := Some i, reject_fn := Some i\<rparr>;
            needsPiping = snd (norm_stdin (stdin c2))
        in (case spawn pf (command c2) (args c2) (spawnOptions pf c2) of
              Inl thrown \<Rightarrow> (Inl thrown, c2)
            | Inr p \<Rightarrow>
                (case cp_pid p of
                   None \<Rightarrow>
                     (let c3 = c2\<lparr>process := None, pid := 0\<rparr>;
                          err = guessSpawnError pf c3
                      in (Inl err, call_reject err c3))
                 | Some n \<Rightarrow>
                     (let p1 = p\<lparr>cp_on_exit := True, cp_on_error := reject_fn c2\<rparr>;
                          p2 = pump_stdin (stdin c2) needsPiping p1;
                          c3 = c2\<lparr>running := True, process := Some p2, pid := n\<rparr>
                      in (Inr (make_pipes p2), c3)))))"

text \<open>The platform's answer to the \<^verbatim>\<open>spawn\<close> call that \<^verbatim>\<open>start\<close> makes.\<close>

definition spawn_call :: "platform \<Rightarrow> cmd \<Rightarrow> jserror + child" where
  "spawn_call pf c = spawn pf (command c) (args c) (spawnOptions pf c)"

text \<open>A \<^verbatim>\<open>ChildProcess\<close> for which no process was created.\<close>

definition no_child :: child where
  "no_child = \<lparr> cp_pid = None, cp_exitCode = None, cp_stdin = None, cp_stdout = None,
                 cp_stderr = None, cp_stdio = [None, None, None], cp_on_error = None,
                 cp_on_exit = False, cp_pump = None \<rparr>"

text \<open>
  The child that this call returns. When the call throws there is no child; the
  value is then \<open>no_child\<close>, so that a child with a \<^verbatim>\<open>pid\<close> is always one that \<^verbatim>\<open>spawn\<close>
  returned.
\<close>

definition spawned :: "platform \<Rightarrow> cmd \<Rightarrow> child" where
  "spawned pf c = (case spawn_call pf c of Inl thrown \<Rightarrow> no_child | Inr p \<Rightarrow> p)"

section \<open>Concrete platforms and commands for the examples\<close>

text \<open>
  The members that an object literal inherits from \<^verbatim>\<open>Object.prototype\<close>, with the text
  that each one gives inside a string. None of them is an error code of the file
  system.
\<close>

definition node_members :: "string \<Rightarrow> string option" where
  "node_members =
     map_of [(''constructor'', ''function Object() { [native code] }''),
             (''toString'', ''function toString() { [native code] }''),
             (''valueOf'', ''function valueOf() { [native code] }''),
             (''hasOwnProperty'', ''function hasOwnProperty() { [native code] }''),
             (''isPrototypeOf'', ''function isPrototypeOf() { [native code] }''),
             (''propertyIsEnumerable'', ''function propertyIsEnumerable() { [native code] }''),
             (''toLocaleString'', ''function toLocaleString() { [native code] }''),
             (''__proto__'', ''[object Object]''),
             (''__defineGetter__'', ''function __defineGetter__() { [native code] }''),
             (''__defineSetter__'', ''function __defineSetter__() { [native code] }''),
             (''__lookupGetter__'', ''function __lookupGetter__() { [native code] }''),
             (''__lookupSetter__'', ''function __lookupSetter__() { [native code] }'')]"

text \<open>
  A platform whose file system has the directory \<^verbatim>\<open>/tmp\<close>, empty, and in which the
  process runs in a directory that holds a regular file \<^verbatim>\<open>x\<close>. A command is looked up
  by the child in its own working directory and by \<^verbatim>\<open>fs.statSync\<close> in the directory of
  the calling process. So \<^verbatim>\<open>./x/y\<close> with the working directory \<^verbatim>\<open>/tmp\<close> is not found
  by the child (\<^verbatim>\<open>ENOENT\<close>, one of the errors for which \<^verbatim>\<open>spawn\<close> returns a child
  without a \<^verbatim>\<open>pid\<close>), while \<^verbatim>\<open>fs.statSync('./x/y')\<close> fails because \<^verbatim>\<open>x\<close> is not a
  directory. The command \<^verbatim>\<open>/nonexistent\<close> is found by neither.
\<close>

definition pf_tmp :: platform where
  "pf_tmp =
     \<lparr> accessSync = (\<lambda>p. if p = ''/tmp'' \<or> p = ''.'' then None else Some ''ENOENT''),
       statSync = (\<lambda>p. if p = ''./x/y'' then Inl ''ENOTDIR''
                         else if p = ''x'' \<or> p = ''./x'' then Inr 33188
                         else Inl ''ENOENT''),
       os_signals = (\<lambda>s. None),
       spawn = (\<lambda>c a opts. Inr no_child),
       object_member = node_members,
       string_eq_false = (\<lambda>s. s = []),
       homedir = ''/root'', path_sep = ''/'', isWindows = False \<rparr>"

definition cmd_relative :: cmd where
  "cmd_relative = (new_Cmd ''./x/y'' [])\<lparr>dir := ''/tmp''\<rparr>"

definition cmd_missing :: cmd where
  "cmd_missing = (new_Cmd ''/nonexistent'' [])\<lparr>dir := ''/tmp''\<rparr>"

section \<open>Exit accounting (Cmd._onexit)\<close>

text \<open>
  The \<^verbatim>\<open>code\<close> argument of the \<^verbatim>\<open>'exit'\<close> listener: \<^verbatim>\<open>null\<close>, absent
  (\<^verbatim>\<open>undefined\<close>) or a number. The \<^verbatim>\<open>signal\<close> argument is \<^verbatim>\<open>null\<close> (\<open>None\<close>) or a
  signal name.
\<close>

datatype jscode = CodeNull | CodeUndefined | CodeNum int

text \<open>\<^verbatim>\<open>os.constants.signals[signal] || 1\<close>: an unknown name and the number 0 give 1.\<close>

definition signal_number :: "platform \<Rightarrow> string \<Rightarrow> int" where
  "signal_number pf s =
     (case os_signals pf s of None \<Rightarrow> 1 | Some n \<Rightarrow> if n = 0 then 1 else n)"

text \<open>\<^verbatim>\<open>code || 0\<close> in the branch where \<^verbatim>\<open>code\<close> is not \<^verbatim>\<open>null\<close>.\<close>

definition code_or_zero :: "jscode \<Rightarrow> int" where
  "code_or_zero code = (case code of CodeNum n \<Rightarrow> n | _ \<Rightarrow> 0)"

definition assertion_error :: jserror where
  "assertion_error = JSError ''AssertionError'' ''The expression evaluated to a falsy value'' ''ERR_ASSERTION''"

text \<open>
  \<^verbatim>\<open>_onexit\<close> returns the error it throws, if any, and the state afterwards.
  The failed \<^verbatim>\<open>assert\<close> leaves \<^verbatim>\<open>running\<close> cleared and nothing else changed.
\<close>

definition onexit :: "platform \<Rightarrow> jscode \<Rightarrow> string option \<Rightarrow> cmd \<Rightarrow> jserror option \<times> cmd" where
  "onexit pf code sig c =
     (let c1 = c\<lparr>running := False\<rparr> in
      if code = CodeNull \<or> sig \<noteq> None then
        (case sig of
           None \<Rightarrow> (Some assertion_error, c1)
         | Some s \<Rightarrow>
             (let c2 = c1\<lparr>exitCode := - signal_number pf s\<rparr>
              in case call_resolve (exitCode c2) c2 of
                   Inl e \<Rightarrow> (Some e, c2) | Inr c3 \<Rightarrow> (None, c3)))
      else
        (let c2 = c1\<lparr>exitCode := code_or_zero code\<rparr>
         in case call_resolve (exitCode c2) c2 of
              Inl e \<Rightarrow> (Some e, c2) | Inr c3 \<Rightarrow> (None, c3)))"

text \<open>
  The platform's part of a process exit: the child's own \<^verbatim>\<open>exitCode\<close> property becomes
  the numeric code (\<^verbatim>\<open>null\<close> when a signal ended it), and the \<^verbatim>\<open>'exit'\<close> listener,
  if \<^verbatim>\<open>start\<close> attached it, is called.
\<close>

definition platform_exitCode :: "jscode \<Rightarrow> int option" where
  "platform_exitCode code = (case code of CodeNum n \<Rightarrow> Some n | _ \<Rightarrow> None)"

definition child_exits :: "platform \<Rightarrow> jscode \<Rightarrow> string option \<Rightarrow> cmd \<Rightarrow> jserror option \<times> cmd" where
  "child_exits pf code sig c =
     (case process c of
        None \<Rightarrow> (None, c)
      | Some p \<Rightarrow>
          (let c1 = c\<lparr>process := Some (p\<lparr>cp_exitCode := platform_exitCode code\<rparr>)\<rparr>
           in if cp_on_exit p then onexit pf code sig c1 else (None, c1)))"

text \<open>The platform's \<^verbatim>\<open>'error'\<close> event: the listener is the \<^verbatim>\<open>_reject\<close> of that start.\<close>

definition child_errors :: "jserror \<Rightarrow> cmd \<Rightarrow> cmd" where
  "child_errors e c =
     (case process c of
        None \<Rightarrow> c
      | Some p \<Rightarrow>
          (case cp_on_error p of
             None \<Rightarrow> c
           | Some i \<Rightarrow> c\<lparr>promises := settle i (Rejected e) (promises c)\<rparr>))"

section \<open>Cmd.signal\<close>

datatype sig = SigName string | SigNum int

datatype sigmode = Standard | Group

text \<open>
  The calls that reach the platform: \<^verbatim>\<open>process.kill(pid, sig)\<close> and \<^verbatim>\<open>p.kill(sig)\<close> on
  the child.
\<close>

datatype pcall = ProcessKill int sig | ChildKill sig

text \<open>
  The platform's answers to one call of \<^verbatim>\<open>signal\<close>: whether \<^verbatim>\<open>process.kill\<close> on the
  group returns (rather than throws), and what \<^verbatim>\<open>p.kill(sig)\<close> does: throw, or return a
  boolean.
\<close>

record sig_answer =
  group_accepts :: bool
  kill_result :: "jserror + bool"

definition checkproc :: "cmd \<Rightarrow> jserror + child" where
  "checkproc c = (case process c of None \<Rightarrow> Inl (newError NOT_STARTED_ERROR) | Some p \<Rightarrow> Inr p)"

text \<open>\<^verbatim>\<open>-(p.pid || 1)\<close>.\<close>

definition group_id :: "child \<Rightarrow> int" where
  "group_id p = - (case cp_pid p of None \<Rightarrow> 1 | Some n \<Rightarrow> if n = 0 then 1 else n)"

definition signal :: "sig_answer \<Rightarrow> sig \<Rightarrow> sigmode option \<Rightarrow> cmd \<Rightarrow> (jserror + bool) \<times> pcall list" where
  "signal ans sg mode c =
     (case checkproc c of
        Inl e \<Rightarrow> (Inl e, [])
      | Inr p \<Rightarrow>
          if mode = Some Group then
            (if group_accepts ans then (Inr True, [ProcessKill (group_id p) sg])
             else (kill_result ans, [ProcessKill (group_id p) sg, ChildKill sg]))
          else (kill_result ans, [ChildKill sg]))"

section \<open>Cmd._waitTimeout and createTimeout\<close>

text \<open>
  The callbacks that the code registers on the command's promise with \<^verbatim>\<open>then\<close>:
  \<^item> \<open>ResolveUnlessTimedOut\<close>: \<^verbatim>\<open>(exitCode) => { if (!timeoutOccured) resolve(exitCode) }\<close>
    in \<^verbatim>\<open>_waitTimeout\<close>;
  \<^item> \<open>ClearTimer\<close>: both handlers of \<^verbatim>\<open>createTimeout\<close>, which call \<^verbatim>\<open>clearTimeout\<close>;
  \<^item> \<open>ResolveOuter\<close>: \<^verbatim>\<open>this.promise.then(resolve)\<close> in the timeout handler of \<^verbatim>\<open>kill\<close>.
\<close>

datatype reaction = ResolveUnlessTimedOut | ClearTimer | ResolveOuter

text \<open>
  The promise that \<^verbatim>\<open>_waitTimeout\<close> returns, with the state its closures share:
  the flag \<^verbatim>\<open>timeoutOccured\<close>, whether the timer is armed, and the callbacks that
  have not run yet, each with the promise it was registered on. \<open>t_attempts\<close> counts
  the calls of \<^verbatim>\<open>resolve\<close> and \<^verbatim>\<open>reject\<close> of the returned promise.
\<close>

record wtask =
  t_outer :: "int pstate"
  t_timeoutOccured :: bool
  t_timer :: bool
  t_reactions :: "(nat \<times> reaction) list"
  t_attempts :: nat

text \<open>A call of \<^verbatim>\<open>resolve\<close> or \<^verbatim>\<open>reject\<close>: only the first one settles the promise.\<close>

definition settle_outer :: "int pstate \<Rightarrow> wtask \<Rightarrow> wtask" where
  "settle_outer v t =
     t\<lparr>t_outer := (if t_outer t = Pending then v else t_outer t),
       t_attempts := Suc (t_attempts t)\<rparr>"

text \<open>One callback runs on the settled state \<open>st\<close> of the watched promise.\<close>

definition react :: "int pstate \<Rightarrow> wtask \<Rightarrow> reaction \<Rightarrow> wtask" where
  "react st t r =
     (case r of
        ResolveUnlessTimedOut \<Rightarrow>
          (case st of
             Fulfilled v \<Rightarrow> if \<not> t_timeoutOccured t then settle_outer (Fulfilled v) t else t
           | _ \<Rightarrow> t)
      | ClearTimer \<Rightarrow> t\<lparr>t_timer := False\<rparr>
      | ResolveOuter \<Rightarrow>
          (case st of Fulfilled v \<Rightarrow> settle_outer (Fulfilled v) t | _ \<Rightarrow> t))"

text \<open>
  The callbacks registered on a promise that is settled run in the order of their
  registration, each once; the others stay registered.
\<close>

fun run_list :: "pstore \<Rightarrow> (nat \<times> reaction) list \<Rightarrow> wtask \<Rightarrow> wtask" where
  "run_list ps [] t = t"
| "run_list ps ((i, r) # rs) t =
     (if pget ps i = Pending then run_list ps rs (t\<lparr>t_reactions := t_reactions t @ [(i, r)]\<rparr>)
      else run_list ps rs (react (pget ps i) t r))"

definition run_reactions :: "pstore \<Rightarrow> wtask \<Rightarrow> wtask" where
  "run_reactions ps t = run_list ps (t_reactions t) (t\<lparr>t_reactions := []\<rparr>)"

text \<open>
  \<^verbatim>\<open>_waitTimeout\<close>: the new promise, the callback on \<^verbatim>\<open>this.promise\<close>, and
  \<^verbatim>\<open>createTimeout\<close>, which arms the timer and registers its own callbacks. If the
  command's promise is settled already, the callbacks run before any timer can fire.
\<close>

definition waitTimeout :: "cmd \<Rightarrow> wtask" where
  "waitTimeout c =
     run_reactions (promises c)
       \<lparr> t_outer = Pending, t_timeoutOccured = False, t_timer = True,
         t_reactions = [(promise c, ResolveUnlessTimedOut), (promise c, ClearTimer)],
         t_attempts = 0 \<rparr>"

section \<open>Cmd.kill\<close>

text \<open>
  What the \<^verbatim>\<open>async\<close> function \<^verbatim>\<open>kill\<close> did: it threw, it returned a number, it
  returned the command's promise, or it returned the promise of \<^verbatim>\<open>_waitTimeout\<close>.
  The promise that the caller of \<^verbatim>\<open>kill\<close> holds follows from it.
\<close>

datatype kill_run =
    KillThrew jserror
  | KillReturned int
  | KillAwaitsPromise nat
  | KillAwaitsTask wtask

definition kill_promise :: "pstore \<Rightarrow> kill_run \<Rightarrow> int pstate" where
  "kill_promise ps k =
     (case k of
        KillThrew e \<Rightarrow> Rejected e
      | KillReturned v \<Rightarrow> Fulfilled v
      | KillAwaitsPromise i \<Rightarrow> pget ps i
      | KillAwaitsTask t \<Rightarrow> t_outer t)"

definition SIGTERM :: sig where "SIGTERM = SigName ''SIGTERM''"
definition SIGKILL :: sig where "SIGKILL = SigName ''SIGKILL''"

text \<open>
  \<^verbatim>\<open>kill(sig = 'SIGTERM', timeout = 500, mode?)\<close>: an absent argument is \<open>None\<close>.
  The result is what the function did and the calls it made on the platform.
\<close>

definition kill :: "sig_answer \<Rightarrow> sig option \<Rightarrow> int option \<Rightarrow> sigmode option \<Rightarrow> cmd
                     \<Rightarrow> kill_run \<times> pcall list" where
  "kill ans sg timeout mode c =
     (let sg' = (case sg of None \<Rightarrow> SIGTERM | Some s \<Rightarrow> s);
          timeout' = (case timeout of None \<Rightarrow> 500 | Some n \<Rightarrow> n)
      in case checkproc c of
           Inl e \<Rightarrow> (KillThrew e, [])
         | Inr p \<Rightarrow>
             (case signal ans sg' (Some (case mode of None \<Rightarrow> Group | Some m \<Rightarrow> m)) c of
                (Inl e, cs) \<Rightarrow> (KillThrew e, cs)
              | (Inr ok, cs) \<Rightarrow>
                  if \<not> ok then (KillReturned (case cp_exitCode p of None \<Rightarrow> 0 | Some n \<Rightarrow> n), cs)
                  else if timeout' \<le> 0 then (KillAwaitsPromise (promise c), cs)
                  else (KillAwaitsTask (waitTimeout c), cs)))"

text \<open>
  The timeout handler of \<^verbatim>\<open>kill\<close>, called by the timer if it is still armed:
  \<^verbatim>\<open>timeoutOccured = true\<close>, \<^verbatim>\<open>p.kill('SIGKILL')\<close>, \<^verbatim>\<open>this.promise.then(resolve)\<close>.
\<close>

definition kill_timer_fires :: "cmd \<Rightarrow> kill_run \<times> pcall list \<Rightarrow> kill_run \<times> pcall list" where
  "kill_timer_fires c kc =
     (case fst kc of
        KillAwaitsTask t \<Rightarrow>
          if t_timer t then
            (KillAwaitsTask
               (run_reactions (promises c)
                  (t\<lparr>t_timeoutOccured := True, t_timer := False,
                     t_reactions := t_reactions t @ [(promise c, ResolveOuter)]\<rparr>)),
             snd kc @ [ChildKill SIGKILL])
          else kc
      | _ \<Rightarrow> kc)"

text \<open>After the command's promise may have been settled, pending callbacks run.\<close>

definition kill_settles :: "cmd \<Rightarrow> kill_run \<Rightarrow> kill_run" where
  "kill_settles c k =
     (case k of KillAwaitsTask t \<Rightarrow> KillAwaitsTask (run_reactions (promises c) t) | _ \<Rightarrow> k)"

section \<open>Events\<close>

text \<open>
  What happens after a call, one turn of the event loop at a time: the child exits, the
  child emits \<^verbatim>\<open>'error'\<close>, the timer of \<^verbatim>\<open>kill\<close> fires, the timer of \<^verbatim>\<open>wait\<close> fires
  (with the platform's answers to the signal that \<^verbatim>\<open>wait\<close> then sends). A timer that
  is not armed does not fire. The callbacks of a turn run before the next turn.
\<close>

datatype event =
    Exit jscode "string option"
  | ErrorEvent jserror
  | KillTimer
  | WaitTimer sig_answer

definition cmd_event :: "platform \<Rightarrow> event \<Rightarrow> cmd \<Rightarrow> cmd" where
  "cmd_event pf ev c =
     (case ev of
        Exit code sg \<Rightarrow> snd (child_exits pf code sg c)
      | ErrorEvent e \<Rightarrow> child_errors e c
      | _ \<Rightarrow> c)"

text \<open>A call of \<^verbatim>\<open>kill\<close> in progress: the command, what \<^verbatim>\<open>kill\<close> did, the platform calls.\<close>

type_synonym kill_state = "cmd \<times> kill_run \<times> pcall list"

definition kill_step :: "platform \<Rightarrow> kill_state \<Rightarrow> event \<Rightarrow> kill_state" where
  "kill_step pf s ev =
     (case s of (c, k, cs) \<Rightarrow>
        (case ev of
           KillTimer \<Rightarrow> (c, kill_timer_fires c (k, cs))
         | WaitTimer a \<Rightarrow> s
         | _ \<Rightarrow> (let c' = cmd_event pf ev c in (c', kill_settles c' k, cs))))"

definition kill_call :: "sig_answer \<Rightarrow> sig option \<Rightarrow> int option \<Rightarrow> sigmode option \<Rightarrow> cmd
                          \<Rightarrow> kill_state" where
  "kill_call ans sg timeout mode c = (c, kill ans sg timeout mode c)"

definition kill_after :: "platform \<Rightarrow> kill_state \<Rightarrow> event list \<Rightarrow> kill_state" where
  "kill_after pf s evs = foldl (kill_step pf) s evs"

definition kill_result_of :: "kill_state \<Rightarrow> int pstate" where
  "kill_result_of s = (case s of (c, k, cs) \<Rightarrow> kill_promise (promises c) k)"

section \<open>Cmd.wait and Cmd.run\<close>

text \<open>
  \<^verbatim>\<open>wait\<close> returns the command's own promise, or the promise of \<^verbatim>\<open>_waitTimeout\<close>.
  In the second case the state of the call also holds the \<^verbatim>\<open>timeoutSignal\<close> argument
  that the timeout handler passes to \<^verbatim>\<open>kill\<close>, the call of \<^verbatim>\<open>kill\<close> once it is made,
  whether the callback \<^verbatim>\<open>() => reject(err)\<close> on the promise of \<^verbatim>\<open>kill\<close> has run, and
  the platform calls made.
\<close>

record wait_run =
  w_task :: wtask
  w_signal :: "sig option"
  w_kill :: "kill_run option"
  w_then_ran :: bool
  w_calls :: "pcall list"

datatype wait_ret = WaitPromise nat | WaitTask wait_run

definition wait :: "int option \<Rightarrow> sig option \<Rightarrow> cmd \<Rightarrow> wait_ret" where
  "wait timeout timeoutSignal c =
     (case timeout of
        None \<Rightarrow> WaitPromise (promise c)
      | Some n \<Rightarrow>
          if n \<le> 0 then WaitPromise (promise c)
          else WaitTask \<lparr> w_task = waitTimeout c, w_signal = timeoutSignal, w_kill = None,
                          w_then_ran = False, w_calls = [] \<rparr>)"

text \<open>
  The error that \<^verbatim>\<open>createTimeout\<close> makes (\<^verbatim>\<open>name = 'Timeout'\<close>) with the message that
  the timeout handler of \<^verbatim>\<open>wait\<close> gives it.
\<close>

definition wait_timeout_error :: jserror where
  "wait_timeout_error = JSError ''Timeout'' ''Cmd.wait timeout'' []"

text \<open>
  \<^verbatim>\<open>this.kill(timeoutSignal).then(() => reject(err))\<close>: once the promise of \<^verbatim>\<open>kill\<close> is
  fulfilled the callback runs, once. A rejected promise of \<^verbatim>\<open>kill\<close> has no handler.
\<close>

definition wait_propagate :: "cmd \<Rightarrow> wait_run \<Rightarrow> wait_run" where
  "wait_propagate c w =
     (case w_kill w of
        None \<Rightarrow> w
      | Some k \<Rightarrow>
          (case kill_promise (promises c) k of
             Fulfilled v \<Rightarrow>
               if w_then_ran w then w
               else w\<lparr>w_task := settle_outer (Rejected wait_timeout_error) (w_task w),
                      w_then_ran := True\<rparr>
           | _ \<Rightarrow> w))"

text \<open>The timeout handler of \<^verbatim>\<open>wait\<close>, called by its timer if that is still armed.\<close>

definition wait_timer_fires :: "sig_answer \<Rightarrow> cmd \<Rightarrow> wait_run \<Rightarrow> wait_run" where
  "wait_timer_fires ans c w =
     (if t_timer (w_task w) then
        (let t = (w_task w)\<lparr>t_timeoutOccured := True, t_timer := False\<rparr>;
             kc = kill ans (w_signal w) None None c
         in wait_propagate c
              (w\<lparr>w_task := t, w_kill := Some (fst kc), w_calls := w_calls w @ snd kc\<rparr>))
      else w)"

type_synonym wait_state = "cmd \<times> wait_run"

definition wait_step :: "platform \<Rightarrow> wait_state \<Rightarrow> event \<Rightarrow> wait_state" where
  "wait_step pf s ev =
     (case s of (c, w) \<Rightarrow>
        (case ev of
           WaitTimer ans \<Rightarrow> (c, wait_timer_fires ans c w)
         | KillTimer \<Rightarrow>
             (case w_kill w of
                None \<Rightarrow> s
              | Some k \<Rightarrow>
                  (let kc = kill_timer_fires c (k, w_calls w)
                   in (c, wait_propagate c (w\<lparr>w_kill := Some (fst kc), w_calls := snd kc\<rparr>))))
         | _ \<Rightarrow>
             (let c' = cmd_event pf ev c
              in (c', wait_propagate c'
                        (w\<lparr>w_task := run_reactions (promises c') (w_task w),
                           w_kill := map_option (kill_settles c') (w_kill w)\<rparr>)))))"

definition wait_after :: "platform \<Rightarrow> wait_state \<Rightarrow> event list \<Rightarrow> wait_state" where
  "wait_after pf s evs = foldl (wait_step pf) s evs"

text \<open>The state of the promise that the caller of \<^verbatim>\<open>wait\<close> holds.\<close>

definition wait_promise :: "cmd \<Rightarrow> wait_ret \<Rightarrow> int pstate" where
  "wait_promise c r =
     (case r of WaitPromise i \<Rightarrow> pget (promises c) i | WaitTask w \<Rightarrow> t_outer (w_task w))"

text \<open>
  \<^verbatim>\<open>run\<close>: \<^verbatim>\<open>start\<close>, whose exception ends the call, then \<^verbatim>\<open>wait\<close>.
\<close>

definition run :: "platform \<Rightarrow> int option \<Rightarrow> cmd \<Rightarrow> (jserror + wait_ret) \<times> cmd" where
  "run pf timeout c =
     (case start pf c of
        (Inl e, c') \<Rightarrow> (Inl e, c')
      | (Inr ps, c') \<Rightarrow> (Inr (wait timeout None c'), c'))"

section \<open>io.ts: StreamReader\<close>

text \<open>
  The platform's \<^verbatim>\<open>Readable\<close> in paused mode, as the Node.js documentation describes
  it: an internal buffer, whether the source has signalled its end, whether \<^verbatim>\<open>'end'\<close>
  has been emitted, whether the stream is destroyed. \<open>ended\<close> is the field
  \<^verbatim>\<open>StreamReader.ended\<close>.
\<close>

record reader =
  buf :: bytes
  src_ended :: bool
  end_emitted :: bool
  destroyed :: bool
  ended :: bool

text \<open>\<^verbatim>\<open>new StreamReader(stream)\<close> on a stream that has produced nothing yet.\<close>

definition new_StreamReader :: reader where
  "new_StreamReader =
     \<lparr> buf = [], src_ended = False, end_emitted = False, destroyed = False, ended = False \<rparr>"

text \<open>The property \<^verbatim>\<open>stream.readable\<close>.\<close>

definition stream_readable :: "reader \<Rightarrow> bool" where
  "stream_readable r \<longleftrightarrow> \<not> destroyed r \<and> \<not> end_emitted r"

text \<open>
  The largest size that \<^verbatim>\<open>stream.read\<close> accepts, 1 GiB, and the error that it throws
  for a larger one, whatever the state of the stream: a \<^verbatim>\<open>RangeError\<close> with the code
  \<^verbatim>\<open>ERR_OUT_OF_RANGE\<close>. Its message shows the size, with separators between groups of
  three digits when the size is above \<open>2 ^ 32\<close>.
\<close>

definition MAX_HWM :: nat where
  "MAX_HWM = 1073741824"

fun groups_of_three :: "string \<Rightarrow> string" where
  "groups_of_three (a # b # c # d # rest) = a # b # c # CHR ''_'' # groups_of_three (d # rest)"
| "groups_of_three s = s"

definition addNumericalSeparator :: "string \<Rightarrow> string" where
  "addNumericalSeparator s = rev (groups_of_three (rev s))"

definition out_of_range :: "nat \<Rightarrow> jserror" where
  "out_of_range n =
     JSError ''RangeError''
       (''The value of '' @ [CHR 0x22] @ ''size'' @ [CHR 0x22]
          @ '' is out of range. It must be <= 1GiB. Received ''
          @ (if 4294967296 < n then addNumericalSeparator (show_nat n) else show_nat n))
       ''ERR_OUT_OF_RANGE''"

text \<open>
  \<^verbatim>\<open>stream.read(size)\<close>: it throws (\<open>Inl\<close>) for a size above 1 GiB; otherwise it returns
  \<^verbatim>\<open>null\<close> (\<open>None\<close>) unless \<open>size\<close> bytes are buffered, or the source has ended and
  something is left, which is then returned whole. \<^verbatim>\<open>stream.read()\<close> returns all that
  is buffered, \<^verbatim>\<open>null\<close> if that is nothing.
\<close>

definition stream_read :: "nat option \<Rightarrow> reader \<Rightarrow> jserror + (bytes \<times> reader) option" where
  "stream_read sz r =
     (case sz of
        None \<Rightarrow>
          Inr (if destroyed r \<or> buf r = [] then None else Some (buf r, r\<lparr>buf := []\<rparr>))
      | Some n \<Rightarrow>
          if MAX_HWM < n then Inl (out_of_range n)
          else Inr (if destroyed r \<or> n = 0 then None
                    else if n \<le> length (buf r)
                      then Some (take n (buf r), r\<lparr>buf := drop n (buf r)\<rparr>)
                    else if src_ended r \<and> buf r \<noteq> [] then Some (buf r, r\<lparr>buf := []\<rparr>)
                    else None))"

text \<open>
  The listener that the constructor registers with \<^verbatim>\<open>once('end', ...)\<close>, and
  \<^verbatim>\<open>close\<close>.
\<close>

definition on_end :: "reader \<Rightarrow> reader" where
  "on_end r = r\<lparr>end_emitted := True, ended := True, destroyed := True\<rparr>"

definition close :: "reader \<Rightarrow> reader" where
  "close r = (if ended r \<or> destroyed r then r else r\<lparr>destroyed := True, ended := True\<rparr>)"

definition isClosed :: "reader \<Rightarrow> bool" where
  "isClosed r = destroyed r"

text \<open>
  What happens while a \<^verbatim>\<open>read\<close> is suspended: the source delivers a chunk, the source
  ends, or another task calls \<^verbatim>\<open>close\<close> on the reader.
\<close>

datatype sevent = Chunk bytes | Eof | CloseCalled

definition MAX_SAFE_INTEGER :: nat where
  "MAX_SAFE_INTEGER = 9007199254740991"

text \<open>
  The body of the \<^verbatim>\<open>while\<close> loop after the \<^verbatim>\<open>await\<close>: read what is still needed,
  or else whatever is buffered. The result is the error that \<^verbatim>\<open>stream.read\<close> throws
  (\<open>Inl\<close>), or the bytes collected so far and the reader.
\<close>

definition loop_body :: "nat \<Rightarrow> bytes \<Rightarrow> reader \<Rightarrow> jserror + bytes \<times> reader" where
  "loop_body sz acc r =
     (case stream_read (Some (sz - length acc)) r of
        Inl e \<Rightarrow> Inl e
      | Inr (Some (b, r')) \<Rightarrow> Inr (acc @ b, r')
      | Inr None \<Rightarrow>
          (case stream_read None r of
             Inl e \<Rightarrow> Inl e
           | Inr (Some (b, r')) \<Rightarrow> Inr (acc @ b, r')
           | Inr None \<Rightarrow> Inr (acc, r)))"

text \<open>
  How a call of \<^verbatim>\<open>read\<close> ends, if it does: its promise is rejected with an error, or
  fulfilled with the bytes read. With the bytes come the reader and the events that
  have not happened yet.
\<close>

datatype read_result = Rejects jserror | Returns bytes reader "sevent list"

text \<open>
  The \<^verbatim>\<open>while\<close> loop, suspended at its \<^verbatim>\<open>await\<close>. The platform emits \<^verbatim>\<open>'end'\<close> once
  the source has ended and the buffer is empty, and \<^verbatim>\<open>'readable'\<close> when a chunk or
  the end of the source arrives; a destroyed stream emits neither. The result is
  \<open>None\<close> when the events run out while the loop is still suspended: the promise of
  \<^verbatim>\<open>read\<close> stays pending.
\<close>

fun awaiting :: "nat \<Rightarrow> bytes \<Rightarrow> reader \<Rightarrow> sevent list \<Rightarrow> read_result option" where
  "awaiting sz acc r evs =
     (if src_ended r \<and> buf r = [] \<and> \<not> destroyed r \<and> \<not> end_emitted r
      then (case loop_body sz acc (on_end r) of
              Inl e \<Rightarrow> Some (Rejects e)
            | Inr (acc', r') \<Rightarrow> Some (Returns acc' r' evs))
      else case evs of
        [] \<Rightarrow> None
      | CloseCalled # rest \<Rightarrow> awaiting sz acc (close r) rest
      | ev # rest \<Rightarrow>
          if destroyed r \<or> src_ended r then awaiting sz acc r rest
          else
            (case loop_body sz acc
                    (case ev of Chunk b \<Rightarrow> r\<lparr>buf := buf r @ b\<rparr> | _ \<Rightarrow> r\<lparr>src_ended := True\<rparr>) of
               Inl e \<Rightarrow> Some (Rejects e)
             | Inr (acc', r2) \<Rightarrow>
                 if length acc' < sz \<and> \<not> ended r2 then awaiting sz acc' r2 rest
                 else Some (Returns acc' r2 rest)))"

text \<open>
  \<^verbatim>\<open>read\<close> up to the final conversion: the \<open>size\<close> argument is absent (\<open>None\<close>) or a
  number.
\<close>

definition read_size :: "int option \<Rightarrow> nat" where
  "read_size sizeArg =
     (case sizeArg of
        Some n \<Rightarrow> if n \<ge> 0 then nat n else MAX_SAFE_INTEGER
      | None \<Rightarrow> MAX_SAFE_INTEGER)"

text \<open>The first attempt, \<^verbatim>\<open>if (this.stream.readable) { this.stream.read(size) }\<close>.\<close>

definition first_read :: "nat \<Rightarrow> reader \<Rightarrow> jserror + (bytes \<times> reader) option" where
  "first_read sz r = (if stream_readable r then stream_read (Some sz) r else Inr None)"

definition read_bytes :: "int option \<Rightarrow> reader \<Rightarrow> sevent list \<Rightarrow> read_result option" where
  "read_bytes sizeArg r evs =
     (let sz = read_size sizeArg in
      if ended r then
        (case first_read sz r of
           Inl e \<Rightarrow> Some (Rejects e)
         | Inr (Some (b, r')) \<Rightarrow> Some (Returns b r' evs)
         | Inr None \<Rightarrow> Some (Returns [] r evs))
      else
        (case first_read sz r of
           Inl e \<Rightarrow> Some (Rejects e)
         | Inr x \<Rightarrow>
             (let (acc, r1) = (case x of Some (b, r') \<Rightarrow> (b, r') | None \<Rightarrow> ([], r))
              in if length acc < sz \<and> \<not> ended r1 then awaiting sz acc r1 evs
                 else Some (Returns acc r1 evs))))"

section \<open>io.ts: DataBuffer\<close>

text \<open>
  \<^verbatim>\<open>Buffer.concat(list, totalLength)\<close>: the concatenation, cut or filled with zeros to
  \<open>totalLength\<close> when that is given.
\<close>

definition Buffer_concat :: "bytes list \<Rightarrow> nat option \<Rightarrow> bytes" where
  "Buffer_concat bufs totalLength =
     (case totalLength of
        None \<Rightarrow> concat bufs
      | Some n \<Rightarrow> take n (concat bufs) @ replicate (n - length (concat bufs)) 0)"

definition buffersJoin :: "bytes list \<Rightarrow> nat option \<Rightarrow> bytes" where
  "buffersJoin bufs totalLength =
     (if length bufs = 0 then []
      else if length bufs = 1 then hd bufs
      else Buffer_concat bufs totalLength)"

record data_buffer =
  db_data :: "bytes list"
  db_offset :: nat

definition createDataBuffer :: data_buffer where
  "createDataBuffer = \<lparr> db_data = [], db_offset = 0 \<rparr>"

definition db_write :: "data_buffer \<Rightarrow> bytes \<Rightarrow> data_buffer" where
  "db_write d b = d\<lparr>db_data := db_data d @ [b], db_offset := db_offset d + length b\<rparr>"

definition db_buffer :: "data_buffer \<Rightarrow> bytes" where
  "db_buffer d = buffersJoin (db_data d) (Some (db_offset d))"

section \<open>Cmd.output\<close>

definition show_int :: "int \<Rightarrow> string" where
  "show_int i = (if i < 0 then CHR ''-'' # show_nat (nat (- i)) else show_nat (nat i))"

text \<open>
  What \<^verbatim>\<open>output\<close> resolves with: the bytes, or their text. \<^verbatim>\<open>buf.toString(encoding)\<close>
  is the platform's; it is a parameter, and it may throw.
\<close>

datatype outval = OutBytes bytes | OutText string

type_synonym decoder = "string \<Rightarrow> bytes \<Rightarrow> jserror + string"

text \<open>
  The first part of \<^verbatim>\<open>output\<close>, up to the call of \<^verbatim>\<open>wait\<close>: the two assignments
  to \<^verbatim>\<open>this.stdout\<close> and \<^verbatim>\<open>this.stderr\<close> (\<open>output_config\<close>), \<^verbatim>\<open>start\<close>, and then the
  call that is now in progress, or the exception thrown. Reading a property of
  \<^verbatim>\<open>null\<close> is a \<^verbatim>\<open>TypeError\<close>.
\<close>

record output_call =
  o_wait :: wait_ret
  o_stdout :: io_handle
  o_stderr :: "io_handle option"
  o_encoding :: "string option"

definition type_error :: jserror where
  "type_error = JSError ''TypeError'' ''Cannot read properties of null'' []"

definition output_config :: "cmd \<Rightarrow> cmd" where
  "output_config c =
     (let c1 = c\<lparr>stdout := OutPipe\<rparr>
      in if stderr c1 = OutNull then c1\<lparr>stderr := OutPipe\<rparr> else c1)"

definition output_begin :: "platform \<Rightarrow> string option \<Rightarrow> int option \<Rightarrow> cmd
                             \<Rightarrow> (jserror + output_call) \<times> cmd" where
  "output_begin pf encoding timeout c =
     (case start pf (output_config c) of
           (Inl e, c3) \<Rightarrow> (Inl e, c3)
         | (Inr None, c3) \<Rightarrow> (Inl type_error, c3)
         | (Inr (Some ps), c3) \<Rightarrow>
             (case pipe_stdout ps of
                None \<Rightarrow> (Inl type_error, c3)
              | Some out \<Rightarrow>
                  (Inr \<lparr> o_wait = wait (Some (case timeout of None \<Rightarrow> 0 | Some t \<Rightarrow> t)) None c3,
                         o_stdout = out, o_stderr = pipe_stderr ps,
                         o_encoding = encoding \<rparr>, c3)))"

text \<open>
  The two sinks after the \<^verbatim>\<open>'data'\<close> events of the two streams: the chunks of stderr
  are collected only if there is a reader for it.
\<close>

definition collect :: "bytes list \<Rightarrow> data_buffer" where
  "collect chunks = foldl db_write createDataBuffer chunks"

definition stderr_sink :: "output_call \<Rightarrow> bytes list \<Rightarrow> data_buffer" where
  "stderr_sink oc chunks = (if o_stderr oc = None then createDataBuffer else collect chunks)"

text \<open>
  The callback of \<^verbatim>\<open>this.wait(timeout || 0).then(...)\<close>, given the exit code and the
  chunks that have arrived; an exception thrown in it rejects the promise of
  \<^verbatim>\<open>output\<close>.
\<close>

text \<open>\<^verbatim>\<open>encoding ? buf.toString(encoding) : buf\<close>.\<close>

definition output_value :: "decoder \<Rightarrow> string option \<Rightarrow> bytes \<Rightarrow> jserror + outval" where
  "output_value dec encoding b =
     (case encoding of
        None \<Rightarrow> Inr (OutBytes b)
      | Some enc \<Rightarrow>
          if enc = [] then Inr (OutBytes b)
          else (case dec enc b of Inl e \<Rightarrow> Inl e | Inr s \<Rightarrow> Inr (OutText s)))"

definition output_then :: "decoder \<Rightarrow> output_call \<Rightarrow> bytes list \<Rightarrow> bytes list \<Rightarrow> int
                            \<Rightarrow> jserror + outval" where
  "output_then dec oc outChunks errChunks code =
     (if code \<noteq> 0 then
        (let errbuf = db_buffer (stderr_sink oc errChunks);
             decoded = (case dec ''utf8'' errbuf of Inr s \<Rightarrow> Inr s | Inl e \<Rightarrow> dec ''ascii'' errbuf)
         in case decoded of
              Inl e \<Rightarrow> Inl e
            | Inr errstr0 \<Rightarrow>
                (let errstr = (if length errstr0 > 0 then ''stderr output:'' @ [CHR 0x0A] @ errstr0
                               else errstr0)
                 in Inl (newError (''command exited with status '' @ show_int code @ errstr))))
      else
        (let b = db_buffer (collect outChunks)
         in output_value dec (o_encoding oc) b))"

text \<open>The promise of \<^verbatim>\<open>output\<close>, from the state of the promise of \<^verbatim>\<open>wait\<close>.\<close>

definition output_promise :: "decoder \<Rightarrow> output_call \<Rightarrow> bytes list \<Rightarrow> bytes list \<Rightarrow> int pstate
                               \<Rightarrow> outval pstate" where
  "output_promise dec oc outChunks errChunks w =
     (case w of
        Pending \<Rightarrow> Pending
      | Rejected e \<Rightarrow> Rejected e
      | Fulfilled code \<Rightarrow>
          (case output_then dec oc outChunks errChunks code of
             Inl e \<Rightarrow> Rejected e
           | Inr v \<Rightarrow> Fulfilled v))"

section \<open>A handle whose process runs\<close>

text \<open>
  The state that a successful \<^verbatim>\<open>start\<close> establishes and that lasts until the child
  exits: the process is there with its \<^verbatim>\<open>'exit'\<close> listener, \<^verbatim>\<open>_resolve\<close> settles the
  current promise, and that promise is pending.
\<close>

definition live :: "cmd \<Rightarrow> bool" where
  "live c \<longleftrightarrow>
     running c \<and> (case process c of None \<Rightarrow> False | Some p \<Rightarrow> cp_on_exit p) \<and>
     resolve_fn c = Some (promise c) \<and> promise c < length (promises c) \<and>
     promises c ! promise c = Pending"

text \<open>
  An exit event as the platform reports it: a signal name, or else a code that is
  not \<^verbatim>\<open>null\<close>.
\<close>

definition exit_wf :: "jscode \<Rightarrow> string option \<Rightarrow> bool" where
  "exit_wf code sg \<longleftrightarrow> sg \<noteq> None \<or> code \<noteq> CodeNull"

text \<open>The exit code that \<^verbatim>\<open>_onexit\<close> records for such an event.\<close>

definition recorded :: "platform \<Rightarrow> jscode \<Rightarrow> string option \<Rightarrow> int" where
  "recorded pf code sg =
     (case sg of Some s \<Rightarrow> - signal_number pf s | None \<Rightarrow> code_or_zero code)"

section \<open>More concrete platforms and commands for the examples\<close>

text \<open>
  A \<^verbatim>\<open>spawn\<close> that behaves as Node.js documents it: \<^verbatim>\<open>stdio\<close> has one entry for each
  entry of the option, a stream where the option says \<^verbatim>\<open>'pipe'\<close> and \<^verbatim>\<open>null\<close>
  elsewhere; \<^verbatim>\<open>stdin\<close>, \<^verbatim>\<open>stdout\<close> and \<^verbatim>\<open>stderr\<close> are its first three entries.
\<close>

definition pipe_stream :: "nat \<times> stdio_opt \<Rightarrow> pstream option" where
  "pipe_stream x =
     (case x of (i, opt) \<Rightarrow>
        if opt = Pipe then Some \<lparr> ps_id = i, has_read = (i \<noteq> 0), has_write = (i = 0 \<or> 3 \<le> i) \<rparr>
        else None)"

definition node_child :: "int option \<Rightarrow> spawn_options \<Rightarrow> child" where
  "node_child pd opts =
     (let ss = map pipe_stream (enumerate 0 (so_stdio opts))
      in \<lparr> cp_pid = pd, cp_exitCode = None,
           cp_stdin = (if 0 < length ss then ss ! 0 else None),
           cp_stdout = (if 1 < length ss then ss ! 1 else None),
           cp_stderr = (if 2 < length ss then ss ! 2 else None),
           cp_stdio = ss, cp_on_error = None, cp_on_exit = False, cp_pump = None \<rparr>)"

definition pf_ok :: platform where
  "pf_ok =
     \<lparr> accessSync = (\<lambda>p. None),
       statSync = (\<lambda>p. Inr 33261),
       os_signals = map_of [(''SIGHUP'', 1), (''SIGINT'', 2), (''SIGKILL'', 9), (''SIGTERM'', 15)],
       spawn = (\<lambda>c a opts. Inr (node_child (Some 4242) opts)),
       object_member = node_members,
       string_eq_false = (\<lambda>s. s = []),
       homedir = ''/root'', path_sep = ''/'', isWindows = False \<rparr>"

definition cmd_sleep :: cmd where
  "cmd_sleep = new_Cmd ''sleep'' [''10'']"

definition cmd_started :: cmd where
  "cmd_started = snd (start pf_ok cmd_sleep)"

text \<open>The platform accepts the signal; the process is gone; the signal is not supported.\<close>

definition ans_accept :: sig_answer where
  "ans_accept = \<lparr> group_accepts = True, kill_result = Inr True \<rparr>"

definition ans_gone :: sig_answer where
  "ans_gone = \<lparr> group_accepts = False, kill_result = Inr False \<rparr>"


section \<open>States of a wait with timeout\<close>

text \<open>
  The promise of \<^verbatim>\<open>_waitTimeout\<close> while the command's promise \<open>P\<close> is pending: before
  its timer has fired, and, in \<^verbatim>\<open>kill\<close>, after it has fired. Then the promise once
  it is fulfilled.
\<close>

definition racing :: "nat \<Rightarrow> wtask" where
  "racing P =
     \<lparr> t_outer = Pending, t_timeoutOccured = False, t_timer = True,
       t_reactions = [(P, ResolveUnlessTimedOut), (P, ClearTimer)], t_attempts = 0 \<rparr>"

definition escalated :: "nat \<Rightarrow> wtask" where
  "escalated P =
     \<lparr> t_outer = Pending, t_timeoutOccured = True, t_timer = False,
       t_reactions = [(P, ResolveUnlessTimedOut), (P, ClearTimer), (P, ResolveOuter)],
       t_attempts = 0 \<rparr>"

definition fulfilled_task :: "int \<Rightarrow> bool \<Rightarrow> wtask" where
  "fulfilled_task v timedOut =
     \<lparr> t_outer = Fulfilled v, t_timeoutOccured = timedOut, t_timer = False,
       t_reactions = [], t_attempts = 1 \<rparr>"

text \<open>Events that are timers only: nothing happens to the child.\<close>

fun is_timer :: "event \<Rightarrow> bool" where
  "is_timer KillTimer = True"
| "is_timer (WaitTimer a) = True"
| "is_timer (Exit code sg) = False"
| "is_timer (ErrorEvent e) = False"

definition is_rejected :: "'a pstate \<Rightarrow> bool" where
  "is_rejected s = (case s of Rejected e \<Rightarrow> True | _ \<Rightarrow> False)"

definition is_fulfilled :: "'a pstate \<Rightarrow> bool" where
  "is_fulfilled s = (case s of Fulfilled v \<Rightarrow> True | _ \<Rightarrow> False)"

text \<open>The arguments of \<^verbatim>\<open>kill\<close> with their defaults.\<close>

definition sig_arg :: "sig option \<Rightarrow> sig" where
  "sig_arg sg = (case sg of None \<Rightarrow> SIGTERM | Some s \<Rightarrow> s)"

definition timeout_arg :: "int option \<Rightarrow> int" where
  "timeout_arg timeout = (case timeout of None \<Rightarrow> 500 | Some n \<Rightarrow> n)"

definition mode_arg :: "sigmode option \<Rightarrow> sigmode" where
  "mode_arg mode = (case mode of None \<Rightarrow> Group | Some m \<Rightarrow> m)"

text \<open>\<^verbatim>\<open>p.exitCode || 0\<close>.\<close>

definition last_known :: "child \<Rightarrow> int" where
  "last_known p = (case cp_exitCode p of None \<Rightarrow> 0 | Some n \<Rightarrow> n)"



text \<open>The process of \<open>cmd_started\<close>.\<close>

definition started_child :: child where
  "started_child =
     \<lparr> cp_pid = Some 4242, cp_exitCode = None, cp_stdin = None, cp_stdout = None,
       cp_stderr = None, cp_stdio = [None, None, None], cp_on_error = Some 1,
       cp_on_exit = True, cp_pump = None \<rparr>"

text \<open>
  What holds of a \<^verbatim>\<open>wait\<close> with timeout on the promise \<open>P\<close> at every moment. Either
  the race is open; or the promise \<open>P\<close> decided it (fulfilled, the result of
  \<^verbatim>\<open>wait\<close>, or rejected, when \<^verbatim>\<open>wait\<close> stays pending) and \<^verbatim>\<open>kill\<close> was never called;
  or the timer decided it, and then \<^verbatim>\<open>wait\<close> is pending or has failed with the
  timeout error.
\<close>

definition no_resolve_outer :: "(nat \<times> reaction) list \<Rightarrow> bool" where
  "no_resolve_outer rs = list_all (\<lambda>x. snd x \<noteq> ResolveOuter) rs"

definition wait_inv :: "nat \<Rightarrow> pstore \<Rightarrow> wait_run \<Rightarrow> bool" where
  "wait_inv P ps w \<longleftrightarrow>
     (pget ps P = Pending \<and> w_task w = racing P \<and> w_kill w = None \<and> \<not> w_then_ran w \<and>
      w_calls w = []) \<or>
     (w_kill w = None \<and> w_calls w = [] \<and> \<not> w_then_ran w \<and>
      \<not> t_timeoutOccured (w_task w) \<and> \<not> t_timer (w_task w) \<and> t_reactions (w_task w) = [] \<and>
      ((is_fulfilled (t_outer (w_task w)) \<and> t_attempts (w_task w) = 1) \<or>
       (t_outer (w_task w) = Pending \<and> t_attempts (w_task w) = 0))) \<or>
     (w_kill w \<noteq> None \<and> t_timeoutOccured (w_task w) \<and> \<not> t_timer (w_task w) \<and>
      no_resolve_outer (t_reactions (w_task w)) \<and>
      ((t_outer (w_task w) = Pending \<and> t_attempts (w_task w) = 0 \<and> \<not> w_then_ran w) \<or>
       (t_outer (w_task w) = Rejected wait_timeout_error \<and> t_attempts (w_task w) = 1 \<and>
        w_then_ran w)))"

text \<open>The state of a call of \<^verbatim>\<open>wait\<close> with a positive timeout, when it returns.\<close>

definition wait_begin :: "sig option \<Rightarrow> cmd \<Rightarrow> wait_run" where
  "wait_begin timeoutSignal c =
     \<lparr> w_task = waitTimeout c, w_signal = timeoutSignal, w_kill = None,
       w_then_ran = False, w_calls = [] \<rparr>"

text \<open>
  A \<^verbatim>\<open>wait\<close> on the promise \<open>P\<close> whose timer has fired, while \<open>P\<close> is pending and
  the call \<open>k\<close> of \<^verbatim>\<open>kill\<close> has not completed.
\<close>

definition wait_timed_out :: "sig option \<Rightarrow> nat \<Rightarrow> kill_run \<Rightarrow> pcall list \<Rightarrow> wait_run" where
  "wait_timed_out ts P k cs =
     \<lparr> w_task = (racing P)\<lparr>t_timeoutOccured := True, t_timer := False\<rparr>, w_signal = ts,
       w_kill = Some k, w_then_ran = False, w_calls = cs \<rparr>"

text \<open>The handle \<open>cmd_started\<close> after its process was ended by \<^verbatim>\<open>SIGTERM\<close>.\<close>

definition cmd_killed :: cmd where
  "cmd_killed = snd (child_exits pf_ok CodeNull (Some ''SIGTERM'') cmd_started)"






text \<open>
  A command that reads its stdin from a buffer, and the same command with one extra
  descriptor that is not a pipe.
\<close>

definition cmd_tr :: cmd where
  "cmd_tr = (new_Cmd ''tr'' [''a'', ''b''])\<lparr>stdin := InBuffer [72, 105]\<rparr>"

definition cmd_tr_extra :: cmd where
  "cmd_tr_extra = cmd_tr\<lparr>extraFiles := [ExtraNull]\<rparr>"

text \<open>A decoder for the examples: every byte is one character, whatever the encoding.\<close>

definition byte_decoder :: decoder where
  "byte_decoder enc b = Inr (map (\<lambda>w. char_of (unat w)) b)"

text \<open>The call of \<^verbatim>\<open>output('utf8')\<close> on \<open>cmd_sleep\<close>, in progress.\<close>

definition oc_sleep :: output_call where
  "oc_sleep =
     \<lparr> o_wait = wait (Some 0) None (snd (start pf_ok (output_config cmd_sleep))),
       o_stdout = Reader 1, o_stderr = Some (Reader 2), o_encoding = Some ''utf8'' \<rparr>"

section \<open>What a size-bounded read is to return\<close>

text \<open>
  The bytes that a read of at most \<open>n\<close> bytes is to deliver, in the words of the
  specification: with \<open>B\<close> the bytes that are available, it returns as soon as at
  least \<open>n\<close> bytes are available, and then the first \<open>n\<close> of them, the others staying
  buffered; or as soon as the source ends, and then all of them. Until then each
  chunk that arrives becomes available. The result is \<open>None\<close> if neither happens;
  otherwise it is the bytes returned, the bytes left in the buffer, whether the end of
  the source was reached, and the events that have not happened yet.
\<close>

fun spec_read :: "nat \<Rightarrow> bytes \<Rightarrow> sevent list \<Rightarrow> (bytes \<times> bytes \<times> bool \<times> sevent list) option" where
  "spec_read n B evs =
     (if n \<le> length B then Some (take n B, drop n B, False, evs)
      else case evs of
        [] \<Rightarrow> None
      | Chunk c # rest \<Rightarrow> spec_read n (B @ c) rest
      | Eof # rest \<Rightarrow> Some (B, [], True, rest)
      | CloseCalled # rest \<Rightarrow> None)"

text \<open>The reader after such a read.\<close>

definition after_read :: "reader \<Rightarrow> bytes \<times> bytes \<times> bool \<times> sevent list \<Rightarrow> read_result" where
  "after_read r x =
     (case x of (b, left, fin, rest) \<Rightarrow>
        Returns b (if fin then on_end (r\<lparr>buf := [], src_ended := True\<rparr>) else r\<lparr>buf := left\<rparr>)
          rest)"

text \<open>A reader on a stream that is open: nothing has ended, nothing is destroyed.\<close>

definition open_reader :: "reader \<Rightarrow> bool" where
  "open_reader r \<longleftrightarrow> \<not> ended r \<and> \<not> destroyed r \<and> \<not> end_emitted r \<and> \<not> src_ended r"

text \<open>
  A reader whose stream nobody but the reader has destroyed: the stream is destroyed
  only together with the reader's own end. It is so after the constructor, and
  \<^verbatim>\<open>close\<close> and the listener for \<^verbatim>\<open>'end'\<close> keep it so.
\<close>

definition reader_inv :: "reader \<Rightarrow> bool" where
  "reader_inv r \<longleftrightarrow> (destroyed r \<longleftrightarrow> ended r) \<and> (end_emitted r \<longrightarrow> ended r)"

text \<open>The platform is about to emit \<^verbatim>\<open>'end'\<close>: the source has ended and the buffer is empty.\<close>

definition end_pending :: "reader \<Rightarrow> bool" where
  "end_pending r \<longleftrightarrow> src_ended r \<and> buf r = [] \<and> \<not> destroyed r \<and> \<not> end_emitted r"

section \<open>Spawn failure (C3)\<close>

lemma spawned_cong:
  "command c' = command c \<Longrightarrow> args c' = args c \<Longrightarrow> dir c' = dir c \<Longrightarrow> shell c' = shell c \<Longrightarrow>
   stdin c' = stdin c \<Longrightarrow> stdout c' = stdout c \<Longrightarrow> stderr c' = stderr c \<Longrightarrow>
   extraFiles c' = extraFiles c \<Longrightarrow> spawned pf c' = spawned pf c"
  by (simp add: spawned_def spawn_call_def spawnOptions_def)

lemma spawn_call_cong:
  "command c' = command c \<Longrightarrow> args c' = args c \<Longrightarrow> dir c' = dir c \<Longrightarrow> shell c' = shell c \<Longrightarrow>
   stdin c' = stdin c \<Longrightarrow> stdout c' = stdout c \<Longrightarrow> stderr c' = stderr c \<Longrightarrow>
   extraFiles c' = extraFiles c \<Longrightarrow> spawn_call pf c' = spawn_call pf c"
  by (simp add: spawn_call_def spawnOptions_def)

lemma spawned_returned:
  "cp_pid (spawned pf c) = Some n \<Longrightarrow> spawn_call pf c = Inr (spawned pf c)"
  by (cases "spawn_call pf c") (simp_all add: spawned_def no_child_def)

lemma guessSpawnError_cong:
  "command c' = command c \<Longrightarrow> dir c' = dir c \<Longrightarrow> shell c' = shell c \<Longrightarrow>
   guessSpawnError pf c' = guessSpawnError pf c"
proof -
  assume a: "command c' = command c" "dir c' = dir c" "shell c' = shell c"
  have 1: "probe_command pf c' = probe_command pf c"
    using a by (simp add: probe_command_def split: option.splits sum.splits)
  have 2: "probe_dir pf c' = probe_dir pf c"
    using a by (simp add: probe_dir_def split: option.splits)
  have "guess_code_msg pf c' = guess_code_msg pf c"
    unfolding guess_code_msg_def 1 2 a ..
  then show ?thesis
    by (simp add: guessSpawnError_def a)
qed

lemma probe_command_not_empty: "probe_command pf c \<noteq> []"
  by (simp add: probe_command_def str_or_def split: option.splits sum.splits)

lemma probe_dir_not_empty: "probe_dir pf c \<noteq> []"
  by (simp add: probe_dir_def str_or_def split: option.splits)

lemma guess_code:
  "fst (guess_code_msg pf c) =
     (if shell_eq_false pf (shell c) then probe_command pf c else probe_dir pf c)"
  by (simp add: guess_code_msg_def Let_def probe_command_not_empty probe_dir_not_empty
        split: prod.splits)

lemma guess_code_cases:
  "fst (guess_code_msg pf c) = ''EACCES'' \<or> fst (guess_code_msg pf c) = ''EIO'' \<or>
   (\<exists>k. (accessSync pf (dir c) = Some k \<or> statSync pf (command c) = Inl k) \<and>
        fst (guess_code_msg pf c) = str_or k ''ENOENT'')"
  unfolding guess_code
  by (auto simp: probe_command_def probe_dir_def split: option.splits sum.splits)

lemma ecode_guessSpawnError: "ecode (guessSpawnError pf c) = fst (guess_code_msg pf c)"
  by (simp add: guessSpawnError_def split: prod.splits)

lemma start_not_running:
  "\<not> running c \<Longrightarrow> spawn_call pf c = Inr p \<Longrightarrow> cp_pid p = None \<Longrightarrow>
   start pf c =
     (Inl (guessSpawnError pf c),
      c\<lparr>exitCode := - 1,
        promises := promises c @ [Rejected (guessSpawnError pf c)],
        promise := length (promises c),
        resolve_fn := Some (length (promises c)),
        reject_fn := Some (length (promises c)),
        process := None, pid := 0\<rparr>)"
proof -
  assume nr: "\<not> running c" and sc: "spawn_call pf c = Inr p" and np: "cp_pid p = None"
  let ?c2 = "c\<lparr>exitCode := - 1, promises := promises c @ [Pending],
                promise := length (promises c),
                resolve_fn := Some (length (promises c)),
                reject_fn := Some (length (promises c))\<rparr>"
  have so: "spawnOptions pf ?c2 = spawnOptions pf c"
    by (simp add: spawnOptions_def)
  have sp: "spawn pf (command c) (args c) (spawnOptions pf ?c2) = Inr p"
    using sc unfolding spawn_call_def so .
  have g: "guessSpawnError pf (?c2\<lparr>process := None, pid := 0\<rparr>) = guessSpawnError pf c"
    by (rule guessSpawnError_cong) simp_all
  show ?thesis
    using nr np
    by (simp add: start_def Let_def sp g call_reject_def settle_def nth_append)
qed


text \<open>
  C3, as amended. When \<^verbatim>\<open>spawn\<close> returns a child to which no process identifier is
  assigned, \<^verbatim>\<open>start\<close> throws the error that \<^verbatim>\<open>guessSpawnError\<close> builds from its probes,
  after rejecting the new promise with it; the handle has no process, pid 0 and is not
  running. The code of the error is the result of the probes of the working directory
  and of the command path when the shell is off, and of the probe of the working
  directory alone when it is on. So it is \<^verbatim>\<open>EACCES\<close>, \<^verbatim>\<open>EIO\<close>, or the code that the
  failing probe reported (\<^verbatim>\<open>ENOENT\<close> when that error carries none).
\<close>

theorem start_spawn_failure:
  assumes "\<not> running c" and "spawn_call pf c = Inr p" and "cp_pid p = None"
  shows "\<exists>e c'. start pf c = (Inl e, c') \<and> e = guessSpawnError pf c \<and>
           pget (promises c') (promise c') = Rejected e \<and>
           process c' = None \<and> pid c' = 0 \<and> \<not> running c' \<and>
           ecode e = (if shell_eq_false pf (shell c) then probe_command pf c
                      else probe_dir pf c) \<and>
           (ecode e = ''EACCES'' \<or> ecode e = ''EIO'' \<or>
            (\<exists>k. (accessSync pf (dir c) = Some k \<or> statSync pf (command c) = Inl k) \<and>
                 ecode e = str_or k ''ENOENT''))"
proof -
  have "ecode (guessSpawnError pf c) = ''EACCES'' \<or> ecode (guessSpawnError pf c) = ''EIO'' \<or>
        (\<exists>k. (accessSync pf (dir c) = Some k \<or> statSync pf (command c) = Inl k) \<and>
             ecode (guessSpawnError pf c) = str_or k ''ENOENT'')"
    using guess_code_cases [of pf c] by (simp add: ecode_guessSpawnError)
  moreover have "ecode (guessSpawnError pf c) =
      (if shell_eq_false pf (shell c) then probe_command pf c else probe_dir pf c)"
    by (simp add: ecode_guessSpawnError guess_code)
  ultimately show ?thesis
    using assms by (simp add: start_not_running pget_def)
qed

text \<open>
  The command \<^verbatim>\<open>/nonexistent\<close> with the working directory \<^verbatim>\<open>/tmp\<close>: the directory is
  there, the command is not.
\<close>

lemma guess_missing:
  "guessSpawnError pf_tmp cmd_missing =
     JSError ''Error'' ''failed to spawn process /nonexistent (ENOENT no such file or directory)''
       ''ENOENT''"
  by (simp add: guessSpawnError_def guess_code_msg_def probe_command_def shell_eq_false_def
        pf_tmp_def cmd_missing_def new_Cmd_def str_or_def errorCodeMsg_def libuvErrors_def)

lemma spawn_call_tmp: "spawn_call pf_tmp c = Inr no_child"
  by (simp add: spawn_call_def pf_tmp_def)

lemma no_child_pid: "cp_pid no_child = None"
  by (simp add: no_child_def)

lemma running_missing: "\<not> running cmd_missing"
  by (simp add: cmd_missing_def new_Cmd_def)

lemma running_relative: "\<not> running cmd_relative"
  by (simp add: cmd_relative_def new_Cmd_def)

theorem start_spawn_failure_witness:
  "\<not> running cmd_missing \<and> spawn_call pf_tmp cmd_missing = Inr no_child \<and>
   cp_pid no_child = None \<and>
   fst (start pf_tmp cmd_missing) =
     Inl (JSError ''Error''
            ''failed to spawn process /nonexistent (ENOENT no such file or directory)''
            ''ENOENT'') \<and>
   pget (promises (snd (start pf_tmp cmd_missing))) (promise (snd (start pf_tmp cmd_missing)))
     = Rejected (guessSpawnError pf_tmp cmd_missing)"
  using start_spawn_failure [OF running_missing spawn_call_tmp no_child_pid]
    running_missing spawn_call_tmp [of cmd_missing] no_child_pid guess_missing
  by auto

text \<open>
  C3 as stated fails. The command \<^verbatim>\<open>./x/y\<close> with the working directory \<^verbatim>\<open>/tmp\<close> is
  not found by the child, so \<^verbatim>\<open>spawn\<close> returns a child without a process identifier;
  the probe \<^verbatim>\<open>fs.statSync('./x/y')\<close> looks in the directory of the calling process,
  where \<^verbatim>\<open>x\<close> is a regular file, and reports \<^verbatim>\<open>ENOTDIR\<close>. That is the code of the error
  thrown, none of the four of the claim.
\<close>

lemma guess_relative:
  "guessSpawnError pf_tmp cmd_relative =
     JSError ''Error'' ''failed to spawn process ./x/y (ENOTDIR not a directory)'' ''ENOTDIR''"
  by (simp add: guessSpawnError_def guess_code_msg_def probe_command_def shell_eq_false_def
        pf_tmp_def cmd_relative_def new_Cmd_def str_or_def errorCodeMsg_def libuvErrors_def)

theorem start_spawn_failure_counterexample:
  "spawn_call pf_tmp cmd_relative = Inr no_child \<and> cp_pid no_child = None \<and>
   fst (start pf_tmp cmd_relative) =
     Inl (JSError ''Error'' ''failed to spawn process ./x/y (ENOTDIR not a directory)''
            ''ENOTDIR'') \<and>
   ''ENOTDIR'' \<notin> {''EACCES'', ''ENOENT'', ''EIO'', ''UNKNOWN''}"
  by (simp add: start_not_running [OF running_relative spawn_call_tmp no_child_pid]
        guess_relative spawn_call_tmp no_child_pid)

section \<open>Facts about the handle\<close>

lemma pget_settle:
  "pget (settle i v ps) j = (if j = i \<and> i < length ps \<and> ps ! i = Pending then v else pget ps j)"
  by (auto simp: pget_def settle_def)

lemma length_settle [simp]: "length (settle i v ps) = length ps"
  by (simp add: settle_def)

lemma child_exits_live:
  assumes "live c" and "exit_wf code sg"
  shows "fst (child_exits pf code sg c) = None"
    and "exitCode (snd (child_exits pf code sg c)) = recorded pf code sg"
    and "promises (snd (child_exits pf code sg c))
           = (promises c)[promise c := Fulfilled (recorded pf code sg)]"
    and "promise (snd (child_exits pf code sg c)) = promise c"
    and "\<not> running (snd (child_exits pf code sg c))"
    and "process (snd (child_exits pf code sg c))
           = map_option (\<lambda>p. p\<lparr>cp_exitCode := platform_exitCode code\<rparr>) (process c)"
  using assms
  by (auto simp: live_def exit_wf_def child_exits_def onexit_def call_resolve_def settle_def
        recorded_def Let_def split: option.splits)

lemma pget_child_exits_live:
  assumes "live c" and "exit_wf code sg"
  shows "pget (promises (snd (child_exits pf code sg c))) (promise c)
           = Fulfilled (recorded pf code sg)"
  using assms by (simp add: child_exits_live pget_def live_def)

lemma start_success:
  assumes "\<not> running c" and "cp_pid (spawned pf c) = Some n"
  shows "fst (start pf c) =
           Inr (make_pipes (pump_stdin (stdin c) (snd (norm_stdin (stdin c)))
                  ((spawned pf c)\<lparr>cp_on_exit := True,
                                  cp_on_error := Some (length (promises c))\<rparr>)))"
    and "snd (start pf c) =
           c\<lparr>exitCode := - 1, promises := promises c @ [Pending],
             promise := length (promises c),
             resolve_fn := Some (length (promises c)),
             reject_fn := Some (length (promises c)),
             running := True,
             process := Some (pump_stdin (stdin c) (snd (norm_stdin (stdin c)))
                  ((spawned pf c)\<lparr>cp_on_exit := True,
                                  cp_on_error := Some (length (promises c))\<rparr>)),
             pid := n\<rparr>"
proof -
  let ?c2 = "c\<lparr>exitCode := - 1, promises := promises c @ [Pending],
                promise := length (promises c),
                resolve_fn := Some (length (promises c)),
                reject_fn := Some (length (promises c))\<rparr>"
  have so: "spawnOptions pf ?c2 = spawnOptions pf c"
    by (simp add: spawnOptions_def)
  have sp: "spawn pf (command c) (args c) (spawnOptions pf ?c2) = Inr (spawned pf c)"
    using spawned_returned [OF assms(2)] unfolding spawn_call_def so .
  show "fst (start pf c) =
           Inr (make_pipes (pump_stdin (stdin c) (snd (norm_stdin (stdin c)))
                  ((spawned pf c)\<lparr>cp_on_exit := True,
                                  cp_on_error := Some (length (promises c))\<rparr>)))"
    using assms by (simp add: start_def Let_def sp)
  show "snd (start pf c) =
           c\<lparr>exitCode := - 1, promises := promises c @ [Pending],
             promise := length (promises c),
             resolve_fn := Some (length (promises c)),
             reject_fn := Some (length (promises c)),
             running := True,
             process := Some (pump_stdin (stdin c) (snd (norm_stdin (stdin c)))
                  ((spawned pf c)\<lparr>cp_on_exit := True,
                                  cp_on_error := Some (length (promises c))\<rparr>)),
             pid := n\<rparr>"
    using assms by (simp add: start_def Let_def sp)
qed

lemma pump_stdin_on_exit [simp]: "cp_on_exit (pump_stdin cfg np p) = cp_on_exit p"
  by (simp add: pump_stdin_def split: option.splits stdin_cfg.splits)

lemma pump_stdin_on_error [simp]: "cp_on_error (pump_stdin cfg np p) = cp_on_error p"
  by (simp add: pump_stdin_def split: option.splits stdin_cfg.splits)

lemma pump_stdin_pid [simp]: "cp_pid (pump_stdin cfg np p) = cp_pid p"
  by (simp add: pump_stdin_def split: option.splits stdin_cfg.splits)

lemma start_live:
  assumes "\<not> running c" and "cp_pid (spawned pf c) = Some n"
  shows "live (snd (start pf c))"
  by (simp add: start_success(2) [OF assms] live_def)

lemma sleep_not_running: "\<not> running cmd_sleep"
  by (simp add: cmd_sleep_def new_Cmd_def)

lemma sleep_spawned: "cp_pid (spawned pf_ok cmd_sleep) = Some 4242"
  by (simp add: spawned_def spawn_call_def pf_ok_def node_child_def Let_def)

lemma live_started: "live cmd_started"
  unfolding cmd_started_def by (rule start_live [OF sleep_not_running sleep_spawned])

lemma child_exits_frame:
  "command (snd (child_exits pf code sg c)) = command c"
  "args (snd (child_exits pf code sg c)) = args c"
  "dir (snd (child_exits pf code sg c)) = dir c"
  "shell (snd (child_exits pf code sg c)) = shell c"
  "stdin (snd (child_exits pf code sg c)) = stdin c"
  "stdout (snd (child_exits pf code sg c)) = stdout c"
  "stderr (snd (child_exits pf code sg c)) = stderr c"
  "extraFiles (snd (child_exits pf code sg c)) = extraFiles c"
  "promise (snd (child_exits pf code sg c)) = promise c"
  "length (promises (snd (child_exits pf code sg c))) = length (promises c)"
  by (auto simp: child_exits_def onexit_def call_resolve_def Let_def
           split: option.splits sum.splits)

lemma child_exits_not_running:
  "live c \<Longrightarrow> \<not> running (snd (child_exits pf code sg c))"
  by (auto simp: live_def child_exits_def onexit_def call_resolve_def Let_def
           split: option.splits sum.splits)

section \<open>Starting twice (C7)\<close>

text \<open>
  C7. After a successful \<^verbatim>\<open>start\<close> the handle is running, and a second \<^verbatim>\<open>start\<close>
  throws the error \<^verbatim>\<open>start() called while command is running\<close> and changes nothing.
  Once the child has exited the handle is not running, and \<^verbatim>\<open>start\<close> (the platform
  spawning as before) succeeds: the exit code is reset to \<open>-1\<close>, and the promise is a
  new, pending cell of the store, different from the first one, which keeps its state.
  When both children have exited, each promise holds the exit code of its own child.
\<close>

theorem start_twice:
  assumes "\<not> running c" and "cp_pid (spawned pf c) = Some n"
  shows "let c1 = snd (start pf c);
             c2 = snd (child_exits pf code sg c1);
             c3 = snd (start pf c2);
             c4 = snd (child_exits pf code' sg' c3)
         in running c1 \<and>
            start pf c1 = (Inl (newError ''start() called while command is running''), c1) \<and>
            \<not> running c2 \<and>
            (\<exists>ps. fst (start pf c2) = Inr ps) \<and> running c3 \<and> exitCode c3 = - 1 \<and>
            promise c3 \<noteq> promise c1 \<and> promise c3 = length (promises c2) \<and>
            pget (promises c3) (promise c3) = Pending \<and>
            pget (promises c3) (promise c1) = pget (promises c2) (promise c1) \<and>
            (exit_wf code sg \<and> exit_wf code' sg' \<longrightarrow>
               pget (promises c4) (promise c1) = Fulfilled (recorded pf code sg) \<and>
               pget (promises c4) (promise c3) = Fulfilled (recorded pf code' sg') \<and>
               exitCode c4 = recorded pf code' sg')"
proof -
  define c1 where "c1 = snd (start pf c)"
  define c2 where "c2 = snd (child_exits pf code sg c1)"
  define c3 where "c3 = snd (start pf c2)"
  define c4 where "c4 = snd (child_exits pf code' sg' c3)"
  have l1: "live c1"
    unfolding c1_def by (rule start_live [OF assms])
  have r1: "running c1"
    using l1 by (simp add: live_def)
  have p1: "promise c1 = length (promises c)" "length (promises c1) = Suc (length (promises c))"
    unfolding c1_def by (simp_all add: start_success(2) [OF assms])
  have again: "start pf c1 = (Inl (newError ''start() called while command is running''), c1)"
    using r1 by (simp add: start_def)
  have nr2: "\<not> running c2"
    unfolding c2_def by (rule child_exits_not_running [OF l1])
  have len2: "length (promises c2) = length (promises c1)" and pr2: "promise c2 = promise c1"
    unfolding c2_def by (simp_all add: child_exits_frame)
  have "spawned pf c1 = spawned pf c"
    unfolding c1_def by (rule spawned_cong) (simp_all add: start_success(2) [OF assms])
  moreover have "spawned pf c2 = spawned pf c1"
    unfolding c2_def by (rule spawned_cong) (simp_all add: child_exits_frame)
  ultimately have sp2: "cp_pid (spawned pf c2) = Some n"
    using assms(2) by simp
  have ok3: "\<exists>ps. fst (start pf c2) = Inr ps"
    by (simp add: start_success(1) [OF nr2 sp2])
  have c3: "c3 = c2\<lparr>exitCode := - 1, promises := promises c2 @ [Pending],
             promise := length (promises c2),
             resolve_fn := Some (length (promises c2)),
             reject_fn := Some (length (promises c2)),
             running := True,
             process := Some (pump_stdin (stdin c2) (snd (norm_stdin (stdin c2)))
                  ((spawned pf c2)\<lparr>cp_on_exit := True,
                                   cp_on_error := Some (length (promises c2))\<rparr>)),
             pid := n\<rparr>"
    unfolding c3_def by (rule start_success(2) [OF nr2 sp2])
  have l3: "live c3"
    unfolding c3_def by (rule start_live [OF nr2 sp2])
  have f3: "running c3" "exitCode c3 = - 1" "promise c3 = length (promises c2)"
    "promises c3 = promises c2 @ [Pending]"
    by (simp_all add: c3)
  have ne: "promise c3 \<noteq> promise c1"
    using f3(3) len2 p1 by simp
  have pend3: "pget (promises c3) (promise c3) = Pending"
    by (simp add: f3 pget_def)
  have keep3: "pget (promises c3) (promise c1) = pget (promises c2) (promise c1)"
    using len2 p1 by (simp add: f3 pget_def nth_append)
  have last: "pget (promises c4) (promise c1) = Fulfilled (recorded pf code sg) \<and>
              pget (promises c4) (promise c3) = Fulfilled (recorded pf code' sg') \<and>
              exitCode c4 = recorded pf code' sg'"
    if wf: "exit_wf code sg" "exit_wf code' sg'"
  proof -
    have a: "pget (promises c2) (promise c1) = Fulfilled (recorded pf code sg)"
      unfolding c2_def by (rule pget_child_exits_live [OF l1 wf(1)])
    have b: "promises c4 = (promises c3)[promise c3 := Fulfilled (recorded pf code' sg')]"
      unfolding c4_def by (rule child_exits_live(3) [OF l3 wf(2)])
    have "pget (promises c4) (promise c1) = pget (promises c3) (promise c1)"
      using ne by (simp add: b pget_def)
    moreover have "pget (promises c4) (promise c3) = Fulfilled (recorded pf code' sg')"
      using l3 by (simp add: b pget_def live_def)
    moreover have "exitCode c4 = recorded pf code' sg'"
      unfolding c4_def by (rule child_exits_live(2) [OF l3 wf(2)])
    ultimately show ?thesis
      using a keep3 by simp
  qed
  show ?thesis
    unfolding Let_def c1_def [symmetric] c2_def [symmetric] c3_def [symmetric] c4_def [symmetric]
    using r1 again nr2 ok3 f3(1,2,3) ne pend3 keep3 last by blast
qed

theorem start_twice_witness:
  "\<not> running cmd_sleep \<and> cp_pid (spawned pf_ok cmd_sleep) = Some 4242 \<and>
   exit_wf (CodeNum 0) None \<and> exit_wf CodeNull (Some ''SIGTERM'') \<and>
   start pf_ok cmd_started
     = (Inl (newError ''start() called while command is running''), cmd_started) \<and>
   (\<exists>ps. fst (start pf_ok (snd (child_exits pf_ok (CodeNum 0) None cmd_started))) = Inr ps)"
  using start_twice [OF sleep_not_running sleep_spawned, of "CodeNum 0" None CodeNull "Some ''SIGTERM''"]
    sleep_not_running sleep_spawned
  by (simp add: Let_def exit_wf_def cmd_started_def [symmetric])

section \<open>Waiting before the first start (C9)\<close>

lemma wait_stuck:
  "t_reactions (w_task w) = [] \<Longrightarrow> \<not> t_timer (w_task w) \<Longrightarrow> w_kill w = None \<Longrightarrow>
   snd (wait_after pf (c, w) evs) = w"
proof (induction evs arbitrary: c)
  case Nil
  then show ?case by (simp add: wait_after_def)
next
  case (Cons ev evs)
  have "\<exists>c'. wait_step pf (c, w) ev = (c', w)"
    using Cons.prems
    by (cases ev)
       (simp_all add: wait_step_def wait_timer_fires_def wait_propagate_def run_reactions_def
          Let_def)
  then obtain c' where "wait_step pf (c, w) ev = (c', w)" ..
  then show ?case
    using Cons.IH [OF Cons.prems, of c'] by (simp add: wait_after_def)
qed

text \<open>
  C9. The promise of a new handle is rejected with \<^verbatim>\<open>process not started\<close>, and a
  \<^verbatim>\<open>wait\<close> without a timeout before \<^verbatim>\<open>start\<close> returns that promise, so it fails with
  that error. But \<^verbatim>\<open>wait(100)\<close> before \<^verbatim>\<open>start\<close> does not: \<^verbatim>\<open>_waitTimeout\<close> registers a
  callback for the fulfilment of the command's promise and none for its rejection,
  and the rejection handler of \<^verbatim>\<open>createTimeout\<close> clears the timer. The promise that
  \<^verbatim>\<open>wait(100)\<close> returns is pending, no timer is armed and no callback is left, and it
  is still pending after any events whatever.
\<close>

theorem wait_before_start_pending:
  "pget (promises (new_Cmd cm as)) (promise (new_Cmd cm as))
     = Rejected (newError NOT_STARTED_ERROR) \<and>
   wait_promise (new_Cmd cm as) (wait None sg (new_Cmd cm as))
     = Rejected (newError NOT_STARTED_ERROR) \<and>
   wait (Some 100) sg (new_Cmd cm as) =
     WaitTask \<lparr> w_task = \<lparr> t_outer = Pending, t_timeoutOccured = False, t_timer = False,
                           t_reactions = [], t_attempts = 0 \<rparr>,
                w_signal = sg, w_kill = None, w_then_ran = False, w_calls = [] \<rparr> \<and>
   wait_promise (new_Cmd cm as) (wait (Some 100) sg (new_Cmd cm as)) = Pending \<and>
   t_outer (w_task (snd (wait_after pf
       (new_Cmd cm as,
        \<lparr> w_task = \<lparr> t_outer = Pending, t_timeoutOccured = False, t_timer = False,
                     t_reactions = [], t_attempts = 0 \<rparr>,
          w_signal = sg, w_kill = None, w_then_ran = False, w_calls = [] \<rparr>)
       evs))) = Pending"
proof -
  have w: "wait (Some 100) sg (new_Cmd cm as) =
     WaitTask \<lparr> w_task = \<lparr> t_outer = Pending, t_timeoutOccured = False, t_timer = False,
                           t_reactions = [], t_attempts = 0 \<rparr>,
                w_signal = sg, w_kill = None, w_then_ran = False, w_calls = [] \<rparr>"
    by (simp add: wait_def waitTimeout_def run_reactions_def new_Cmd_def pget_def react_def)
  have p: "pget (promises (new_Cmd cm as)) (promise (new_Cmd cm as))
             = Rejected (newError NOT_STARTED_ERROR)"
    by (simp add: new_Cmd_def pget_def)
  have n: "wait_promise (new_Cmd cm as) (wait None sg (new_Cmd cm as))
             = Rejected (newError NOT_STARTED_ERROR)"
    by (simp add: wait_def wait_promise_def new_Cmd_def pget_def)
  have q: "wait_promise (new_Cmd cm as) (wait (Some 100) sg (new_Cmd cm as)) = Pending"
    unfolding w by (simp add: wait_promise_def)
  show ?thesis
    using p n q unfolding w by (simp add: wait_stuck)
qed

section \<open>Facts about the calls in progress\<close>

lemma run_reactions_nil: "t_reactions t = [] \<Longrightarrow> run_reactions ps t = t"
  by (simp add: run_reactions_def)

lemma run_racing:
  "run_reactions ps (racing P) =
     (case pget ps P of
        Pending \<Rightarrow> racing P
      | Fulfilled v \<Rightarrow> fulfilled_task v False
      | Rejected e \<Rightarrow> (racing P)\<lparr>t_timer := False, t_reactions := []\<rparr>)"
  by (simp add: run_reactions_def racing_def fulfilled_task_def react_def settle_outer_def
           split: pstate.splits)

lemma run_escalated:
  "run_reactions ps (escalated P) =
     (case pget ps P of
        Pending \<Rightarrow> escalated P
      | Fulfilled v \<Rightarrow> fulfilled_task v True
      | Rejected e \<Rightarrow> (escalated P)\<lparr>t_reactions := []\<rparr>)"
  by (simp add: run_reactions_def escalated_def fulfilled_task_def react_def settle_outer_def
           split: pstate.splits)

lemma waitTimeout_racing: "waitTimeout c = run_reactions (promises c) (racing (promise c))"
  by (simp add: waitTimeout_def racing_def)

lemma kill_unfold:
  "process c = Some p \<Longrightarrow>
   kill ans sg timeout mode c =
     (case fst (signal ans (sig_arg sg) (Some (mode_arg mode)) c) of
        Inl e \<Rightarrow> KillThrew e
      | Inr ok \<Rightarrow>
          if \<not> ok then KillReturned (last_known p)
          else if timeout_arg timeout \<le> 0 then KillAwaitsPromise (promise c)
          else KillAwaitsTask (waitTimeout c),
      snd (signal ans (sig_arg sg) (Some (mode_arg mode)) c))"
  by (simp add: kill_def checkproc_def sig_arg_def timeout_arg_def mode_arg_def last_known_def
        Let_def split: prod.splits sum.splits)



lemma kill_after_Nil [simp]: "kill_after pf s [] = s"
  by (simp add: kill_after_def)

lemma kill_after_Cons [simp]: "kill_after pf s (e # es) = kill_after pf (kill_step pf s e) es"
  by (simp add: kill_after_def)









lemma exit_racing:
  assumes "live c" "exit_wf code sg"
  shows "kill_step pf (c, KillAwaitsTask (racing (promise c)), cs) (Exit code sg) =
           (snd (child_exits pf code sg c),
            KillAwaitsTask (fulfilled_task (recorded pf code sg) False), cs)"
  using pget_child_exits_live [OF assms]
  by (simp add: kill_step_def cmd_event_def kill_settles_def run_racing Let_def)

lemma exit_escalated:
  assumes "live c" "exit_wf code sg"
  shows "kill_step pf (c, KillAwaitsTask (escalated (promise c)), cs) (Exit code sg) =
           (snd (child_exits pf code sg c),
            KillAwaitsTask (fulfilled_task (recorded pf code sg) True), cs)"
  using pget_child_exits_live [OF assms]
  by (simp add: kill_step_def cmd_event_def kill_settles_def run_escalated Let_def)

lemma timer_racing:
  assumes "pget (promises c) (promise c) = Pending"
  shows "kill_step pf (c, KillAwaitsTask (racing (promise c)), cs) KillTimer =
           (c, KillAwaitsTask (escalated (promise c)), cs @ [ChildKill SIGKILL])"
proof -
  have "(racing (promise c))\<lparr>t_timeoutOccured := True, t_timer := False,
           t_reactions := t_reactions (racing (promise c)) @ [(promise c, ResolveOuter)]\<rparr>
        = escalated (promise c)"
    by (simp add: racing_def escalated_def)
  then show ?thesis
    using assms
    by (simp add: kill_step_def kill_timer_fires_def run_escalated)
       (simp add: racing_def)
qed







lemma waitTimeout_live: "live c \<Longrightarrow> waitTimeout c = racing (promise c)"
  by (simp add: waitTimeout_racing run_racing live_def pget_def)

section \<open>Cmd.kill (C6)\<close>

lemma kill_call_unfold:
  "process c = Some p \<Longrightarrow>
   kill_call ans sg timeout mode c =
     (c,
      case fst (signal ans (sig_arg sg) (Some (mode_arg mode)) c) of
        Inl e \<Rightarrow> KillThrew e
      | Inr ok \<Rightarrow>
          if \<not> ok then KillReturned (last_known p)
          else if timeout_arg timeout \<le> 0 then KillAwaitsPromise (promise c)
          else KillAwaitsTask (waitTimeout c),
      snd (signal ans (sig_arg sg) (Some (mode_arg mode)) c))"
  by (simp add: kill_call_def kill_unfold)


lemma started_process: "process cmd_started = Some started_child"
proof -
  have "spawned pf_ok cmd_sleep =
          \<lparr> cp_pid = Some 4242, cp_exitCode = None, cp_stdin = None, cp_stdout = None,
            cp_stderr = None, cp_stdio = [None, None, None], cp_on_error = None,
            cp_on_exit = False, cp_pump = None \<rparr>"
    by (simp add: spawned_def spawn_call_def pf_ok_def node_child_def spawnOptions_def cmd_sleep_def
          new_Cmd_def norm_stdin_def stdout_opt_def stderr_opt_def pipe_stream_def
          enumerate_eq_zip Let_def)
  moreover have "promises cmd_sleep = [Rejected (newError NOT_STARTED_ERROR)]"
    "stdin cmd_sleep = InNull"
    by (simp_all add: cmd_sleep_def new_Cmd_def)
  ultimately show ?thesis
    unfolding cmd_started_def start_success(2) [OF sleep_not_running sleep_spawned]
    by (simp add: pump_stdin_def started_child_def norm_stdin_def)
qed

lemma started_promise: "promise cmd_started = 1" "promises cmd_started = [Rejected (newError NOT_STARTED_ERROR), Pending]"
  unfolding cmd_started_def start_success(2) [OF sleep_not_running sleep_spawned]
  by (simp_all add: cmd_sleep_def new_Cmd_def)

lemma accept_started:
  "signal ans_accept (sig_arg None) (Some Group) cmd_started
     = (Inr True, [ProcessKill (- 4242) SIGTERM])"
  by (simp add: signal_def checkproc_def started_process group_id_def started_child_def
        ans_accept_def sig_arg_def)









section \<open>Facts about a wait with timeout\<close>

lemma wait_after_Nil [simp]: "wait_after pf s [] = s"
  by (simp add: wait_after_def)

lemma wait_after_Cons [simp]: "wait_after pf s (e # es) = wait_after pf (wait_step pf s e) es"
  by (simp add: wait_after_def)

lemma wait_after_append: "wait_after pf s (xs @ ys) = wait_after pf (wait_after pf s xs) ys"
  by (simp add: wait_after_def)

lemma wait_positive: "0 < t \<Longrightarrow> wait (Some t) ts c = WaitTask (wait_begin ts c)"
  by (simp add: wait_def wait_begin_def)

lemma react_timed_out:
  "t_timeoutOccured t \<Longrightarrow> r \<noteq> ResolveOuter \<Longrightarrow>
   t_outer (react st t r) = t_outer t \<and> t_attempts (react st t r) = t_attempts t \<and>
   t_timeoutOccured (react st t r) \<and> t_reactions (react st t r) = t_reactions t \<and>
   (\<not> t_timer t \<longrightarrow> \<not> t_timer (react st t r))"
  by (cases r; cases st) (auto simp: react_def)

lemma run_list_timed_out:
  "t_timeoutOccured t \<Longrightarrow> no_resolve_outer rs \<Longrightarrow> no_resolve_outer (t_reactions t) \<Longrightarrow>
   \<not> t_timer t \<Longrightarrow>
   t_outer (run_list ps rs t) = t_outer t \<and> t_attempts (run_list ps rs t) = t_attempts t \<and>
   t_timeoutOccured (run_list ps rs t) \<and> no_resolve_outer (t_reactions (run_list ps rs t)) \<and>
   \<not> t_timer (run_list ps rs t)"
proof (induction rs arbitrary: t)
  case Nil
  then show ?case by simp
next
  case (Cons x rs)
  obtain i r where x: "x = (i, r)" by (cases x)
  have r: "r \<noteq> ResolveOuter" and rs: "no_resolve_outer rs"
    using Cons.prems(2) by (simp_all add: x no_resolve_outer_def)
  show ?case
  proof (cases "pget ps i = Pending")
    case True
    let ?t = "t\<lparr>t_reactions := t_reactions t @ [(i, r)]\<rparr>"
    have "no_resolve_outer (t_reactions ?t)"
      using Cons.prems(3) r by (simp add: no_resolve_outer_def)
    then show ?thesis
      using Cons.IH [of ?t] Cons.prems(1,4) rs True by (simp add: x)
  next
    case False
    let ?t = "react (pget ps i) t r"
    note f = react_timed_out [OF Cons.prems(1) r, of "pget ps i"]
    show ?thesis
      using Cons.IH [of ?t] f Cons.prems(3,4) rs False by (simp add: x)
  qed
qed

lemma run_reactions_timed_out:
  "t_timeoutOccured t \<Longrightarrow> no_resolve_outer (t_reactions t) \<Longrightarrow> \<not> t_timer t \<Longrightarrow>
   t_outer (run_reactions ps t) = t_outer t \<and> t_attempts (run_reactions ps t) = t_attempts t \<and>
   t_timeoutOccured (run_reactions ps t) \<and> no_resolve_outer (t_reactions (run_reactions ps t)) \<and>
   \<not> t_timer (run_reactions ps t)"
  using run_list_timed_out [of "t\<lparr>t_reactions := []\<rparr>" "t_reactions t" ps]
  by (simp add: run_reactions_def no_resolve_outer_def)

lemma propagate_timed_out:
  assumes "w_kill w \<noteq> None" "t_timeoutOccured (w_task w)" "\<not> t_timer (w_task w)"
    "no_resolve_outer (t_reactions (w_task w))"
    "(t_outer (w_task w) = Pending \<and> t_attempts (w_task w) = 0 \<and> \<not> w_then_ran w) \<or>
     (t_outer (w_task w) = Rejected wait_timeout_error \<and> t_attempts (w_task w) = 1 \<and>
      w_then_ran w)"
  shows "wait_inv P ps (wait_propagate c w)"
  using assms
  by (auto simp: wait_inv_def wait_propagate_def settle_outer_def
           split: option.splits pstate.splits)

lemma propagate_no_kill: "w_kill w = None \<Longrightarrow> wait_propagate c w = w"
  by (simp add: wait_propagate_def)

lemma wait_inv_begin: "wait_inv (promise c) (promises c) (wait_begin ts c)"
  by (cases "pget (promises c) (promise c)")
     (simp_all add: wait_inv_def wait_begin_def waitTimeout_racing run_racing
        fulfilled_task_def is_fulfilled_def, simp_all add: racing_def)

lemma wait_inv_timer:
  assumes "wait_inv P (promises c) w"
  shows "wait_inv P (promises c) (wait_timer_fires ans c w)"
proof (cases "t_timer (w_task w)")
  case False
  then show ?thesis
    using assms by (simp add: wait_timer_fires_def)
next
  case True
  then have r: "w_task w = racing P"
    using assms by (auto simp: wait_inv_def)
  have nr: "\<not> w_then_ran w"
    using assms True by (auto simp: wait_inv_def)
  let ?w = "w\<lparr>w_task := (w_task w)\<lparr>t_timeoutOccured := True, t_timer := False\<rparr>,
              w_kill := Some (fst (kill ans (w_signal w) None None c)),
              w_calls := w_calls w @ snd (kill ans (w_signal w) None None c)\<rparr>"
  have "wait_inv P (promises c) (wait_propagate c ?w)"
    by (rule propagate_timed_out) (simp_all add: r nr racing_def no_resolve_outer_def)
  then show ?thesis
    using True by (simp add: wait_timer_fires_def Let_def)
qed

lemma wait_inv_kill_timer:
  assumes "wait_inv P (promises c) w"
  shows "wait_inv P (promises c) (snd (wait_step pf (c, w) KillTimer))"
proof (cases "w_kill w")
  case None
  then show ?thesis
    using assms by (simp add: wait_step_def)
next
  case (Some k)
  then have f: "t_timeoutOccured (w_task w)" "\<not> t_timer (w_task w)"
      "no_resolve_outer (t_reactions (w_task w))"
      "(t_outer (w_task w) = Pending \<and> t_attempts (w_task w) = 0 \<and> \<not> w_then_ran w) \<or>
       (t_outer (w_task w) = Rejected wait_timeout_error \<and> t_attempts (w_task w) = 1 \<and>
        w_then_ran w)"
    using assms by (auto simp: wait_inv_def)
  let ?w = "w\<lparr>w_kill := Some (fst (kill_timer_fires c (k, w_calls w))),
              w_calls := snd (kill_timer_fires c (k, w_calls w))\<rparr>"
  have "wait_inv P (promises c) (wait_propagate c ?w)"
    by (rule propagate_timed_out) (use f in simp_all)
  then show ?thesis
    using Some by (simp add: wait_step_def Let_def)
qed

lemma wait_inv_cmd_event:
  assumes "wait_inv P (promises c) w"
  shows "wait_inv P ps'
           (wait_propagate c' (w\<lparr>w_task := run_reactions ps' (w_task w),
                                  w_kill := map_option (kill_settles c') (w_kill w)\<rparr>))"
proof (cases "w_kill w")
  case (Some k)
  then have f: "t_timeoutOccured (w_task w)" "\<not> t_timer (w_task w)"
      "no_resolve_outer (t_reactions (w_task w))"
      "(t_outer (w_task w) = Pending \<and> t_attempts (w_task w) = 0 \<and> \<not> w_then_ran w) \<or>
       (t_outer (w_task w) = Rejected wait_timeout_error \<and> t_attempts (w_task w) = 1 \<and>
        w_then_ran w)"
    using assms by (auto simp: wait_inv_def)
  note g = run_reactions_timed_out [OF f(1,3,2), of ps']
  show ?thesis
    by (rule propagate_timed_out) (use f g Some in simp_all)
next
  case None
  let ?w = "w\<lparr>w_task := run_reactions ps' (w_task w),
              w_kill := map_option (kill_settles c') (w_kill w)\<rparr>"
  have k: "w_kill ?w = None"
    using None by simp
  have "wait_inv P ps' ?w"
  proof (cases "w_task w = racing P")
    case True
    have b: "w_calls w = []" "\<not> w_then_ran w"
      using assms None by (auto simp: wait_inv_def)
    show ?thesis
      by (cases "pget ps' P")
         (simp_all add: wait_inv_def None True run_racing b fulfilled_task_def is_fulfilled_def,
          simp_all add: racing_def)
  next
    case False
    then have "t_reactions (w_task w) = []"
      using assms None by (auto simp: wait_inv_def)
    then have "?w = w"
      using None by (simp add: run_reactions_nil)
    then show ?thesis
      using assms None False by (auto simp: wait_inv_def)
  qed
  then show ?thesis
    by (simp only: propagate_no_kill [OF k])
qed

lemma wait_inv_step:
  assumes "wait_inv P (promises c) w"
  shows "wait_inv P (promises (fst (wait_step pf (c, w) ev))) (snd (wait_step pf (c, w) ev))"
proof (cases ev)
  case (Exit code sg)
  then show ?thesis
    using wait_inv_cmd_event [OF assms] by (simp add: wait_step_def Let_def)
next
  case (ErrorEvent e)
  then show ?thesis
    using wait_inv_cmd_event [OF assms] by (simp add: wait_step_def Let_def)
next
  case KillTimer
  have "fst (wait_step pf (c, w) KillTimer) = c"
    by (simp add: wait_step_def Let_def split: option.splits)
  then show ?thesis
    using wait_inv_kill_timer [OF assms, of pf] KillTimer by simp
next
  case (WaitTimer ans)
  then show ?thesis
    using wait_inv_timer [OF assms] by (simp add: wait_step_def)
qed

lemma wait_inv_after:
  "wait_inv P (promises c) w \<Longrightarrow>
   wait_inv P (promises (fst (wait_after pf (c, w) evs))) (snd (wait_after pf (c, w) evs))"
proof (induction evs arbitrary: c w)
  case Nil
  then show ?case by simp
next
  case (Cons ev evs)
  show ?case
    using Cons.IH [OF wait_inv_step [OF Cons.prems, of pf ev]] by simp
qed

lemma wait_inv_facts:
  assumes "wait_inv P ps w"
  shows "t_attempts (w_task w) \<le> 1"
    and "t_timeoutOccured (w_task w) \<Longrightarrow>
           t_outer (w_task w) = Pending \<or> t_outer (w_task w) = Rejected wait_timeout_error"
    and "is_fulfilled (t_outer (w_task w)) \<Longrightarrow>
           w_calls w = [] \<and> w_kill w = None \<and> \<not> t_timeoutOccured (w_task w)"
    and "is_rejected (t_outer (w_task w)) \<Longrightarrow>
           t_outer (w_task w) = Rejected wait_timeout_error \<and> t_timeoutOccured (w_task w)"
  using assms
  by (auto simp: wait_inv_def racing_def is_fulfilled_def is_rejected_def split: pstate.splits)

lemma react_settled: "t_outer t \<noteq> Pending \<Longrightarrow> t_outer (react st t r) = t_outer t"
  by (cases r; cases st) (auto simp: react_def settle_outer_def)

lemma run_list_settled: "t_outer t \<noteq> Pending \<Longrightarrow> t_outer (run_list ps rs t) = t_outer t"
proof (induction rs arbitrary: t)
  case Nil
  then show ?case by simp
next
  case (Cons x rs)
  obtain i r where x: "x = (i, r)" by (cases x)
  show ?case
    using Cons.prems by (simp add: x react_settled Cons.IH)
qed

lemma run_reactions_settled:
  "t_outer t \<noteq> Pending \<Longrightarrow> t_outer (run_reactions ps t) = t_outer t"
  by (simp add: run_reactions_def run_list_settled)

lemma propagate_settled:
  "t_outer (w_task w) \<noteq> Pending \<Longrightarrow> t_outer (w_task (wait_propagate c w)) = t_outer (w_task w)"
  by (simp add: wait_propagate_def settle_outer_def split: option.splits pstate.splits)

lemma wait_step_settled:
  assumes "t_outer (w_task w) \<noteq> Pending"
  shows "t_outer (w_task (snd (wait_step pf (c, w) ev))) = t_outer (w_task w)"
proof (cases ev)
  case (WaitTimer ans)
  then show ?thesis
    using assms
    by (simp add: wait_step_def wait_timer_fires_def propagate_settled Let_def)
next
  case KillTimer
  then show ?thesis
    using assms by (simp add: wait_step_def propagate_settled Let_def split: option.splits)
next
  case (Exit code sg)
  then show ?thesis
    using assms by (simp add: wait_step_def propagate_settled run_reactions_settled Let_def)
next
  case (ErrorEvent e)
  then show ?thesis
    using assms by (simp add: wait_step_def propagate_settled run_reactions_settled Let_def)
qed

lemma wait_after_settled:
  "t_outer (w_task w) \<noteq> Pending \<Longrightarrow>
   t_outer (w_task (snd (wait_after pf (c, w) evs))) = t_outer (w_task w)"
proof (induction evs arbitrary: c w)
  case Nil
  then show ?case by simp
next
  case (Cons ev evs)
  obtain c' w' where s: "wait_step pf (c, w) ev = (c', w')"
    by (cases "wait_step pf (c, w) ev")
  have "t_outer (w_task w') = t_outer (w_task w)"
    using wait_step_settled [OF Cons.prems, of pf c ev] s by simp
  then show ?case
    using Cons.IH [of w' c'] Cons.prems s by simp
qed

lemma wait_begin_live: "live c \<Longrightarrow> w_task (wait_begin ts c) = racing (promise c)"
  by (simp add: wait_begin_def waitTimeout_live)

lemma wait_exit_first:
  assumes "live c" "exit_wf code sg"
  shows "snd (wait_after pf (c, wait_begin ts c) (Exit code sg # evs))
           = (wait_begin ts c)\<lparr>w_task := fulfilled_task (recorded pf code sg) False\<rparr>"
proof -
  have "wait_step pf (c, wait_begin ts c) (Exit code sg)
          = (snd (child_exits pf code sg c),
             (wait_begin ts c)\<lparr>w_task := fulfilled_task (recorded pf code sg) False\<rparr>)"
    using pget_child_exits_live [OF assms, of pf]
    by (simp add: wait_step_def cmd_event_def Let_def wait_begin_live [OF assms(1)] run_racing)
       (simp add: wait_begin_def wait_propagate_def)
  then show ?thesis
    by (simp add: wait_stuck fulfilled_task_def wait_begin_def)
qed

lemma kill_default_args:
  "kill ans ts None None c = kill ans (Some (sig_arg ts)) (Some 500) (Some Group) c"
  by (cases ts; cases "checkproc c") (simp_all add: kill_def sig_arg_def)

lemma wait_timer_first:
  assumes "live c"
  shows "wait_step pf (c, wait_begin ts c) (WaitTimer ans)
           = (c, wait_propagate c
                   (wait_timed_out ts (promise c) (fst (kill ans ts None None c))
                      (snd (kill ans ts None None c))))"
  by (simp add: wait_step_def wait_timer_fires_def wait_begin_live [OF assms] Let_def)
     (simp add: wait_begin_def wait_timed_out_def waitTimeout_live [OF assms] racing_def)

lemma kill_in_wait:
  assumes "live c" "process c = Some p"
  shows "kill ans ts None None c =
           (case fst (signal ans (sig_arg ts) (Some Group) c) of
              Inl e \<Rightarrow> KillThrew e
            | Inr ok \<Rightarrow> if \<not> ok then KillReturned (last_known p)
                       else KillAwaitsTask (racing (promise c)),
            snd (signal ans (sig_arg ts) (Some Group) c))"
  by (cases "fst (signal ans (sig_arg ts) (Some Group) c)")
     (simp_all add: kill_unfold [OF assms(2)] timeout_arg_def mode_arg_def
        waitTimeout_live [OF assms(1)])

lemma propagate_returned:
  "t_outer (w_task (wait_propagate c (wait_timed_out ts P (KillReturned v) cs)))
     = Rejected wait_timeout_error"
  by (simp add: wait_propagate_def wait_timed_out_def kill_promise_def settle_outer_def racing_def)

lemma propagate_pending_racing:
  "wait_propagate c (wait_timed_out ts P (KillAwaitsTask (racing P)) cs)
     = wait_timed_out ts P (KillAwaitsTask (racing P)) cs"
  by (simp add: wait_propagate_def wait_timed_out_def kill_promise_def racing_def)

lemma propagate_pending_escalated:
  "wait_propagate c (wait_timed_out ts P (KillAwaitsTask (escalated P)) cs)
     = wait_timed_out ts P (KillAwaitsTask (escalated P)) cs"
  by (simp add: wait_propagate_def wait_timed_out_def kill_promise_def escalated_def)

lemma outer_escalated: "t_outer (escalated P) = Pending"
  by (simp add: escalated_def)

lemma outer_racing: "t_outer (racing P) = Pending"
  by (simp add: racing_def)

lemma wait_step_kill_timer:
  "w_kill w = Some k \<Longrightarrow>
   wait_step pf (c, w) KillTimer =
     (c, wait_propagate c
           (w\<lparr>w_kill := Some (fst (kill_timer_fires c (k, w_calls w))),
              w_calls := snd (kill_timer_fires c (k, w_calls w))\<rparr>))"
  by (simp add: wait_step_def Let_def)

lemma wait_step_exit:
  "wait_step pf (c, w) (Exit code sg) =
     (snd (child_exits pf code sg c),
      wait_propagate (snd (child_exits pf code sg c))
        (w\<lparr>w_task := run_reactions (promises (snd (child_exits pf code sg c))) (w_task w),
           w_kill := map_option (kill_settles (snd (child_exits pf code sg c))) (w_kill w)\<rparr>))"
  by (simp add: wait_step_def cmd_event_def Let_def)

lemma propagate_fulfilled:
  "w_kill w = Some k \<Longrightarrow> kill_promise (promises c) k = Fulfilled v \<Longrightarrow> \<not> w_then_ran w \<Longrightarrow>
   t_outer (w_task w) = Pending \<Longrightarrow>
   t_outer (w_task (wait_propagate c w)) = Rejected wait_timeout_error"
  by (simp add: wait_propagate_def settle_outer_def)

lemma timed_out_timer_step:
  assumes "pget (promises c) (promise c) = Pending" "is_timer ev"
    "w = wait_timed_out ts (promise c) (KillAwaitsTask (racing (promise c))) cs \<or>
     w = wait_timed_out ts (promise c) (KillAwaitsTask (escalated (promise c)))
           (cs @ [ChildKill SIGKILL])"
  shows "\<exists>w'. wait_step pf (c, w) ev = (c, w') \<and>
           (w' = wait_timed_out ts (promise c) (KillAwaitsTask (racing (promise c))) cs \<or>
            w' = wait_timed_out ts (promise c) (KillAwaitsTask (escalated (promise c)))
                   (cs @ [ChildKill SIGKILL]))"
proof (cases ev)
  case (WaitTimer a)
  have "wait_step pf (c, w) (WaitTimer a) = (c, w)"
    using assms(3)
    by (auto simp: wait_step_def wait_timer_fires_def wait_timed_out_def racing_def)
  then show ?thesis
    using assms(3) WaitTimer by simp
next
  case KillTimer
  let ?P = "promise c"
  have a: "kill_timer_fires c (KillAwaitsTask (racing ?P), cs)
             = (KillAwaitsTask (escalated ?P), cs @ [ChildKill SIGKILL])"
    using timer_racing [OF assms(1), of pf cs] by (simp add: kill_step_def)
  have b: "kill_timer_fires c (KillAwaitsTask (escalated ?P), cs @ [ChildKill SIGKILL])
             = (KillAwaitsTask (escalated ?P), cs @ [ChildKill SIGKILL])"
    by (simp add: kill_timer_fires_def escalated_def)
  have "wait_step pf (c, w) KillTimer
          = (c, wait_timed_out ts ?P (KillAwaitsTask (escalated ?P)) (cs @ [ChildKill SIGKILL]))"
    using assms(3)
  proof
    assume w: "w = wait_timed_out ts ?P (KillAwaitsTask (racing ?P)) cs"
    show ?thesis
      unfolding w
      by (simp add: wait_step_kill_timer [of _ "KillAwaitsTask (racing ?P)"] a
            wait_timed_out_def wait_propagate_def kill_promise_def outer_escalated)
  next
    assume w: "w = wait_timed_out ts ?P (KillAwaitsTask (escalated ?P)) (cs @ [ChildKill SIGKILL])"
    show ?thesis
      unfolding w
      by (simp add: wait_step_kill_timer [of _ "KillAwaitsTask (escalated ?P)"] b
            wait_timed_out_def wait_propagate_def kill_promise_def outer_escalated)
  qed
  then show ?thesis
    using KillTimer by simp
next
  case (Exit code sg)
  then show ?thesis using assms(2) by simp
next
  case (ErrorEvent e)
  then show ?thesis using assms(2) by simp
qed

lemma timed_out_timers:
  assumes "pget (promises c) (promise c) = Pending" "\<forall>e\<in>set pre. is_timer e"
    "w = wait_timed_out ts (promise c) (KillAwaitsTask (racing (promise c))) cs \<or>
     w = wait_timed_out ts (promise c) (KillAwaitsTask (escalated (promise c)))
           (cs @ [ChildKill SIGKILL])"
  shows "\<exists>w'. wait_after pf (c, w) pre = (c, w') \<and>
           (w' = wait_timed_out ts (promise c) (KillAwaitsTask (racing (promise c))) cs \<or>
            w' = wait_timed_out ts (promise c) (KillAwaitsTask (escalated (promise c)))
                   (cs @ [ChildKill SIGKILL]))"
  using assms(2,3)
proof (induction pre arbitrary: w)
  case Nil
  then show ?case by simp
next
  case (Cons ev pre)
  have "is_timer ev" using Cons.prems(1) by simp
  from timed_out_timer_step [OF assms(1) this Cons.prems(2), of pf]
  obtain w' where s: "wait_step pf (c, w) ev = (c, w')"
    and w': "w' = wait_timed_out ts (promise c) (KillAwaitsTask (racing (promise c))) cs \<or>
             w' = wait_timed_out ts (promise c) (KillAwaitsTask (escalated (promise c)))
                    (cs @ [ChildKill SIGKILL])"
    by blast
  have "\<forall>e\<in>set pre. is_timer e" using Cons.prems(1) by simp
  from Cons.IH [OF this w'] show ?case
    by (simp add: s)
qed

lemma timed_out_exit:
  assumes "live c" "exit_wf code sg"
    "w = wait_timed_out ts (promise c) (KillAwaitsTask (racing (promise c))) cs \<or>
     w = wait_timed_out ts (promise c) (KillAwaitsTask (escalated (promise c)))
           (cs @ [ChildKill SIGKILL])"
  shows "t_outer (w_task (snd (wait_step pf (c, w) (Exit code sg)))) = Rejected wait_timeout_error"
proof -
  let ?c = "snd (child_exits pf code sg c)"
  let ?P = "promise c"
  let ?w = "w\<lparr>w_task := run_reactions (promises ?c) (w_task w),
              w_kill := map_option (kill_settles ?c) (w_kill w)\<rparr>"
  note f = pget_child_exits_live [OF assms(1,2), of pf]
  have t: "t_timeoutOccured (w_task w)" "no_resolve_outer (t_reactions (w_task w))"
    "\<not> t_timer (w_task w)" "t_outer (w_task w) = Pending" "\<not> w_then_ran w"
    using assms(3) by (auto simp: wait_timed_out_def racing_def no_resolve_outer_def)
  have o: "t_outer (w_task ?w) = Pending"
    using run_reactions_timed_out [OF t(1,2,3), of "promises ?c"] t(4) by simp
  have "\<exists>k. w_kill ?w = Some k \<and> kill_promise (promises ?c) k = Fulfilled (recorded pf code sg)"
    using assms(3) f
    by (auto simp: wait_timed_out_def kill_settles_def run_racing run_escalated
          kill_promise_def fulfilled_task_def)
  then obtain k where k: "w_kill ?w = Some k"
      "kill_promise (promises ?c) k = Fulfilled (recorded pf code sg)"
    by blast
  have "\<not> w_then_ran ?w"
    using t(5) by simp
  from propagate_fulfilled [OF k this o] show ?thesis
    by (simp add: wait_step_exit)
qed

section \<open>wait with a timeout (C1)\<close>

lemma live_process: "live c \<Longrightarrow> \<exists>p. process c = Some p"
  by (cases "process c") (simp_all add: live_def)

lemma live_pending: "live c \<Longrightarrow> pget (promises c) (promise c) = Pending"
  by (simp add: live_def pget_def)

text \<open>
  A call \<^verbatim>\<open>wait(t)\<close> with \<open>t > 0\<close> returns the promise of \<^verbatim>\<open>_waitTimeout\<close>.
  If the process has exited already, that promise is fulfilled with the exit code and
  nothing happens to it any more. Whatever happens afterwards, \<^verbatim>\<open>resolve\<close> or
  \<^verbatim>\<open>reject\<close> of that promise is called at most once; once the timer has fired the
  promise is never fulfilled; if it is fulfilled no signal was sent; and if it is
  rejected, then with the timeout error. On a handle whose process runs:
  \<^item> if the process exits before the timer fires, the promise is fulfilled with the
    recorded exit code, nothing is sent, and that stays so;
  \<^item> if the timer fires first, \<^verbatim>\<open>kill\<close> is called with the signal \<^verbatim>\<open>SIGTERM\<close>, the
    timeout 500 and the mode \<^verbatim>\<open>'group'\<close>;
  \<^item> if the signal is then not accepted, the promise is rejected with the timeout error
    at once; if it is accepted and the process exits later, with only timers firing
    in between (before or after the \<^verbatim>\<open>SIGKILL\<close> of \<^verbatim>\<open>kill\<close>), the promise is
    rejected with the timeout error, and stays so.
\<close>

lemma wait_race:
  "0 < t \<longrightarrow>
     wait (Some t) ts c = WaitTask (wait_begin ts c) \<and>
     (pget (promises c) (promise c) = Fulfilled v \<longrightarrow>
        w_task (wait_begin ts c) = fulfilled_task v False \<and>
        snd (wait_after pf (c, wait_begin ts c) evs) = wait_begin ts c) \<and>
     t_attempts (w_task (snd (wait_after pf (c, wait_begin ts c) evs))) \<le> 1 \<and>
     (t_timeoutOccured (w_task (snd (wait_after pf (c, wait_begin ts c) evs))) \<longrightarrow>
        \<not> is_fulfilled (t_outer (w_task (snd (wait_after pf (c, wait_begin ts c) evs))))) \<and>
     (is_fulfilled (t_outer (w_task (snd (wait_after pf (c, wait_begin ts c) evs)))) \<longrightarrow>
        w_calls (snd (wait_after pf (c, wait_begin ts c) evs)) = []) \<and>
     (is_rejected (t_outer (w_task (snd (wait_after pf (c, wait_begin ts c) evs)))) \<longrightarrow>
        t_outer (w_task (snd (wait_after pf (c, wait_begin ts c) evs)))
          = Rejected wait_timeout_error) \<and>
     (live c \<and> exit_wf code sg \<longrightarrow>
        snd (wait_after pf (c, wait_begin ts c) (Exit code sg # evs))
          = (wait_begin ts c)\<lparr>w_task := fulfilled_task (recorded pf code sg) False\<rparr> \<and>
        w_kill (snd (wait_after pf (c, wait_begin None c) [WaitTimer ans]))
          = Some (fst (kill ans (Some SIGTERM) (Some 500) (Some Group) c)) \<and>
        w_calls (snd (wait_after pf (c, wait_begin None c) [WaitTimer ans]))
          = snd (kill ans (Some SIGTERM) (Some 500) (Some Group) c) \<and>
        (fst (signal ans (sig_arg ts) (Some Group) c) = Inr False \<longrightarrow>
           t_outer (w_task (snd (wait_after pf (c, wait_begin ts c) (WaitTimer ans # evs))))
             = Rejected wait_timeout_error) \<and>
        (fst (signal ans (sig_arg ts) (Some Group) c) = Inr True \<and> (\<forall>e\<in>set pre. is_timer e) \<longrightarrow>
           t_outer (w_task (snd (wait_after pf (c, wait_begin ts c)
                                   (WaitTimer ans # pre @ Exit code sg # evs))))
             = Rejected wait_timeout_error))"
proof (intro impI conjI)
  assume "0 < t"
  then show "wait (Some t) ts c = WaitTask (wait_begin ts c)"
    by (rule wait_positive)
next
  assume f: "pget (promises c) (promise c) = Fulfilled v"
  show t: "w_task (wait_begin ts c) = fulfilled_task v False"
    by (simp add: wait_begin_def waitTimeout_racing run_racing f)
  show "snd (wait_after pf (c, wait_begin ts c) evs) = wait_begin ts c"
    by (rule wait_stuck) (simp_all add: t fulfilled_task_def, simp add: wait_begin_def)
next
  let ?w = "snd (wait_after pf (c, wait_begin ts c) evs)"
  have inv: "wait_inv (promise c) (promises (fst (wait_after pf (c, wait_begin ts c) evs))) ?w"
    by (rule wait_inv_after [OF wait_inv_begin])
  show "t_attempts (w_task ?w) \<le> 1"
    by (rule wait_inv_facts(1) [OF inv])
  show "\<not> is_fulfilled (t_outer (w_task ?w))" if "t_timeoutOccured (w_task ?w)"
    using wait_inv_facts(2) [OF inv that] by (auto simp: is_fulfilled_def)
  show "w_calls ?w = []" if "is_fulfilled (t_outer (w_task ?w))"
    using wait_inv_facts(3) [OF inv that] by simp
  show "t_outer (w_task ?w) = Rejected wait_timeout_error" if "is_rejected (t_outer (w_task ?w))"
    using wait_inv_facts(4) [OF inv that] by simp
next
  assume a: "live c \<and> exit_wf code sg"
  then have l: "live c" and wf: "exit_wf code sg"
    by simp_all
  obtain p where p: "process c = Some p"
    using live_process [OF l] ..
  note pend = live_pending [OF l]
  show "snd (wait_after pf (c, wait_begin ts c) (Exit code sg # evs))
          = (wait_begin ts c)\<lparr>w_task := fulfilled_task (recorded pf code sg) False\<rparr>"
    by (rule wait_exit_first [OF l wf])
  have first: "wait_step pf (c, wait_begin ts' c) (WaitTimer ans)
          = (c, wait_propagate c
                  (wait_timed_out ts' (promise c) (fst (kill ans ts' None None c))
                     (snd (kill ans ts' None None c))))" for ts'
    by (rule wait_timer_first [OF l])
  have pk: "w_kill (wait_propagate c w) = w_kill w" "w_calls (wait_propagate c w) = w_calls w" for w
    by (simp_all add: wait_propagate_def split: option.splits pstate.splits)
  have d: "kill ans None None None c = kill ans (Some SIGTERM) (Some 500) (Some Group) c"
    by (simp add: kill_default_args sig_arg_def)
  show "w_kill (snd (wait_after pf (c, wait_begin None c) [WaitTimer ans]))
          = Some (fst (kill ans (Some SIGTERM) (Some 500) (Some Group) c))"
    by (simp add: first pk wait_timed_out_def d)
  show "w_calls (snd (wait_after pf (c, wait_begin None c) [WaitTimer ans]))
          = snd (kill ans (Some SIGTERM) (Some 500) (Some Group) c)"
    by (simp add: first pk wait_timed_out_def d)
  {
    assume r: "fst (signal ans (sig_arg ts) (Some Group) c) = Inr False"
    have "t_outer (w_task (snd (wait_step pf (c, wait_begin ts c) (WaitTimer ans))))
            = Rejected wait_timeout_error"
      by (simp add: first kill_in_wait [OF l p] r propagate_returned)
    then show "t_outer (w_task (snd (wait_after pf (c, wait_begin ts c) (WaitTimer ans # evs))))
                 = Rejected wait_timeout_error"
      using wait_after_settled [of "snd (wait_step pf (c, wait_begin ts c) (WaitTimer ans))" pf c evs]
      by (simp add: first)
  }
  {
    assume r: "fst (signal ans (sig_arg ts) (Some Group) c) = Inr True \<and> (\<forall>e\<in>set pre. is_timer e)"
    let ?cs = "snd (signal ans (sig_arg ts) (Some Group) c)"
    let ?w1 = "wait_timed_out ts (promise c) (KillAwaitsTask (racing (promise c))) ?cs"
    have s1: "wait_step pf (c, wait_begin ts c) (WaitTimer ans) = (c, ?w1)"
      using r by (simp add: first kill_in_wait [OF l p] propagate_pending_racing)
    obtain w2 where s2: "wait_after pf (c, ?w1) pre = (c, w2)"
      and w2: "w2 = wait_timed_out ts (promise c) (KillAwaitsTask (racing (promise c))) ?cs \<or>
               w2 = wait_timed_out ts (promise c) (KillAwaitsTask (escalated (promise c)))
                      (?cs @ [ChildKill SIGKILL])"
      using timed_out_timers [OF pend, of pre ?w1 ts ?cs pf] r by blast
    have s3: "t_outer (w_task (snd (wait_step pf (c, w2) (Exit code sg))))
                = Rejected wait_timeout_error"
      by (rule timed_out_exit [OF l wf w2])
    obtain c3 w3 where e3: "wait_step pf (c, w2) (Exit code sg) = (c3, w3)"
      by (cases "wait_step pf (c, w2) (Exit code sg)")
    have "t_outer (w_task (snd (wait_after pf (c3, w3) evs))) = Rejected wait_timeout_error"
      using wait_after_settled [of w3 pf c3 evs] s3 e3 by simp
    then show "t_outer (w_task (snd (wait_after pf (c, wait_begin ts c)
                                      (WaitTimer ans # pre @ Exit code sg # evs))))
                 = Rejected wait_timeout_error"
      by (simp add: s1 wait_after_append s2 e3)
  }
qed

text \<open>
  A \<^verbatim>\<open>wait\<close> with timeout in which nothing is left to happen: no timer is armed and no
  callback registered, neither in \<^verbatim>\<open>wait\<close> nor in the call of \<^verbatim>\<open>kill\<close> that it made,
  and the promise of that call is pending.
\<close>

lemma wait_stuck_kill:
  assumes "t_reactions (w_task w) = []" and "\<not> t_timer (w_task w)"
    and "w_kill w = Some (KillAwaitsTask t)"
    and "t_reactions t = []" and "\<not> t_timer t" and "t_outer t = Pending"
  shows "snd (wait_after pf (c, w) evs) = w"
proof (induction evs arbitrary: c)
  case Nil
  then show ?case by (simp add: wait_after_def)
next
  case (Cons ev evs)
  have "\<exists>c'. wait_step pf (c, w) ev = (c', w)"
    using assms
    by (cases ev)
       (simp_all add: wait_step_def wait_timer_fires_def wait_propagate_def run_reactions_def
          kill_timer_fires_def kill_settles_def kill_promise_def Let_def)
  then obtain c' where "wait_step pf (c, w) ev = (c', w)" ..
  then show ?case
    using Cons.IH [of c'] by (simp add: wait_after_def)
qed

lemma started_errors:
  "child_errors e cmd_started
     = cmd_started\<lparr>promises := [Rejected (newError NOT_STARTED_ERROR), Rejected e]\<rparr>"
  by (simp add: child_errors_def started_process started_child_def started_promise settle_def)

lemma error_first:
  "wait_step pf_ok (cmd_started, wait_begin ts cmd_started) (ErrorEvent e) =
     (child_errors e cmd_started,
      (wait_begin ts cmd_started)
        \<lparr>w_task := (racing 1)\<lparr>t_timer := False, t_reactions := []\<rparr>\<rparr>)"
  by (simp add: wait_step_def cmd_event_def wait_begin_def waitTimeout_live [OF live_started]
        started_promise started_errors run_reactions_def racing_def pget_def react_def
        wait_propagate_def Let_def)

lemma timer_then_error:
  "wait_after pf_ok (cmd_started, wait_begin None cmd_started)
     [WaitTimer ans_accept, ErrorEvent e] =
     (child_errors e cmd_started,
      \<lparr> w_task = (racing 1)\<lparr>t_timeoutOccured := True, t_timer := False, t_reactions := []\<rparr>,
        w_signal = None,
        w_kill = Some (KillAwaitsTask ((racing 1)\<lparr>t_timer := False, t_reactions := []\<rparr>)),
        w_then_ran = False, w_calls = [ProcessKill (- 4242) SIGTERM] \<rparr>)"
proof -
  have 1: "wait_step pf_ok (cmd_started, wait_begin None cmd_started) (WaitTimer ans_accept) =
             (cmd_started,
              wait_timed_out None 1 (KillAwaitsTask (racing 1)) [ProcessKill (- 4242) SIGTERM])"
    by (simp add: wait_timer_first [OF live_started]
          kill_in_wait [OF live_started started_process] accept_started started_promise
          propagate_pending_racing)
  show ?thesis
    unfolding wait_after_def
    by (simp add: 1)
       (simp add: wait_step_def cmd_event_def wait_timed_out_def started_errors
          run_reactions_def racing_def pget_def react_def wait_propagate_def kill_settles_def
          kill_promise_def Let_def)
qed

lemma timer_kill_then_error:
  "wait_after pf_ok (cmd_started, wait_begin None cmd_started)
     [WaitTimer ans_accept, KillTimer, ErrorEvent e] =
     (child_errors e cmd_started,
      \<lparr> w_task = (racing 1)\<lparr>t_timeoutOccured := True, t_timer := False, t_reactions := []\<rparr>,
        w_signal = None,
        w_kill = Some (KillAwaitsTask ((escalated 1)\<lparr>t_reactions := []\<rparr>)),
        w_then_ran = False, w_calls = [ProcessKill (- 4242) SIGTERM, ChildKill SIGKILL] \<rparr>)"
proof -
  have 1: "wait_step pf_ok (cmd_started, wait_begin None cmd_started) (WaitTimer ans_accept) =
             (cmd_started,
              wait_timed_out None 1 (KillAwaitsTask (racing 1)) [ProcessKill (- 4242) SIGTERM])"
    by (simp add: wait_timer_first [OF live_started]
          kill_in_wait [OF live_started started_process] accept_started started_promise
          propagate_pending_racing)
  have 2: "wait_step pf_ok
             (cmd_started,
              wait_timed_out None 1 (KillAwaitsTask (racing 1)) [ProcessKill (- 4242) SIGTERM])
             KillTimer =
             (cmd_started,
              wait_timed_out None 1 (KillAwaitsTask (escalated 1))
                [ProcessKill (- 4242) SIGTERM, ChildKill SIGKILL])"
  proof -
    have p: "pget (promises cmd_started) (promise cmd_started) = Pending"
      by (simp add: started_promise pget_def)
    have ktf: "kill_timer_fires cmd_started (KillAwaitsTask (racing (Suc 0)), cs)
                 = (KillAwaitsTask (escalated (Suc 0)), cs @ [ChildKill SIGKILL])" for cs
      using timer_racing [OF p, of pf_ok cs] by (simp add: kill_step_def started_promise)
    show ?thesis
      by (simp add: wait_step_def wait_timed_out_def ktf Let_def)
         (simp add: wait_propagate_def kill_promise_def escalated_def)
  qed
  have 3: "wait_step pf_ok
             (cmd_started,
              wait_timed_out None 1 (KillAwaitsTask (escalated 1))
                [ProcessKill (- 4242) SIGTERM, ChildKill SIGKILL])
             (ErrorEvent e) =
             (child_errors e cmd_started,
              \<lparr> w_task = (racing 1)\<lparr>t_timeoutOccured := True, t_timer := False,
                                      t_reactions := []\<rparr>,
                w_signal = None,
                w_kill = Some (KillAwaitsTask ((escalated 1)\<lparr>t_reactions := []\<rparr>)),
                w_then_ran = False,
                w_calls = [ProcessKill (- 4242) SIGTERM, ChildKill SIGKILL] \<rparr>)"
    by (simp add: wait_step_def cmd_event_def wait_timed_out_def started_errors
          run_reactions_def racing_def escalated_def pget_def react_def wait_propagate_def
          kill_settles_def kill_promise_def Let_def)
  have "wait_after pf_ok (cmd_started, wait_begin None cmd_started)
          [WaitTimer ans_accept, KillTimer, ErrorEvent e]
        = wait_step pf_ok
            (wait_step pf_ok
               (wait_step pf_ok (cmd_started, wait_begin None cmd_started)
                  (WaitTimer ans_accept))
               KillTimer)
            (ErrorEvent e)"
    by (simp add: wait_after_def)
  then show ?thesis
    by (simp only: 1 2 3)
qed

text \<open>
  C1. On the started handle \<open>cmd_started\<close>, \<^verbatim>\<open>wait(100)\<close> returns the promise of
  \<^verbatim>\<open>_waitTimeout\<close>. When the child emits \<^verbatim>\<open>'error'\<close>, the command's promise is rejected;
  \<^verbatim>\<open>_waitTimeout\<close> has registered no callback for that, and \<^verbatim>\<open>createTimeout\<close> clears
  the timer. So:
  \<^item> after an \<^verbatim>\<open>'error'\<close> before the timer has fired, the promise of \<^verbatim>\<open>wait(100)\<close> is
    pending whatever happens next, and no signal is ever sent;
  \<^item> after an \<^verbatim>\<open>'error'\<close> that follows the timer, the signal \<^verbatim>\<open>SIGTERM\<close> has been sent to
    the group and accepted, the call of \<^verbatim>\<open>kill\<close> never completes, and the promise of
    \<^verbatim>\<open>wait(100)\<close> is pending whatever happens next: it does not fail with the timeout
    error;
  \<^item> the same holds after an \<^verbatim>\<open>'error'\<close> that follows the timer of \<^verbatim>\<open>kill\<close> and its
    \<^verbatim>\<open>SIGKILL\<close>.
\<close>

theorem wait_timeout_error_pending:
  "wait (Some 100) None cmd_started = WaitTask (wait_begin None cmd_started) \<and>
   pget (promises (child_errors e cmd_started)) (promise cmd_started) = Rejected e \<and>
   t_outer (w_task (snd (wait_after pf_ok (cmd_started, wait_begin None cmd_started)
                           (ErrorEvent e # evs)))) = Pending \<and>
   w_calls (snd (wait_after pf_ok (cmd_started, wait_begin None cmd_started)
                  (ErrorEvent e # evs))) = [] \<and>
   t_outer (w_task (snd (wait_after pf_ok (cmd_started, wait_begin None cmd_started)
                           (WaitTimer ans_accept # ErrorEvent e # evs)))) = Pending \<and>
   w_calls (snd (wait_after pf_ok (cmd_started, wait_begin None cmd_started)
                  (WaitTimer ans_accept # ErrorEvent e # evs)))
     = [ProcessKill (- 4242) SIGTERM] \<and>
   t_outer (w_task (snd (wait_after pf_ok (cmd_started, wait_begin None cmd_started)
                           (WaitTimer ans_accept # KillTimer # ErrorEvent e # evs)))) = Pending \<and>
   w_calls (snd (wait_after pf_ok (cmd_started, wait_begin None cmd_started)
                  (WaitTimer ans_accept # KillTimer # ErrorEvent e # evs)))
     = [ProcessKill (- 4242) SIGTERM, ChildKill SIGKILL]"
proof -
  let ?w3 = "\<lparr> w_task = (racing 1)\<lparr>t_timeoutOccured := True, t_timer := False,
                                   t_reactions := []\<rparr>,
               w_signal = None,
               w_kill = Some (KillAwaitsTask ((escalated 1)\<lparr>t_reactions := []\<rparr>)),
               w_then_ran = False,
               w_calls = [ProcessKill (- 4242) SIGTERM, ChildKill SIGKILL] \<rparr>"
  have b3: "snd (wait_after pf_ok (cmd_started, wait_begin None cmd_started)
                  (WaitTimer ans_accept # KillTimer # ErrorEvent e # evs)) = ?w3"
  proof -
    have "snd (wait_after pf_ok (child_errors e cmd_started, ?w3) evs) = ?w3"
      by (rule wait_stuck_kill [where t = "(escalated 1)\<lparr>t_reactions := []\<rparr>"])
         (simp_all add: racing_def escalated_def)
    moreover have "wait_after pf_ok (cmd_started, wait_begin None cmd_started)
                     (WaitTimer ans_accept # KillTimer # ErrorEvent e # evs)
                   = wait_after pf_ok
                       (wait_after pf_ok (cmd_started, wait_begin None cmd_started)
                          [WaitTimer ans_accept, KillTimer, ErrorEvent e]) evs"
      by (simp add: wait_after_def)
    ultimately show ?thesis
      by (simp only: timer_kill_then_error)
  qed
  let ?w1 = "(wait_begin None cmd_started)
               \<lparr>w_task := (racing 1)\<lparr>t_timer := False, t_reactions := []\<rparr>\<rparr>"
  let ?w2 = "\<lparr> w_task = (racing 1)\<lparr>t_timeoutOccured := True, t_timer := False,
                                   t_reactions := []\<rparr>,
               w_signal = None,
               w_kill = Some (KillAwaitsTask ((racing 1)\<lparr>t_timer := False, t_reactions := []\<rparr>)),
               w_then_ran = False, w_calls = [ProcessKill (- 4242) SIGTERM] \<rparr>"
  have a: "snd (wait_after pf_ok (cmd_started, wait_begin None cmd_started) (ErrorEvent e # evs))
             = ?w1"
  proof -
    have "snd (wait_after pf_ok (child_errors e cmd_started, ?w1) evs) = ?w1"
      by (rule wait_stuck) (simp_all add: wait_begin_def)
    then show ?thesis
      by (simp add: wait_after_def error_first)
  qed
  have b: "snd (wait_after pf_ok (cmd_started, wait_begin None cmd_started)
                  (WaitTimer ans_accept # ErrorEvent e # evs)) = ?w2"
  proof -
    have "snd (wait_after pf_ok (child_errors e cmd_started, ?w2) evs) = ?w2"
      by (rule wait_stuck_kill [where t = "(racing 1)\<lparr>t_timer := False, t_reactions := []\<rparr>"])
         (simp_all add: racing_def)
    moreover have "wait_after pf_ok (cmd_started, wait_begin None cmd_started)
                     (WaitTimer ans_accept # ErrorEvent e # evs)
                   = wait_after pf_ok
                       (wait_after pf_ok (cmd_started, wait_begin None cmd_started)
                          [WaitTimer ans_accept, ErrorEvent e]) evs"
      by (simp add: wait_after_def)
    ultimately show ?thesis
      by (simp only: timer_then_error)
  qed
  have c: "wait (Some 100) None cmd_started = WaitTask (wait_begin None cmd_started)"
    by (rule wait_positive) simp
  have d: "pget (promises (child_errors e cmd_started)) (promise cmd_started) = Rejected e"
    by (simp add: started_errors started_promise pget_def)
  show ?thesis
    unfolding a b b3 using c d by (simp add: racing_def wait_begin_def)
qed

section \<open>Exit accounting (C4)\<close>

lemma recorded_cases:
  "(sg = Some s \<longrightarrow>
      recorded pf code sg = - signal_number pf s \<and>
      (os_signals pf s = None \<longrightarrow> recorded pf code sg = - 1) \<and>
      (os_signals pf s = Some k \<and> k \<noteq> 0 \<longrightarrow> recorded pf code sg = - k)) \<and>
   (sg = None \<longrightarrow>
      (code = CodeNum k \<longrightarrow> recorded pf code sg = k) \<and>
      (code = CodeUndefined \<longrightarrow> recorded pf code sg = 0))"
  by (auto simp: recorded_def signal_number_def code_or_zero_def)

lemma run_started:
  assumes "\<not> running c" and "cp_pid (spawned pf c) = Some n"
  shows "run pf timeout c = (Inr (wait timeout None (snd (start pf c))), snd (start pf c))"
proof -
  obtain ps where "fst (start pf c) = Inr ps"
    using start_success(1) [OF assms] by simp
  then show ?thesis
    by (cases "start pf c") (simp add: run_def)
qed

text \<open>
  C4, as amended. When the child of a running handle exits, \<^verbatim>\<open>_onexit\<close> records the
  negated number of the signal if the platform reports a signal name (\<open>-1\<close> for a name
  that is not in the table of signals), and otherwise the numeric code, 0 for an
  absent one. The command's promise is fulfilled with the recorded value, and so is
  what \<^verbatim>\<open>wait\<close> returns without and with a timeout; \<^verbatim>\<open>run\<close> is \<^verbatim>\<open>start\<close> followed by
  that \<^verbatim>\<open>wait\<close>; the callback of \<^verbatim>\<open>output\<close> receives the recorded value; and
  \<^verbatim>\<open>kill\<close>, when the platform accepted its signal, resolves with it, before and after
  its own timeout. A \<^verbatim>\<open>kill\<close> after the exit whose signal the platform does not
  deliver resolves with the child's own \<^verbatim>\<open>exitCode\<close> property, or 0 if that is \<^verbatim>\<open>null\<close>.
\<close>

theorem exit_accounting:
  "live c \<and> exit_wf code sg \<longrightarrow>
     exitCode (snd (child_exits pf code sg c)) = recorded pf code sg \<and>
     (sg = Some s \<longrightarrow>
        recorded pf code sg = - signal_number pf s \<and>
        (os_signals pf s = None \<longrightarrow> recorded pf code sg = - 1) \<and>
        (os_signals pf s = Some k \<and> k \<noteq> 0 \<longrightarrow> recorded pf code sg = - k)) \<and>
     (sg = None \<longrightarrow>
        (code = CodeNum k \<longrightarrow> recorded pf code sg = k) \<and>
        (code = CodeUndefined \<longrightarrow> recorded pf code sg = 0)) \<and>
     pget (promises (snd (child_exits pf code sg c))) (promise c) = Fulfilled (recorded pf code sg) \<and>
     wait_promise (snd (child_exits pf code sg c)) (wait None ts c)
       = Fulfilled (recorded pf code sg) \<and>
     (0 < t \<longrightarrow>
        wait (Some t) ts c = WaitTask (wait_begin ts c) \<and>
        t_outer (w_task (snd (wait_after pf (c, wait_begin ts c) [Exit code sg])))
          = Fulfilled (recorded pf code sg)) \<and>
     (\<not> running c0 \<and> cp_pid (spawned pf c0) = Some n \<and> c = snd (start pf c0) \<longrightarrow>
        run pf timeout c0 = (Inr (wait timeout None c), c)) \<and>
     output_promise dec oc outs errs
         (pget (promises (snd (child_exits pf code sg c))) (promise c))
       = (case output_then dec oc outs errs (recorded pf code sg) of
            Inl e \<Rightarrow> Rejected e | Inr v \<Rightarrow> Fulfilled v) \<and>
     (fst (signal ans (sig_arg ksg) (Some (mode_arg mode)) c) = Inr True \<longrightarrow>
        kill_result_of (kill_after pf (kill_call ans ksg ktimeout mode c) [Exit code sg])
          = Fulfilled (recorded pf code sg) \<and>
        (0 < timeout_arg ktimeout \<longrightarrow>
           kill_result_of (kill_after pf (kill_call ans ksg ktimeout mode c)
                             [KillTimer, Exit code sg])
             = Fulfilled (recorded pf code sg))) \<and>
     (fst (signal ans' (sig_arg ksg) (Some (mode_arg mode)) (snd (child_exits pf code sg c)))
        = Inr False \<longrightarrow>
        kill_result_of (kill_call ans' ksg ktimeout mode (snd (child_exits pf code sg c)))
          = Fulfilled (case platform_exitCode code of None \<Rightarrow> 0 | Some n \<Rightarrow> n))"
proof (intro impI)
  assume a: "live c \<and> exit_wf code sg"
  then have l: "live c" and wf: "exit_wf code sg"
    by simp_all
  let ?c = "snd (child_exits pf code sg c)"
  let ?r = "recorded pf code sg"
  obtain p where p: "process c = Some p"
    using live_process [OF l] ..
  note pend = live_pending [OF l]
  have f: "pget (promises ?c) (promise c) = Fulfilled ?r"
    by (rule pget_child_exits_live [OF l wf])
  have 1: "exitCode ?c = ?r"
    by (rule child_exits_live(2) [OF l wf])
  note 2 = recorded_cases [of sg s pf code k]
  have 3: "wait_promise ?c (wait None ts c) = Fulfilled ?r"
    by (simp add: wait_def wait_promise_def f)
  have 4: "0 < t \<longrightarrow>
        wait (Some t) ts c = WaitTask (wait_begin ts c) \<and>
        t_outer (w_task (snd (wait_after pf (c, wait_begin ts c) [Exit code sg]))) = Fulfilled ?r"
    by (simp add: wait_positive wait_exit_first [OF l wf] fulfilled_task_def
          del: wait_after_Cons)
  have 5: "\<not> running c0 \<and> cp_pid (spawned pf c0) = Some n \<and> c = snd (start pf c0) \<longrightarrow>
        run pf timeout c0 = (Inr (wait timeout None c), c)"
    by (auto simp: run_started)
  have 6: "output_promise dec oc outs errs (pget (promises ?c) (promise c))
       = (case output_then dec oc outs errs ?r of Inl e \<Rightarrow> Rejected e | Inr v \<Rightarrow> Fulfilled v)"
    by (simp add: f output_promise_def)
  have 7: "kill_result_of (kill_after pf (kill_call ans ksg ktimeout mode c) [Exit code sg])
          = Fulfilled ?r \<and>
        (0 < timeout_arg ktimeout \<longrightarrow>
           kill_result_of (kill_after pf (kill_call ans ksg ktimeout mode c)
                             [KillTimer, Exit code sg]) = Fulfilled ?r)"
    if s: "fst (signal ans (sig_arg ksg) (Some (mode_arg mode)) c) = Inr True"
  proof (cases "timeout_arg ktimeout \<le> 0")
    case True
    then have "kill_call ans ksg ktimeout mode c
                 = (c, KillAwaitsPromise (promise c),
                    snd (signal ans (sig_arg ksg) (Some (mode_arg mode)) c))"
      using s by (simp add: kill_call_unfold [OF p])
    then show ?thesis
      using True f
      by (simp add: kill_step_def cmd_event_def kill_settles_def kill_result_of_def
            kill_promise_def Let_def)
  next
    case False
    then have K: "kill_call ans ksg ktimeout mode c
                 = (c, KillAwaitsTask (racing (promise c)),
                    snd (signal ans (sig_arg ksg) (Some (mode_arg mode)) c))"
      using s by (simp add: kill_call_unfold [OF p] waitTimeout_live [OF l])
    show ?thesis
      by (simp add: K exit_racing [OF l wf] timer_racing [OF pend] exit_escalated [OF l wf]
            kill_result_of_def kill_promise_def fulfilled_task_def)
  qed
  have 8: "kill_result_of (kill_call ans' ksg ktimeout mode ?c)
          = Fulfilled (case platform_exitCode code of None \<Rightarrow> 0 | Some n \<Rightarrow> n)"
    if s: "fst (signal ans' (sig_arg ksg) (Some (mode_arg mode)) ?c) = Inr False"
  proof -
    have "process ?c = Some (p\<lparr>cp_exitCode := platform_exitCode code\<rparr>)"
      by (simp add: child_exits_live(6) [OF l wf] p)
    from kill_call_unfold [OF this, of ans' ksg ktimeout mode] s show ?thesis
      by (simp add: kill_result_of_def kill_promise_def last_known_def)
  qed
  show "exitCode ?c = ?r \<and>
     (sg = Some s \<longrightarrow>
        ?r = - signal_number pf s \<and>
        (os_signals pf s = None \<longrightarrow> ?r = - 1) \<and>
        (os_signals pf s = Some k \<and> k \<noteq> 0 \<longrightarrow> ?r = - k)) \<and>
     (sg = None \<longrightarrow>
        (code = CodeNum k \<longrightarrow> ?r = k) \<and>
        (code = CodeUndefined \<longrightarrow> ?r = 0)) \<and>
     pget (promises ?c) (promise c) = Fulfilled ?r \<and>
     wait_promise ?c (wait None ts c) = Fulfilled ?r \<and>
     (0 < t \<longrightarrow>
        wait (Some t) ts c = WaitTask (wait_begin ts c) \<and>
        t_outer (w_task (snd (wait_after pf (c, wait_begin ts c) [Exit code sg])))
          = Fulfilled ?r) \<and>
     (\<not> running c0 \<and> cp_pid (spawned pf c0) = Some n \<and> c = snd (start pf c0) \<longrightarrow>
        run pf timeout c0 = (Inr (wait timeout None c), c)) \<and>
     output_promise dec oc outs errs (pget (promises ?c) (promise c))
       = (case output_then dec oc outs errs ?r of
            Inl e \<Rightarrow> Rejected e | Inr v \<Rightarrow> Fulfilled v) \<and>
     (fst (signal ans (sig_arg ksg) (Some (mode_arg mode)) c) = Inr True \<longrightarrow>
        kill_result_of (kill_after pf (kill_call ans ksg ktimeout mode c) [Exit code sg])
          = Fulfilled ?r \<and>
        (0 < timeout_arg ktimeout \<longrightarrow>
           kill_result_of (kill_after pf (kill_call ans ksg ktimeout mode c)
                             [KillTimer, Exit code sg])
             = Fulfilled ?r)) \<and>
     (fst (signal ans' (sig_arg ksg) (Some (mode_arg mode)) ?c) = Inr False \<longrightarrow>
        kill_result_of (kill_call ans' ksg ktimeout mode ?c)
          = Fulfilled (case platform_exitCode code of None \<Rightarrow> 0 | Some n \<Rightarrow> n))"
    using 1 2 f 3 4 5 6 7 8 by blast
qed

lemma sigterm_wf: "exit_wf CodeNull (Some ''SIGTERM'')"
  by (simp add: exit_wf_def)

lemma sigterm_recorded: "recorded pf_ok CodeNull (Some ''SIGTERM'') = - 15"
  by (simp add: recorded_def signal_number_def pf_ok_def)

lemma killed_facts:
  "exitCode cmd_killed = - 15"
  "process cmd_killed = Some started_child"
  "pget (promises cmd_killed) (promise cmd_started) = Fulfilled (- 15)"
proof -
  show "exitCode cmd_killed = - 15"
    unfolding cmd_killed_def
    by (simp add: child_exits_live(2) [OF live_started sigterm_wf] sigterm_recorded)
  show "process cmd_killed = Some started_child"
    unfolding cmd_killed_def
    by (simp add: child_exits_live(6) [OF live_started sigterm_wf] started_process
          platform_exitCode_def started_child_def)
  show "pget (promises cmd_killed) (promise cmd_started) = Fulfilled (- 15)"
    unfolding cmd_killed_def
    by (simp add: pget_child_exits_live [OF live_started sigterm_wf] sigterm_recorded)
qed

theorem exit_accounting_witness:
  "live cmd_started \<and> exit_wf CodeNull (Some ''SIGTERM'') \<and>
   os_signals pf_ok ''SIGTERM'' = Some 15 \<and>
   exitCode cmd_killed = - 15 \<and>
   wait_promise cmd_killed (wait None None cmd_started) = Fulfilled (- 15) \<and>
   t_outer (w_task (snd (wait_after pf_ok (cmd_started, wait_begin None cmd_started)
                           [Exit CodeNull (Some ''SIGTERM'')]))) = Fulfilled (- 15) \<and>
   kill_result_of (kill_after pf_ok (kill_call ans_accept None None None cmd_started)
                     [KillTimer, Exit CodeNull (Some ''SIGTERM'')]) = Fulfilled (- 15) \<and>
   fst (signal ans_gone (sig_arg None) (Some (mode_arg None)) cmd_killed) = Inr False \<and>
   kill_result_of (kill_call ans_gone None None None cmd_killed) = Fulfilled 0"
proof -
  have g: "fst (signal ans_gone (sig_arg None) (Some (mode_arg None)) cmd_killed) = Inr False"
    by (simp add: signal_def checkproc_def killed_facts ans_gone_def mode_arg_def)
  have s: "os_signals pf_ok ''SIGTERM'' = Some 15"
    by (simp add: pf_ok_def)
  have a: "fst (signal ans_accept (sig_arg None) (Some (mode_arg None)) cmd_started) = Inr True"
    by (simp add: accept_started mode_arg_def)
  have t: "0 < timeout_arg None"
    by (simp add: timeout_arg_def)
  show ?thesis
    using exit_accounting [where c = cmd_started and code = CodeNull and sg = "Some ''SIGTERM''"
            and pf = pf_ok and s = "''SIGTERM''" and k = 15 and ts = None and t = 100
            and ans = ans_accept and ksg = None and mode = None and ktimeout = None
            and ans' = ans_gone]
          live_started sigterm_wf s a t g
    by (simp add: cmd_killed_def [symmetric] sigterm_recorded platform_exitCode_def)
qed

text \<open>
  C4 as stated fails for \<^verbatim>\<open>kill\<close>: after the process was ended by \<^verbatim>\<open>SIGTERM\<close> the
  recorded exit code is \<open>-15\<close>, and a call of \<^verbatim>\<open>kill\<close>, whose signal the platform no
  longer accepts, resolves with 0.
\<close>

theorem exit_accounting_counterexample:
  "exitCode cmd_killed = - 15 \<and>
   kill ans_gone None None None cmd_killed
     = (KillReturned 0, [ProcessKill (- 4242) SIGTERM, ChildKill SIGTERM]) \<and>
   kill_promise (promises cmd_killed) (KillReturned 0) = Fulfilled 0"
  by (simp add: killed_facts kill_def checkproc_def signal_def group_id_def started_child_def
        ans_gone_def kill_promise_def Let_def)

section \<open>The stdin entry of the pipes (C10)\<close>

lemma pump_stdin_none:
  "(\<exists>b. cfg = InBuffer b) \<or> np \<noteq> None \<Longrightarrow> cp_stdin (pump_stdin cfg np p) = None"
  by (auto simp: pump_stdin_def split: option.splits stdin_cfg.splits)

lemma pump_stdin_out [simp]:
  "cp_stdout (pump_stdin cfg np p) = cp_stdout p"
  "cp_stderr (pump_stdin cfg np p) = cp_stderr p"
  "cp_stdio (pump_stdin cfg np p) = cp_stdio p"
  by (simp_all add: pump_stdin_def split: option.splits stdin_cfg.splits)

lemma pumped_mode:
  "stdin c = InBuffer b \<or> (stdin c = InReader r \<and> \<not> r_fd_is_string r) \<Longrightarrow>
   fst (norm_stdin (stdin c)) = Pipe \<and>
   ((\<exists>b. stdin c = InBuffer b) \<or> snd (norm_stdin (stdin c)) \<noteq> None)"
  by (auto simp: norm_stdin_def)

text \<open>
  C10, as amended. With a buffer as stdin, or a reader whose stream fails the test
  for a descriptor, descriptor 0 is spawned as a pipe; after a successful \<^verbatim>\<open>start\<close>
  the child's \<^verbatim>\<open>stdin\<close> is \<^verbatim>\<open>null\<close> and the source is pumped into the pipe if the
  platform made one; pipes that \<^verbatim>\<open>start\<close> returns have no stdin entry; and \<^verbatim>\<open>start\<close>
  returns \<^verbatim>\<open>null\<close> if the child has no stdout and no stderr stream and fewer than four
  \<^verbatim>\<open>stdio\<close> entries. On a platform that gives \<^verbatim>\<open>stdio\<close> one entry for each entry of
  the option, fewer than four means that no extra descriptors are configured.
\<close>

theorem pumped_stdin_hidden:
  "(stdin c = InBuffer b \<or> (stdin c = InReader r \<and> \<not> r_fd_is_string r)) \<and>
   \<not> running c \<and> cp_pid (spawned pf c) = Some n \<longrightarrow>
     so_stdio (spawnOptions pf c) ! 0 = Pipe \<and>
     (\<exists>p. process (snd (start pf c)) = Some p \<and> cp_stdin p = None \<and>
          (cp_stdin (spawned pf c) \<noteq> None \<longrightarrow>
             cp_pump p = (if stdin c = InBuffer b then Some (PumpBuffer b)
                          else Some (PumpStream (r_stream r))))) \<and>
     (fst (start pf c) = Inr (Some ps) \<longrightarrow> pipe_stdin ps = None) \<and>
     (cp_stdout (spawned pf c) = None \<and> cp_stderr (spawned pf c) = None \<and>
      length (cp_stdio (spawned pf c)) < 4 \<longrightarrow> fst (start pf c) = Inr None) \<and>
     (length (cp_stdio (spawned pf c)) = length (so_stdio (spawnOptions pf c)) \<longrightarrow>
        (length (cp_stdio (spawned pf c)) < 4 \<longleftrightarrow> extraFiles c = []))"
proof (intro impI)
  assume a: "(stdin c = InBuffer b \<or> (stdin c = InReader r \<and> \<not> r_fd_is_string r)) \<and>
             \<not> running c \<and> cp_pid (spawned pf c) = Some n"
  then have m: "stdin c = InBuffer b \<or> (stdin c = InReader r \<and> \<not> r_fd_is_string r)"
    and nr: "\<not> running c" and sp: "cp_pid (spawned pf c) = Some n"
    by simp_all
  let ?p1 = "(spawned pf c)\<lparr>cp_on_exit := True, cp_on_error := Some (length (promises c))\<rparr>"
  let ?p2 = "pump_stdin (stdin c) (snd (norm_stdin (stdin c))) ?p1"
  note pm = pumped_mode [OF m]
  have none: "cp_stdin ?p2 = None"
    by (rule pump_stdin_none) (use pm in simp)
  have 1: "so_stdio (spawnOptions pf c) ! 0 = Pipe"
    using pm by (simp add: spawnOptions_def)
  have pr: "process (snd (start pf c)) = Some ?p2"
    by (simp add: start_success(2) [OF nr sp])
  have pump: "cp_pump ?p2 = (if stdin c = InBuffer b then Some (PumpBuffer b)
                             else Some (PumpStream (r_stream r)))"
    if "cp_stdin (spawned pf c) \<noteq> None"
    using m that by (auto simp: pump_stdin_def norm_stdin_def split: option.splits)
  have 2: "\<exists>p. process (snd (start pf c)) = Some p \<and> cp_stdin p = None \<and>
          (cp_stdin (spawned pf c) \<noteq> None \<longrightarrow>
             cp_pump p = (if stdin c = InBuffer b then Some (PumpBuffer b)
                          else Some (PumpStream (r_stream r))))"
    using pr none pump by blast
  have st: "fst (start pf c) = Inr (make_pipes ?p2)"
    by (rule start_success(1) [OF nr sp])
  have 3: "fst (start pf c) = Inr (Some ps) \<longrightarrow> pipe_stdin ps = None"
    using none by (auto simp: st make_pipes_def split: if_splits)
  have 4: "cp_stdout (spawned pf c) = None \<and> cp_stderr (spawned pf c) = None \<and>
      length (cp_stdio (spawned pf c)) < 4 \<longrightarrow> fst (start pf c) = Inr None"
    using none by (simp add: st make_pipes_def)
  have 5: "length (cp_stdio (spawned pf c)) = length (so_stdio (spawnOptions pf c)) \<longrightarrow>
        (length (cp_stdio (spawned pf c)) < 4 \<longleftrightarrow> extraFiles c = [])"
    by (auto simp: spawnOptions_def)
  show "so_stdio (spawnOptions pf c) ! 0 = Pipe \<and>
     (\<exists>p. process (snd (start pf c)) = Some p \<and> cp_stdin p = None \<and>
          (cp_stdin (spawned pf c) \<noteq> None \<longrightarrow>
             cp_pump p = (if stdin c = InBuffer b then Some (PumpBuffer b)
                          else Some (PumpStream (r_stream r))))) \<and>
     (fst (start pf c) = Inr (Some ps) \<longrightarrow> pipe_stdin ps = None) \<and>
     (cp_stdout (spawned pf c) = None \<and> cp_stderr (spawned pf c) = None \<and>
      length (cp_stdio (spawned pf c)) < 4 \<longrightarrow> fst (start pf c) = Inr None) \<and>
     (length (cp_stdio (spawned pf c)) = length (so_stdio (spawnOptions pf c)) \<longrightarrow>
        (length (cp_stdio (spawned pf c)) < 4 \<longleftrightarrow> extraFiles c = []))"
    using 1 2 3 4 5 by blast
qed

lemma tr_spawned:
  "spawned pf_ok cmd_tr =
     \<lparr> cp_pid = Some 4242, cp_exitCode = None,
       cp_stdin = Some \<lparr> ps_id = 0, has_read = False, has_write = True \<rparr>,
       cp_stdout = None, cp_stderr = None,
       cp_stdio = [Some \<lparr> ps_id = 0, has_read = False, has_write = True \<rparr>, None, None],
       cp_on_error = None, cp_on_exit = False, cp_pump = None \<rparr>"
  by (simp add: spawned_def spawn_call_def pf_ok_def node_child_def spawnOptions_def cmd_tr_def
        new_Cmd_def norm_stdin_def stdout_opt_def stderr_opt_def pipe_stream_def
        enumerate_eq_zip Let_def)

lemma tr_extra_spawned:
  "spawned pf_ok cmd_tr_extra =
     \<lparr> cp_pid = Some 4242, cp_exitCode = None,
       cp_stdin = Some \<lparr> ps_id = 0, has_read = False, has_write = True \<rparr>,
       cp_stdout = None, cp_stderr = None,
       cp_stdio = [Some \<lparr> ps_id = 0, has_read = False, has_write = True \<rparr>, None, None, None],
       cp_on_error = None, cp_on_exit = False, cp_pump = None \<rparr>"
  by (simp add: spawned_def spawn_call_def pf_ok_def node_child_def spawnOptions_def cmd_tr_def
        cmd_tr_extra_def new_Cmd_def norm_stdin_def stdout_opt_def stderr_opt_def
        extra_opt_def pipe_stream_def enumerate_eq_zip Let_def)

theorem pumped_stdin_hidden_witness:
  "stdin cmd_tr = InBuffer [72, 105] \<and> \<not> running cmd_tr \<and>
   cp_pid (spawned pf_ok cmd_tr) = Some 4242 \<and>
   cp_stdin (spawned pf_ok cmd_tr) \<noteq> None \<and>
   cp_stdout (spawned pf_ok cmd_tr) = None \<and> cp_stderr (spawned pf_ok cmd_tr) = None \<and>
   length (cp_stdio (spawned pf_ok cmd_tr)) < 4 \<and>
   so_stdio (spawnOptions pf_ok cmd_tr) ! 0 = Pipe \<and>
   fst (start pf_ok cmd_tr) = Inr None"
proof -
  have a: "stdin cmd_tr = InBuffer [72, 105]" "\<not> running cmd_tr"
    by (simp_all add: cmd_tr_def new_Cmd_def)
  show ?thesis
    using pumped_stdin_hidden [where c = cmd_tr and b = "[72, 105]" and pf = pf_ok and n = 4242]
      a
    by (simp add: tr_spawned)
qed

text \<open>
  C10 as stated fails in its last part: with one extra descriptor that is not a pipe,
  no descriptor other than 0 is piped, yet \<^verbatim>\<open>start\<close> returns pipes, all of them
  \<^verbatim>\<open>null\<close>.
\<close>

theorem pumped_stdin_hidden_counterexample:
  "stdin cmd_tr_extra = InBuffer [72, 105] \<and> stdout cmd_tr_extra = OutNull \<and>
   stderr cmd_tr_extra = OutNull \<and> extraFiles cmd_tr_extra = [ExtraNull] \<and>
   fst (start pf_ok cmd_tr_extra)
     = Inr (Some \<lparr> pipe_stdin = None, pipe_stdout = None, pipe_stderr = None,
                    pipe_extraFiles = [None] \<rparr>)"
proof -
  have a: "\<not> running cmd_tr_extra" "stdin cmd_tr_extra = InBuffer [72, 105]"
    by (simp_all add: cmd_tr_extra_def cmd_tr_def new_Cmd_def)
  have sp: "cp_pid (spawned pf_ok cmd_tr_extra) = Some 4242"
    by (simp add: tr_extra_spawned)
  show ?thesis
    by (simp add: start_success(1) [OF a(1) sp] tr_extra_spawned a(2) pump_stdin_def
          make_pipes_def extra_handle_def norm_stdin_def)
       (simp add: cmd_tr_extra_def cmd_tr_def new_Cmd_def)
qed

section \<open>Cmd.output (C5)\<close>

lemma foldl_db_write:
  "foldl db_write d chunks
     = \<lparr> db_data = db_data d @ chunks, db_offset = db_offset d + length (concat chunks) \<rparr>"
  by (induction chunks arbitrary: d) (simp_all add: db_write_def)

lemma collect_eq:
  "collect chunks = \<lparr> db_data = chunks, db_offset = length (concat chunks) \<rparr>"
  unfolding collect_def foldl_db_write by (simp add: createDataBuffer_def)

lemma db_buffer_collect: "db_buffer (collect chunks) = concat chunks"
proof (cases chunks)
  case Nil
  then show ?thesis
    by (simp add: collect_eq db_buffer_def buffersJoin_def)
next
  case (Cons a as)
  then show ?thesis
    by (cases as) (simp_all add: collect_eq db_buffer_def buffersJoin_def Buffer_concat_def)
qed

lemma db_buffer_stderr_sink:
  "db_buffer (stderr_sink oc chunks) = (if o_stderr oc = None then [] else concat chunks)"
  by (simp add: stderr_sink_def db_buffer_collect)
     (simp add: db_buffer_def buffersJoin_def createDataBuffer_def)

lemma output_config_fields:
  "stdout (output_config c) = OutPipe"
  "stderr (output_config c) = (if stderr c = OutNull then OutPipe else stderr c)"
  "running (output_config c) = running c"
  "stdin (output_config c) = stdin c"
  "extraFiles (output_config c) = extraFiles c"
  by (simp_all add: output_config_def Let_def)

text \<open>
  C5. \<^verbatim>\<open>output\<close> sets stdout to \<^verbatim>\<open>'pipe'\<close>, and stderr too if it is unset, so that
  descriptor 1, and then descriptor 2, is spawned as a pipe. If the handle is not
  running and the platform spawns the process and hands out its stdout, the process is
  started and \<^verbatim>\<open>output\<close> waits on it with the timeout given, or 0. The chunks of
  stdout are collected in their order, and those of stderr if there is a pipe for it.
  On completion with exit code \<open>code\<close>, decoding aside, the call fails if and only if
  \<open>code\<close> is not 0; the message of the failure is
  \<^verbatim>\<open>command exited with status\<close>, the code, and, if the text of the collected stderr is
  not empty, \<^verbatim>\<open>stderr output:\<close>, a newline and that text. With code 0 the call
  resolves with the collected bytes of stdout, or with their text if an encoding was
  given.
\<close>

theorem output_behaviour:
  "\<not> running c \<and> cp_pid (spawned pf (output_config c)) = Some n \<and>
   cp_stdout (spawned pf (output_config c)) = Some out \<and>
   dec ''utf8'' (db_buffer (stderr_sink oc errs)) = Inr e \<and>
   output_value dec (o_encoding oc) (concat outs) = Inr v \<longrightarrow>
     stdout (output_config c) = OutPipe \<and>
     stderr (output_config c) = (if stderr c = OutNull then OutPipe else stderr c) \<and>
     so_stdio (spawnOptions pf (output_config c)) ! 1 = Pipe \<and>
     (stderr c = OutNull \<longrightarrow> so_stdio (spawnOptions pf (output_config c)) ! 2 = Pipe) \<and>
     output_begin pf enc timeout c
       = (Inr \<lparr> o_wait = wait (Some (case timeout of None \<Rightarrow> 0 | Some t \<Rightarrow> t)) None
                            (snd (start pf (output_config c))),
                o_stdout = Reader (ps_id out),
                o_stderr = map_option (\<lambda>s. Reader (ps_id s))
                             (cp_stderr (spawned pf (output_config c))),
                o_encoding = enc \<rparr>,
          snd (start pf (output_config c))) \<and>
     live (snd (start pf (output_config c))) \<and>
     db_buffer (collect outs) = concat outs \<and>
     db_buffer (stderr_sink oc errs) = (if o_stderr oc = None then [] else concat errs) \<and>
     (is_rejected (output_promise dec oc outs errs (Fulfilled code)) \<longleftrightarrow> code \<noteq> 0) \<and>
     (code \<noteq> 0 \<longrightarrow>
        output_promise dec oc outs errs (Fulfilled code)
          = Rejected (newError (''command exited with status '' @ show_int code @
                                (if e = [] then [] else ''stderr output:'' @ [CHR 0x0A] @ e)))) \<and>
     (code = 0 \<longrightarrow> output_promise dec oc outs errs (Fulfilled code) = Fulfilled v) \<and>
     (o_encoding oc = None \<or> o_encoding oc = Some [] \<longrightarrow> v = OutBytes (concat outs)) \<and>
     (o_encoding oc = Some en \<and> en \<noteq> [] \<longrightarrow> dec en (concat outs) = Inr s \<longrightarrow> v = OutText s)"
proof (intro impI)
  assume a: "\<not> running c \<and> cp_pid (spawned pf (output_config c)) = Some n \<and>
   cp_stdout (spawned pf (output_config c)) = Some out \<and>
   dec ''utf8'' (db_buffer (stderr_sink oc errs)) = Inr e \<and>
   output_value dec (o_encoding oc) (concat outs) = Inr v"
  let ?c = "output_config c"
  have nr: "\<not> running ?c" and sp: "cp_pid (spawned pf ?c) = Some n"
    and so: "cp_stdout (spawned pf ?c) = Some out"
    and de: "dec ''utf8'' (db_buffer (stderr_sink oc errs)) = Inr e"
    and ds: "output_value dec (o_encoding oc) (concat outs) = Inr v"
    using a by (simp_all add: output_config_fields)
  note cf = output_config_fields(1,2) [of c]
  have 1: "so_stdio (spawnOptions pf ?c) ! 1 = Pipe"
    by (simp add: spawnOptions_def cf(1) stdout_opt_def)
  have 2: "stderr c = OutNull \<longrightarrow> so_stdio (spawnOptions pf ?c) ! 2 = Pipe"
    by (simp add: spawnOptions_def cf(2) stderr_opt_def)
  let ?p = "pump_stdin (stdin ?c) (snd (norm_stdin (stdin ?c)))
              ((spawned pf ?c)\<lparr>cp_on_exit := True, cp_on_error := Some (length (promises ?c))\<rparr>)"
  have st: "fst (start pf ?c) = Inr (make_pipes ?p)"
    by (rule start_success(1) [OF nr sp])
  have mp: "make_pipes ?p
              = Some \<lparr> pipe_stdin = map_option (\<lambda>s. Writer (ps_id s)) (cp_stdin ?p),
                       pipe_stdout = Some (Reader (ps_id out)),
                       pipe_stderr = map_option (\<lambda>s. Reader (ps_id s)) (cp_stderr (spawned pf ?c)),
                       pipe_extraFiles = map extra_handle (drop 3 (cp_stdio (spawned pf ?c))) \<rparr>"
    by (simp add: make_pipes_def so)
  have 3: "output_begin pf enc timeout c
       = (Inr \<lparr> o_wait = wait (Some (case timeout of None \<Rightarrow> 0 | Some t \<Rightarrow> t)) None
                            (snd (start pf ?c)),
                o_stdout = Reader (ps_id out),
                o_stderr = map_option (\<lambda>s. Reader (ps_id s)) (cp_stderr (spawned pf ?c)),
                o_encoding = enc \<rparr>,
          snd (start pf ?c))"
    using st mp by (cases "start pf ?c") (simp add: output_begin_def)
  have 4: "live (snd (start pf ?c))"
    by (rule start_live [OF nr sp])
  note 5 = db_buffer_collect [of outs]
  note 6 = db_buffer_stderr_sink [of oc errs]
  have 7: "code \<noteq> 0 \<longrightarrow>
        output_promise dec oc outs errs (Fulfilled code)
          = Rejected (newError (''command exited with status '' @ show_int code @
                                (if e = [] then [] else ''stderr output:'' @ [CHR 0x0A] @ e)))"
    by (simp add: output_promise_def output_then_def de Let_def)
  have 8: "code = 0 \<longrightarrow> output_promise dec oc outs errs (Fulfilled code) = Fulfilled v"
    by (simp add: output_promise_def output_then_def db_buffer_collect ds Let_def)
  have 9: "(o_encoding oc = None \<or> o_encoding oc = Some [] \<longrightarrow> v = OutBytes (concat outs)) \<and>
     (o_encoding oc = Some en \<and> en \<noteq> [] \<longrightarrow> dec en (concat outs) = Inr s \<longrightarrow> v = OutText s)"
    using ds by (auto simp: output_value_def)
  show "stdout ?c = OutPipe \<and>
     stderr ?c = (if stderr c = OutNull then OutPipe else stderr c) \<and>
     so_stdio (spawnOptions pf ?c) ! 1 = Pipe \<and>
     (stderr c = OutNull \<longrightarrow> so_stdio (spawnOptions pf ?c) ! 2 = Pipe) \<and>
     output_begin pf enc timeout c
       = (Inr \<lparr> o_wait = wait (Some (case timeout of None \<Rightarrow> 0 | Some t \<Rightarrow> t)) None
                            (snd (start pf ?c)),
                o_stdout = Reader (ps_id out),
                o_stderr = map_option (\<lambda>s. Reader (ps_id s)) (cp_stderr (spawned pf ?c)),
                o_encoding = enc \<rparr>,
          snd (start pf ?c)) \<and>
     live (snd (start pf ?c)) \<and>
     db_buffer (collect outs) = concat outs \<and>
     db_buffer (stderr_sink oc errs) = (if o_stderr oc = None then [] else concat errs) \<and>
     (is_rejected (output_promise dec oc outs errs (Fulfilled code)) \<longleftrightarrow> code \<noteq> 0) \<and>
     (code \<noteq> 0 \<longrightarrow>
        output_promise dec oc outs errs (Fulfilled code)
          = Rejected (newError (''command exited with status '' @ show_int code @
                                (if e = [] then [] else ''stderr output:'' @ [CHR 0x0A] @ e)))) \<and>
     (code = 0 \<longrightarrow> output_promise dec oc outs errs (Fulfilled code) = Fulfilled v) \<and>
     (o_encoding oc = None \<or> o_encoding oc = Some [] \<longrightarrow> v = OutBytes (concat outs)) \<and>
     (o_encoding oc = Some en \<and> en \<noteq> [] \<longrightarrow> dec en (concat outs) = Inr s \<longrightarrow> v = OutText s)"
    using cf 1 2 3 4 5 6 7 8 9 by (cases "code = 0") (simp_all add: is_rejected_def)
qed

lemma decode_fail: "byte_decoder ''utf8'' [102, 97, 105, 108] = Inr ''fail''"
  by code_simp

lemma decode_hi: "byte_decoder ''utf8'' [104, 105] = Inr ''hi''"
  by code_simp

lemma show_int_1: "show_int 1 = ''1''"
  by code_simp

lemma sleep_output_spawned:
  "spawned pf_ok (output_config cmd_sleep) =
     \<lparr> cp_pid = Some 4242, cp_exitCode = None, cp_stdin = None,
       cp_stdout = Some \<lparr> ps_id = 1, has_read = True, has_write = False \<rparr>,
       cp_stderr = Some \<lparr> ps_id = 2, has_read = True, has_write = False \<rparr>,
       cp_stdio = [None, Some \<lparr> ps_id = 1, has_read = True, has_write = False \<rparr>,
                   Some \<lparr> ps_id = 2, has_read = True, has_write = False \<rparr>],
       cp_on_error = None, cp_on_exit = False, cp_pump = None \<rparr>"
  by (simp add: spawned_def spawn_call_def pf_ok_def node_child_def spawnOptions_def cmd_sleep_def
        output_config_def new_Cmd_def norm_stdin_def stdout_opt_def stderr_opt_def
        pipe_stream_def enumerate_eq_zip Let_def)



theorem output_behaviour_witness:
  "\<not> running cmd_sleep \<and> cp_pid (spawned pf_ok (output_config cmd_sleep)) = Some 4242 \<and>
   cp_stdout (spawned pf_ok (output_config cmd_sleep))
     = Some \<lparr> ps_id = 1, has_read = True, has_write = False \<rparr> \<and>
   byte_decoder ''utf8'' (db_buffer (stderr_sink oc_sleep [[102, 97], [105, 108]])) = Inr ''fail'' \<and>
   output_value byte_decoder (o_encoding oc_sleep) (concat [[104, 105]]) = Inr (OutText ''hi'') \<and>
   fst (output_begin pf_ok (Some ''utf8'') None cmd_sleep) = Inr oc_sleep \<and>
   output_promise byte_decoder oc_sleep [[104, 105]] [[102, 97], [105, 108]] (Fulfilled 1)
     = Rejected (newError (''command exited with status 1stderr output:'' @ [CHR 0x0A] @ ''fail'')) \<and>
   output_promise byte_decoder oc_sleep [[104, 105]] [[102, 97], [105, 108]] (Fulfilled 0)
     = Fulfilled (OutText ''hi'')"
proof -
  have e: "db_buffer (stderr_sink oc_sleep [[102, 97], [105, 108]]) = [102, 97, 105, 108]"
    by (simp add: db_buffer_stderr_sink oc_sleep_def)
  have d: "byte_decoder ''utf8'' (db_buffer (stderr_sink oc_sleep [[102, 97], [105, 108]]))
             = Inr ''fail''"
    by (simp only: e decode_fail)
  have v: "output_value byte_decoder (o_encoding oc_sleep) (concat [[104, 105]]) = Inr (OutText ''hi'')"
    by (simp add: output_value_def oc_sleep_def decode_hi)
  have prem: "\<not> running cmd_sleep \<and> cp_pid (spawned pf_ok (output_config cmd_sleep)) = Some 4242 \<and>
     cp_stdout (spawned pf_ok (output_config cmd_sleep))
       = Some \<lparr> ps_id = 1, has_read = True, has_write = False \<rparr> \<and>
     byte_decoder ''utf8'' (db_buffer (stderr_sink oc_sleep [[102, 97], [105, 108]])) = Inr ''fail'' \<and>
     output_value byte_decoder (o_encoding oc_sleep) (concat [[104, 105]]) = Inr (OutText ''hi'')"
    using sleep_not_running d v by (simp add: sleep_output_spawned)
  note t1 = mp [OF output_behaviour [where c = cmd_sleep and pf = pf_ok and n = 4242
      and out = "\<lparr> ps_id = 1, has_read = True, has_write = False \<rparr>"
      and dec = byte_decoder and oc = oc_sleep and errs = "[[102, 97], [105, 108]]"
      and e = "''fail''" and outs = "[[104, 105]]" and v = "OutText ''hi''"
      and enc = "Some ''utf8''" and timeout = None and code = 1] prem]
  note t0 = mp [OF output_behaviour [where c = cmd_sleep and pf = pf_ok and n = 4242
      and out = "\<lparr> ps_id = 1, has_read = True, has_write = False \<rparr>"
      and dec = byte_decoder and oc = oc_sleep and errs = "[[102, 97], [105, 108]]"
      and e = "''fail''" and outs = "[[104, 105]]" and v = "OutText ''hi''"
      and enc = "Some ''utf8''" and timeout = None and code = 0] prem]
  have b: "fst (output_begin pf_ok (Some ''utf8'') None cmd_sleep) = Inr oc_sleep"
    using t1 by (simp add: oc_sleep_def sleep_output_spawned)
  have r1: "output_promise byte_decoder oc_sleep [[104, 105]] [[102, 97], [105, 108]] (Fulfilled 1)
     = Rejected (newError (''command exited with status 1stderr output:'' @ [CHR 0x0A] @ ''fail''))"
    using t1 by (simp add: show_int_1)
  have r0: "output_promise byte_decoder oc_sleep [[104, 105]] [[102, 97], [105, 108]] (Fulfilled 0)
     = Fulfilled (OutText ''hi'')"
    using t0 by simp
  show ?thesis
    using prem b r1 r0 by simp
qed

section \<open>Facts about StreamReader\<close>

lemma stream_read_big: "MAX_HWM < k \<Longrightarrow> stream_read (Some k) r = Inl (out_of_range k)"
  by (simp add: stream_read_def)

lemma stream_read_small:
  "k \<le> MAX_HWM \<Longrightarrow>
   stream_read (Some k) r =
     Inr (if destroyed r \<or> k = 0 then None
          else if k \<le> length (buf r) then Some (take k (buf r), r\<lparr>buf := drop k (buf r)\<rparr>)
          else if src_ended r \<and> buf r \<noteq> [] then Some (buf r, r\<lparr>buf := []\<rparr>)
          else None)"
  by (simp add: stream_read_def)

lemma stream_read_all:
  "stream_read None r
     = Inr (if destroyed r \<or> buf r = [] then None else Some (buf r, r\<lparr>buf := []\<rparr>))"
  by (simp add: stream_read_def)

lemma stream_read_Some_length:
  "stream_read (Some k) r = Inr (Some (b, r')) \<Longrightarrow> length b \<le> k"
  by (auto simp: stream_read_def split: if_splits)

lemma loop_body_big:
  "MAX_HWM < sz - length acc \<Longrightarrow> loop_body sz acc r = Inl (out_of_range (sz - length acc))"
  by (simp add: loop_body_def stream_read_big)

lemma loop_body_destroyed:
  "destroyed r \<Longrightarrow> sz - length acc \<le> MAX_HWM \<Longrightarrow> loop_body sz acc r = Inr (acc, r)"
  by (simp add: loop_body_def stream_read_small stream_read_all)

lemma loop_body_length:
  assumes "length acc < sz" and "loop_body sz acc r = Inr (acc', r')"
  shows "length acc' \<le> sz"
proof (cases "MAX_HWM < sz - length acc")
  case True
  then show ?thesis
    using assms(2) by (simp add: loop_body_big)
next
  case False
  then have k: "sz - length acc \<le> MAX_HWM"
    by simp
  show ?thesis
    using assms
    by (auto simp: loop_body_def stream_read_small [OF k] stream_read_all split: if_splits)
qed

declare awaiting.simps [simp del]

lemma awaiting_end:
  "end_pending r \<Longrightarrow>
   awaiting sz acc r evs =
     (case loop_body sz acc (on_end r) of
        Inl e \<Rightarrow> Some (Rejects e)
      | Inr (acc', r') \<Rightarrow> Some (Returns acc' r' evs))"
  by (simp add: awaiting.simps [of sz acc r evs] end_pending_def)

lemma awaiting_end_small:
  "end_pending r \<Longrightarrow> sz - length acc \<le> MAX_HWM \<Longrightarrow>
   awaiting sz acc r evs = Some (Returns acc (on_end r) evs)"
  by (simp add: awaiting_end loop_body_destroyed on_end_def)

lemma awaiting_Nil: "\<not> end_pending r \<Longrightarrow> awaiting sz acc r [] = None"
  by (auto simp: awaiting.simps [of sz acc r "[]"] end_pending_def)

lemma awaiting_Close:
  "\<not> end_pending r \<Longrightarrow> awaiting sz acc r (CloseCalled # rest) = awaiting sz acc (close r) rest"
  by (subst awaiting.simps) (auto simp: end_pending_def)

lemma awaiting_ignore:
  "\<not> end_pending r \<Longrightarrow> destroyed r \<or> src_ended r \<Longrightarrow> ev \<noteq> CloseCalled \<Longrightarrow>
   awaiting sz acc r (ev # rest) = awaiting sz acc r rest"
  by (subst awaiting.simps, cases ev) (auto simp: end_pending_def)

lemma awaiting_Chunk:
  "\<not> destroyed r \<Longrightarrow> \<not> src_ended r \<Longrightarrow>
   awaiting sz acc r (Chunk c # rest) =
     (case loop_body sz acc (r\<lparr>buf := buf r @ c\<rparr>) of
        Inl e \<Rightarrow> Some (Rejects e)
      | Inr (acc', r2) \<Rightarrow>
          if length acc' < sz \<and> \<not> ended r2 then awaiting sz acc' r2 rest
          else Some (Returns acc' r2 rest))"
  by (simp add: awaiting.simps [of sz acc r "Chunk c # rest"])

lemma awaiting_Eof:
  "\<not> destroyed r \<Longrightarrow> \<not> src_ended r \<Longrightarrow>
   awaiting sz acc r (Eof # rest) =
     (case loop_body sz acc (r\<lparr>src_ended := True\<rparr>) of
        Inl e \<Rightarrow> Some (Rejects e)
      | Inr (acc', r2) \<Rightarrow>
          if length acc' < sz \<and> \<not> ended r2 then awaiting sz acc' r2 rest
          else Some (Returns acc' r2 rest))"
  by (simp add: awaiting.simps [of sz acc r "Eof # rest"])

lemma awaiting_length:
  "length acc < sz \<Longrightarrow> awaiting sz acc r evs = Some (Returns b r' evs') \<Longrightarrow> length b \<le> sz"
proof (induction evs arbitrary: acc r)
  case Nil
  then show ?case
    by (cases "end_pending r")
       (auto simp: awaiting_end awaiting_Nil split: sum.splits prod.splits
             dest: loop_body_length)
next
  case (Cons ev rest)
  show ?case
  proof (cases "end_pending r")
    case True
    then show ?thesis
      using Cons.prems
      by (auto simp: awaiting_end split: sum.splits prod.splits dest: loop_body_length)
  next
    case np: False
    show ?thesis
    proof (cases "ev = CloseCalled")
      case True
      then show ?thesis
        using Cons.prems Cons.IH [of acc "close r"] np by (simp add: awaiting_Close)
    next
      case nc: False
      show ?thesis
      proof (cases "destroyed r \<or> src_ended r")
        case True
        then show ?thesis
          using Cons.prems Cons.IH [of acc r] np nc by (simp add: awaiting_ignore)
      next
        case False
        define r1 where "r1 = (case ev of Chunk c \<Rightarrow> r\<lparr>buf := buf r @ c\<rparr> | _ \<Rightarrow> r\<lparr>src_ended := True\<rparr>)"
        have eq: "awaiting sz acc r (ev # rest) =
                 (case loop_body sz acc r1 of
                    Inl e \<Rightarrow> Some (Rejects e)
                  | Inr (acc', r2) \<Rightarrow>
                      if length acc' < sz \<and> \<not> ended r2 then awaiting sz acc' r2 rest
                      else Some (Returns acc' r2 rest))"
          using False nc by (cases ev) (simp_all add: awaiting_Chunk awaiting_Eof r1_def)
        show ?thesis
        proof (cases "loop_body sz acc r1")
          case (Inl e)
          then show ?thesis
            using Cons.prems(2) eq by simp
        next
          case (Inr x)
          obtain acc' r2 where x: "x = (acc', r2)" by (cases x)
          note l = loop_body_length [OF Cons.prems(1) Inr [unfolded x]]
          show ?thesis
          proof (cases "length acc' < sz \<and> \<not> ended r2")
            case True
            then show ?thesis
              using Cons.prems(2) Cons.IH [of acc' r2] eq Inr x by simp
          next
            case False
            then show ?thesis
              using Cons.prems(2) eq l Inr x by auto
          qed
        qed
      qed
    qed
  qed
qed

lemma first_read_length:
  "first_read k r = Inr (Some (b, r')) \<Longrightarrow> length b \<le> k"
  by (auto simp: first_read_def split: if_splits dest: stream_read_Some_length)

lemma read_bytes_length:
  assumes "read_bytes sizeArg r evs = Some (Returns b r' evs')"
  shows "length b \<le> read_size sizeArg"
proof -
  let ?sz = "read_size sizeArg"
  show ?thesis
  proof (cases "first_read ?sz r")
    case (Inl e)
    then show ?thesis
      using assms by (cases "ended r") (simp_all add: read_bytes_def Let_def)
  next
    case (Inr x)
    show ?thesis
    proof (cases "ended r")
      case True
      then show ?thesis
        using assms Inr
        by (auto simp: read_bytes_def Let_def split: option.splits dest: first_read_length)
    next
      case False
      define y where "y = (case x of Some (b, r') \<Rightarrow> (b, r') | None \<Rightarrow> ([], r))"
      have l: "length (fst y) \<le> ?sz"
        using Inr by (auto simp: y_def split: option.splits dest: first_read_length)
      have eq: "read_bytes sizeArg r evs =
                  (if length (fst y) < ?sz \<and> \<not> ended (snd y)
                   then awaiting ?sz (fst y) (snd y) evs
                   else Some (Returns (fst y) (snd y) evs))"
        using False Inr by (simp add: read_bytes_def Let_def y_def split: prod.splits)
      show ?thesis
      proof (cases "length (fst y) < ?sz \<and> \<not> ended (snd y)")
        case True
        then show ?thesis
          using assms eq awaiting_length [of "fst y" ?sz "snd y" evs b r' evs'] by simp
      next
        case False
        then show ?thesis
          using assms eq l by auto
      qed
    qed
  qed
qed

text \<open>A size above 1 GiB on a stream that is readable: the first attempt throws.\<close>

lemma read_bytes_out_of_range:
  "stream_readable r \<Longrightarrow> MAX_HWM < read_size sizeArg \<Longrightarrow>
   read_bytes sizeArg r evs = Some (Rejects (out_of_range (read_size sizeArg)))"
  by (simp add: read_bytes_def first_read_def stream_read_big Let_def)

lemma safe_integer_big: "MAX_HWM < MAX_SAFE_INTEGER"
  by (simp add: MAX_HWM_def MAX_SAFE_INTEGER_def)

declare spec_read.simps [simp del]

lemma close_destroyed: "destroyed r \<Longrightarrow> close r = r"
  by (simp add: close_def)

lemma awaiting_destroyed: "destroyed r \<Longrightarrow> awaiting sz acc r evs = None"
proof (induction evs)
  case Nil
  then show ?case by (simp add: awaiting_Nil end_pending_def)
next
  case (Cons ev evs)
  have np: "\<not> end_pending r"
    using Cons.prems by (simp add: end_pending_def)
  show ?case
  proof (cases "ev = CloseCalled")
    case True
    then show ?thesis
      using Cons np by (simp add: awaiting_Close close_destroyed)
  next
    case False
    then show ?thesis
      using Cons np by (simp add: awaiting_ignore)
  qed
qed

lemma spec_read_enough:
  "n \<le> length B \<Longrightarrow> spec_read n B evs = Some (take n B, drop n B, False, evs)"
  by (subst spec_read.simps) simp

lemma spec_read_Nil: "length B < n \<Longrightarrow> spec_read n B [] = None"
  by (subst spec_read.simps) simp

lemma spec_read_Chunk:
  "length B < n \<Longrightarrow> spec_read n B (Chunk c # rest) = spec_read n (B @ c) rest"
  by (subst spec_read.simps) simp

lemma spec_read_Eof: "length B < n \<Longrightarrow> spec_read n B (Eof # rest) = Some (B, [], True, rest)"
  by (subst spec_read.simps) simp

lemma spec_read_Close: "length B < n \<Longrightarrow> spec_read n B (CloseCalled # rest) = None"
  by (subst spec_read.simps) simp

lemma loop_body_chunk_enough:
  assumes "open_reader r" "length acc < sz" "sz \<le> length (acc @ buf r @ c)" "sz \<le> MAX_HWM"
  shows "loop_body sz acc (r\<lparr>buf := buf r @ c\<rparr>)
           = Inr (take sz (acc @ buf r @ c), r\<lparr>buf := drop sz (acc @ buf r @ c)\<rparr>)"
proof -
  have k: "0 < sz - length acc" "sz - length acc \<le> length (buf r @ c)"
    "sz - length acc \<le> MAX_HWM"
    using assms(2,3,4) by simp_all
  have "stream_read (Some (sz - length acc)) (r\<lparr>buf := buf r @ c\<rparr>)
          = Inr (Some (take (sz - length acc) (buf r @ c),
                       r\<lparr>buf := drop (sz - length acc) (buf r @ c)\<rparr>))"
    using assms(1) k(1,2) by (simp add: stream_read_small [OF k(3)] open_reader_def)
  then show ?thesis
    using assms(2) by (simp add: loop_body_def)
qed

lemma loop_body_chunk_short:
  assumes "open_reader r" "length (acc @ buf r @ c) < sz" "sz \<le> MAX_HWM"
  shows "loop_body sz acc (r\<lparr>buf := buf r @ c\<rparr>) = Inr (acc @ buf r @ c, r\<lparr>buf := []\<rparr>)"
proof -
  have k: "sz - length acc \<le> MAX_HWM"
    using assms(3) by simp
  show ?thesis
    using assms(1,2)
    by (auto simp: loop_body_def stream_read_small [OF k] stream_read_all open_reader_def)
qed

lemma loop_body_eof:
  assumes "open_reader r" "length (acc @ buf r) < sz" "sz \<le> MAX_HWM"
  shows "loop_body sz acc (r\<lparr>src_ended := True\<rparr>)
           = Inr (acc @ buf r, r\<lparr>src_ended := True, buf := []\<rparr>)"
proof -
  have k: "sz - length acc \<le> MAX_HWM"
    using assms(3) by simp
  show ?thesis
    using assms(1,2)
    by (auto simp: loop_body_def stream_read_small [OF k] stream_read_all open_reader_def)
qed

lemma awaiting_spec:
  "open_reader r \<Longrightarrow> length (acc @ buf r) < sz \<Longrightarrow> sz \<le> MAX_HWM \<Longrightarrow>
   awaiting sz acc r evs = map_option (after_read r) (spec_read sz (acc @ buf r) evs)"
proof (induction evs arbitrary: acc r)
  case Nil
  then show ?case
    by (simp add: awaiting_Nil end_pending_def open_reader_def spec_read_Nil)
next
  case (Cons ev rest)
  have np: "\<not> end_pending r" and nd: "\<not> destroyed r" and ns: "\<not> src_ended r"
    and ne: "\<not> ended r"
    using Cons.prems(1) by (simp_all add: end_pending_def open_reader_def)
  have la: "length acc < sz"
    using Cons.prems(2) by simp
  note small = Cons.prems(3)
  show ?case
  proof (cases ev)
    case CloseCalled
    have "destroyed (close r)"
      using ne nd by (simp add: close_def)
    then show ?thesis
      using CloseCalled np Cons.prems(2)
      by (simp add: awaiting_Close awaiting_destroyed spec_read_Close)
  next
    case Eof
    let ?r2 = "r\<lparr>src_ended := True, buf := []\<rparr>"
    have "end_pending ?r2"
      using Cons.prems(1) by (simp add: end_pending_def open_reader_def)
    moreover have "sz - length (acc @ buf r) \<le> MAX_HWM"
      using small by simp
    ultimately have "awaiting sz (acc @ buf r) ?r2 rest
                       = Some (Returns (acc @ buf r) (on_end ?r2) rest)"
      by (rule awaiting_end_small)
    moreover have "\<not> ended ?r2"
      using ne by simp
    ultimately show ?thesis
      using Eof nd ns Cons.prems(2)
      by (simp add: awaiting_Eof loop_body_eof [OF Cons.prems] spec_read_Eof after_read_def
            on_end_def)
  next
    case (Chunk c)
    show ?thesis
    proof (cases "sz \<le> length (acc @ buf r @ c)")
      case True
      then show ?thesis
        using Chunk nd ns Cons.prems(2)
        by (simp add: awaiting_Chunk loop_body_chunk_enough [OF Cons.prems(1) la True small]
              spec_read_Chunk spec_read_enough after_read_def)
    next
      case False
      then have short: "length (acc @ buf r @ c) < sz"
        by simp
      let ?r2 = "r\<lparr>buf := []\<rparr>"
      have o2: "open_reader ?r2"
        using Cons.prems(1) by (simp add: open_reader_def)
      have l2: "length ((acc @ buf r @ c) @ buf ?r2) < sz"
        using short by simp
      have ar: "after_read ?r2 = after_read r"
        by (rule ext) (simp add: after_read_def on_end_def split: prod.splits)
      have "awaiting sz (acc @ buf r @ c) ?r2 rest
              = map_option (after_read r) (spec_read sz (acc @ buf r @ c) rest)"
        using Cons.IH [OF o2 l2 small] by (simp add: ar)
      then show ?thesis
        using Chunk nd ns ne Cons.prems(2) short
        by (simp add: awaiting_Chunk loop_body_chunk_short [OF Cons.prems(1) short small]
              spec_read_Chunk)
    qed
  qed
qed

lemma read_bytes_spec:
  assumes "open_reader r" and "read_size sizeArg \<le> MAX_HWM"
  shows "read_bytes sizeArg r evs
           = map_option (after_read r) (spec_read (read_size sizeArg) (buf r) evs)"
proof -
  let ?sz = "read_size sizeArg"
  have o: "\<not> ended r" "stream_readable r" "\<not> src_ended r" "\<not> destroyed r"
    using assms(1) by (simp_all add: open_reader_def stream_readable_def)
  note sr = stream_read_small [OF assms(2), of r]
  show ?thesis
  proof (cases "?sz \<le> length (buf r)")
    case True
    show ?thesis
    proof (cases "?sz = 0")
      case z: True
      then show ?thesis
        using o
        by (simp add: read_bytes_def first_read_def stream_read_small spec_read_enough
              after_read_def)
    next
      case False
      then show ?thesis
        using o True
        by (simp add: read_bytes_def first_read_def sr spec_read_enough after_read_def Let_def)
    qed
  next
    case False
    then have short: "length ([] @ buf r) < ?sz"
      by simp
    have "read_bytes sizeArg r evs = awaiting ?sz [] r evs"
      using o False by (simp add: read_bytes_def first_read_def sr Let_def)
    then show ?thesis
      using awaiting_spec [OF assms(1) short assms(2), of evs] by simp
  qed
qed

lemma spec_read_all:
  "length (B @ concat cs) < n \<Longrightarrow>
   spec_read n B (map Chunk cs @ Eof # rest) = Some (B @ concat cs, [], True, rest)"
proof (induction cs arbitrary: B)
  case Nil
  then show ?case by (simp add: spec_read_Eof)
next
  case (Cons c cs)
  have "length B < n" using Cons.prems by simp
  then show ?case
    using Cons.IH [of "B @ c"] Cons.prems by (simp add: spec_read_Chunk)
qed

lemma spec_read_result:
  "spec_read n B evs = Some (b, left, fin, rest) \<Longrightarrow>
   (\<not> fin \<and> length b = n \<and> (\<exists>A. b @ left = B @ A)) \<or> (fin \<and> left = [] \<and> length b < n)"
proof (induction evs arbitrary: B)
  case Nil
  then show ?case
    by (cases "n \<le> length B") (auto simp: spec_read_enough spec_read_Nil)
next
  case (Cons ev evs)
  show ?case
  proof (cases "n \<le> length B")
    case True
    then show ?thesis
      using Cons.prems by (auto simp: spec_read_enough)
  next
    case False
    then have s: "length B < n" by simp
    show ?thesis
    proof (cases ev)
      case (Chunk c)
      then have "spec_read n (B @ c) evs = Some (b, left, fin, rest)"
        using Cons.prems s by (simp add: spec_read_Chunk)
      from Cons.IH [OF this] show ?thesis
        by auto
    next
      case Eof
      then show ?thesis
        using Cons.prems s by (auto simp: spec_read_Eof)
    next
      case CloseCalled
      then show ?thesis
        using Cons.prems s by (simp add: spec_read_Close)
    qed
  qed
qed

section \<open>Size-bounded reads (C2)\<close>

text \<open>
  A call of \<^verbatim>\<open>read\<close> never returns more bytes than its size, which is the argument if
  that is a number not below 0. On a reader whose stream is open, with a size of at
  most 1 GiB, \<^verbatim>\<open>read\<close> does what \<open>spec_read\<close> says: it returns as soon as that many
  bytes are available, and then exactly that many, without waiting if they are buffered
  already, the others staying in the buffer for the next call; or as soon as the
  source ends, and then all the bytes up to the end, the reader being ended.
\<close>

lemma read_sized:
  "(read_bytes sizeArg r evs = Some (Returns b r' evs') \<longrightarrow> length b \<le> read_size sizeArg) \<and>
   (0 \<le> n \<longrightarrow> read_size (Some n) = nat n) \<and>
   (open_reader r \<and> read_size sizeArg \<le> MAX_HWM \<longrightarrow>
      read_bytes sizeArg r evs
        = map_option (after_read r) (spec_read (read_size sizeArg) (buf r) evs) \<and>
      (read_size sizeArg \<le> length (buf r) \<longrightarrow>
         read_bytes sizeArg r evs
           = Some (Returns (take (read_size sizeArg) (buf r))
                     (r\<lparr>buf := drop (read_size sizeArg) (buf r)\<rparr>) evs)) \<and>
      (read_bytes sizeArg r evs = Some (Returns b r' evs') \<longrightarrow>
         (length b = read_size sizeArg \<and> \<not> ended r') \<or>
         (length b < read_size sizeArg \<and> ended r' \<and> buf r' = [])) \<and>
      (length (buf r @ concat cs) < read_size sizeArg \<longrightarrow>
         read_bytes sizeArg r (map Chunk cs @ Eof # rest)
           = Some (Returns (buf r @ concat cs) (on_end (r\<lparr>buf := [], src_ended := True\<rparr>))
                     rest)))"
proof (intro conjI impI)
  assume "read_bytes sizeArg r evs = Some (Returns b r' evs')"
  then show "length b \<le> read_size sizeArg"
    by (rule read_bytes_length)
next
  assume "0 \<le> n"
  then show "read_size (Some n) = nat n"
    by (simp add: read_size_def)
next
  assume "open_reader r \<and> read_size sizeArg \<le> MAX_HWM"
  then have o: "open_reader r" and small: "read_size sizeArg \<le> MAX_HWM"
    by simp_all
  show s: "read_bytes sizeArg r evs
        = map_option (after_read r) (spec_read (read_size sizeArg) (buf r) evs)"
    by (rule read_bytes_spec [OF o small])
  {
    assume "read_size sizeArg \<le> length (buf r)"
    then show "read_bytes sizeArg r evs
           = Some (Returns (take (read_size sizeArg) (buf r))
                     (r\<lparr>buf := drop (read_size sizeArg) (buf r)\<rparr>) evs)"
      by (simp add: s spec_read_enough after_read_def)
  }
  {
    assume a: "read_bytes sizeArg r evs = Some (Returns b r' evs')"
    then obtain x where x: "spec_read (read_size sizeArg) (buf r) evs = Some x"
      and ar: "after_read r x = Returns b r' evs'"
      by (auto simp: s)
    obtain b0 left fin rest0 where x0: "x = (b0, left, fin, rest0)"
      by (cases x) auto
    have ne: "\<not> ended r"
      using o by (simp add: open_reader_def)
    from spec_read_result [OF x [unfolded x0]] ar ne
    show "(length b = read_size sizeArg \<and> \<not> ended r') \<or>
          (length b < read_size sizeArg \<and> ended r' \<and> buf r' = [])"
      by (auto simp: x0 after_read_def on_end_def)
  }
  {
    assume "length (buf r @ concat cs) < read_size sizeArg"
    then show "read_bytes sizeArg r (map Chunk cs @ Eof # rest)
           = Some (Returns (buf r @ concat cs) (on_end (r\<lparr>buf := [], src_ended := True\<rparr>))
                     rest)"
      using read_bytes_spec [OF o small, of "map Chunk cs @ Eof # rest"]
      by (simp add: spec_read_all after_read_def)
  }
qed

lemma new_reader_open: "open_reader new_StreamReader"
  by (simp add: open_reader_def new_StreamReader_def)

lemma new_reader_buf: "buf new_StreamReader = []"
  by (simp add: new_StreamReader_def)

text \<open>
  Two calls \<^verbatim>\<open>read(4)\<close> and \<^verbatim>\<open>read(2)\<close> on a source that delivers two chunks of three
  bytes, and a \<^verbatim>\<open>read(100)\<close> that the end of the source cuts short.
\<close>

lemma read_sized_example:
  "read_bytes (Some 4) new_StreamReader [Chunk [1, 2, 3], Chunk [4, 5, 6], Eof]
     = Some (Returns [1, 2, 3, 4] (new_StreamReader\<lparr>buf := [5, 6]\<rparr>) [Eof]) \<and>
   read_bytes (Some 2) (new_StreamReader\<lparr>buf := [5, 6]\<rparr>) [Eof]
     = Some (Returns [5, 6] (new_StreamReader\<lparr>buf := []\<rparr>) [Eof]) \<and>
   read_bytes (Some 100) new_StreamReader (map Chunk [[1, 2, 3], [4, 5, 6]] @ Eof # [])
     = Some (Returns [1, 2, 3, 4, 5, 6]
               (on_end (new_StreamReader\<lparr>buf := [], src_ended := True\<rparr>)) [])"
proof -
  have o2: "open_reader (new_StreamReader\<lparr>buf := [5, 6]\<rparr>)"
    by (simp add: open_reader_def new_StreamReader_def)
  have sp: "spec_read 4 [] [Chunk [1, 2, 3], Chunk [4, 5, 6], Eof]
              = Some ([1, 2, 3, 4], [5, 6], False, [Eof])"
    by (simp add: spec_read_Chunk spec_read_enough)
  have sp2: "spec_read 2 [5, 6] [Eof] = Some ([5, 6], [], False, [Eof])"
    by (simp add: spec_read_enough)
  have sp3: "spec_read 100 [] [Chunk [1, 2, 3], Chunk [4, 5, 6], Eof]
               = Some ([1, 2, 3, 4, 5, 6], [], True, [])"
    by (simp add: spec_read_Chunk spec_read_Eof)
  have m: "read_size (Some 4) \<le> MAX_HWM" "read_size (Some 2) \<le> MAX_HWM"
    "read_size (Some 100) \<le> MAX_HWM"
    by (simp_all add: read_size_def MAX_HWM_def)
  have 1: "read_bytes (Some 4) new_StreamReader [Chunk [1, 2, 3], Chunk [4, 5, 6], Eof]
             = Some (Returns [1, 2, 3, 4] (new_StreamReader\<lparr>buf := [5, 6]\<rparr>) [Eof])"
    by (simp add: read_bytes_spec [OF new_reader_open m(1)] read_size_def new_reader_buf sp
          after_read_def)
  have 2: "read_bytes (Some 2) (new_StreamReader\<lparr>buf := [5, 6]\<rparr>) [Eof]
             = Some (Returns [5, 6] (new_StreamReader\<lparr>buf := []\<rparr>) [Eof])"
    by (simp add: read_bytes_spec [OF o2 m(2)] read_size_def sp2 after_read_def)
  have 3: "read_bytes (Some 100) new_StreamReader [Chunk [1, 2, 3], Chunk [4, 5, 6], Eof]
             = Some (Returns [1, 2, 3, 4, 5, 6]
                       (on_end (new_StreamReader\<lparr>buf := [], src_ended := True\<rparr>)) [])"
    by (simp add: read_bytes_spec [OF new_reader_open m(3)] read_size_def new_reader_buf sp3
          after_read_def)
  show ?thesis
    using 1 2 3 by simp
qed

text \<open>
  C2. Without a size argument \<^verbatim>\<open>read\<close> asks \<^verbatim>\<open>stream.read\<close> for
  \<^verbatim>\<open>Number.MAX_SAFE_INTEGER\<close> bytes, which is above the 1 GiB that \<^verbatim>\<open>stream.read\<close>
  accepts. So on a reader whose stream is open, whatever bytes \<open>B\<close> the stream has
  buffered and whatever the source delivers, \<^verbatim>\<open>read()\<close> is rejected at once with the
  \<^verbatim>\<open>RangeError\<close> of \<^verbatim>\<open>stream.read\<close>: it returns no bytes, and not all the bytes up to
  the end of the source.
\<close>

theorem read_without_size:
  "read_size None = MAX_SAFE_INTEGER \<and> MAX_HWM < MAX_SAFE_INTEGER \<and>
   open_reader (new_StreamReader\<lparr>buf := B\<rparr>) \<and>
   read_bytes None (new_StreamReader\<lparr>buf := B\<rparr>) evs
     = Some (Rejects (out_of_range MAX_SAFE_INTEGER)) \<and>
   ecode (out_of_range MAX_SAFE_INTEGER) = ''ERR_OUT_OF_RANGE''"
proof -
  have s: "read_size None = MAX_SAFE_INTEGER"
    by (simp add: read_size_def)
  have r: "stream_readable (new_StreamReader\<lparr>buf := B\<rparr>)"
    by (simp add: stream_readable_def new_StreamReader_def)
  have "read_bytes None (new_StreamReader\<lparr>buf := B\<rparr>) evs
          = Some (Rejects (out_of_range (read_size None)))"
    by (rule read_bytes_out_of_range [OF r]) (simp add: s safe_integer_big)
  then show ?thesis
    by (simp add: s safe_integer_big open_reader_def new_StreamReader_def out_of_range_def)
qed

section \<open>Closing a reader (C8)\<close>

lemma close_inv: "reader_inv r \<Longrightarrow> reader_inv (close r)"
  by (simp add: close_def reader_inv_def)

lemma on_end_inv: "reader_inv (on_end r)"
  by (simp add: on_end_def reader_inv_def)

lemma new_reader_inv: "reader_inv new_StreamReader"
  by (simp add: reader_inv_def new_StreamReader_def)

lemma close_not_ended: "\<not> ended r \<Longrightarrow> destroyed (close r)"
  by (simp add: close_def)

text \<open>
  On a reader whose stream nobody else has destroyed, the stream is destroyed as soon
  as \<^verbatim>\<open>close\<close> returns, and every \<^verbatim>\<open>read\<close> issued after it returns no bytes, at once,
  whatever its size and whatever happens next.
\<close>

lemma read_after_close:
  assumes "reader_inv r"
  shows "isClosed (close r)" and "ended (close r)"
    and "read_bytes sizeArg (close r) evs = Some (Returns [] (close r) evs)"
proof -
  have d: "destroyed (close r)" "ended (close r)"
    using assms by (auto simp: close_def reader_inv_def)
  show "isClosed (close r)"
    using d by (simp add: isClosed_def)
  show "ended (close r)"
    by (rule d(2))
  show "read_bytes sizeArg (close r) evs = Some (Returns [] (close r) evs)"
    using d by (simp add: read_bytes_def first_read_def stream_readable_def)
qed

text \<open>A \<^verbatim>\<open>read\<close> that is suspended when \<^verbatim>\<open>close\<close> is called stays suspended.\<close>

lemma awaiting_closed:
  "\<not> ended r \<Longrightarrow> \<not> end_pending r \<Longrightarrow> awaiting sz acc r (CloseCalled # evs) = None"
  by (simp add: awaiting_Close awaiting_destroyed close_not_ended)

text \<open>
  C8. \<^verbatim>\<open>close\<close> is idempotent, and a \<^verbatim>\<open>read(20)\<close> issued after \<^verbatim>\<open>close\<close> on a new
  reader returns no bytes at once. But:
  \<^item> a \<^verbatim>\<open>read(20)\<close> on a new reader is suspended, since nothing is buffered; \<^verbatim>\<open>close\<close>
    is called; \<^verbatim>\<open>stream.destroy()\<close> emits none of the events that the read waits for,
    and the read never returns, whatever happens next;
  \<^item> on a reader whose stream has been destroyed otherwise (by an error of the
    stream), \<^verbatim>\<open>close\<close> returns without setting \<^verbatim>\<open>ended\<close>, and a \<^verbatim>\<open>read(20)\<close> issued
    after it never returns either.
\<close>

theorem close_leaves_read_pending:
  "close (close r) = close r \<and>
   isClosed (close new_StreamReader) \<and>
   read_bytes (Some 20) (close new_StreamReader) evs
     = Some (Returns [] (close new_StreamReader) evs) \<and>
   read_bytes (Some 20) new_StreamReader (CloseCalled # evs) = None \<and>
   close (new_StreamReader\<lparr>destroyed := True\<rparr>) = new_StreamReader\<lparr>destroyed := True\<rparr> \<and>
   read_bytes (Some 20) (close (new_StreamReader\<lparr>destroyed := True\<rparr>)) evs = None"
proof -
  have 1: "close (close r) = close r"
    by (simp add: close_def)
  have m: "read_size (Some 20) \<le> MAX_HWM"
    by (simp add: read_size_def MAX_HWM_def)
  have 2: "read_bytes (Some 20) new_StreamReader (CloseCalled # evs) = None"
    by (simp add: read_bytes_spec [OF new_reader_open m] read_size_def new_reader_buf
          spec_read_Close)
  have 3: "close (new_StreamReader\<lparr>destroyed := True\<rparr>) = new_StreamReader\<lparr>destroyed := True\<rparr>"
    by (simp add: close_def)
  have "read_bytes (Some 20) (new_StreamReader\<lparr>destroyed := True\<rparr>) evs
          = awaiting 20 [] (new_StreamReader\<lparr>destroyed := True\<rparr>) evs"
    by (simp add: read_bytes_def first_read_def stream_readable_def read_size_def
          new_StreamReader_def)
  then have 4: "read_bytes (Some 20) (close (new_StreamReader\<lparr>destroyed := True\<rparr>)) evs = None"
    by (simp add: 3 awaiting_destroyed)
  show ?thesis
    using 1 2 3 4 read_after_close [OF new_reader_inv] by simp
qed


end
